(* ===== verification/Prelude.thy ===== *)
theory Prelude
  imports Main "HOL-Library.Word" "HOL-Library.AList"
begin

text \<open>
  Shared vocabulary of the development.

  \<^item> Machine integers: \<open>u8\<close>, \<open>u16\<close>, \<open>u32\<close>, \<open>u64\<close> are words of HOL-Library.
  \<^item> A \<open>std::string\<close> is a \<open>string\<close> (a list of bytes); \<open>find_char\<close>, \<open>find_from\<close>, \<open>rfind_char\<close>,
    \<open>substr\<close>, \<open>getlines\<close> and \<open>split_on\<close> are the members of \<open>std::string\<close> and \<open>std::getline\<close>
    the sources use; \<open>std_stoul\<close>, \<open>std_stoi\<close>, \<open>std_stoll\<close> and \<open>std_stoull\<close> are the library's number
    parsers (leading white space, sign, longest digit prefix, range check; \<open>long\<close> has 32 bits on
    the program's platform, Windows), and \<open>nat_to_string\<close>, \<open>int_to_string\<close> are
    \<open>std::to_string\<close>.
  \<^item> C++ code with side effects and exceptions is a function of type \<open>('s, 'a) mon\<close>: from a state
    to either an exception or a value, together with the new state (side effects made before a
    throw stay). \<open>bindM\<close> sequences, \<open>catchM\<close> is \<open>try ... catch\<close>, \<open>forM\<close> is a range-based \<open>for\<close>.
  \<^item> \<open>keeps I m\<close>: running \<open>m\<close> from a state with \<open>I\<close> ends, normally or by an exception, in a state
    with \<open>I\<close>. The collection \<open>keeps_intros\<close> holds one rule per construct, so that an invariant
    proof follows the shape of the code.
\<close>

type_synonym u8 = "8 word"
type_synonym u16 = "16 word"
type_synonym u32 = "32 word"
type_synonym u64 = "64 word"

named_theorems mon_simps \<open>unfolding equations of the state-exception monad\<close>
named_theorems keeps_intros \<open>invariant rules, one per construct\<close>

section \<open>Exceptions and the state-exception monad\<close>

datatype exn = ConstraintError string | RuntimeError string | InvalidArgument string

fun what :: "exn \<Rightarrow> string" where
  "what (ConstraintError m) = m"
| "what (RuntimeError m) = m"
| "what (InvalidArgument m) = m"

type_synonym ('s, 'a) mon = "'s \<Rightarrow> (exn + 'a) \<times> 's"

definition returnM :: "'a \<Rightarrow> ('s, 'a) mon" where
  "returnM a = (\<lambda>s. (Inr a, s))"

definition throwM :: "exn \<Rightarrow> ('s, 'a) mon" where
  "throwM e = (\<lambda>s. (Inl e, s))"

definition bindM :: "('s, 'a) mon \<Rightarrow> ('a \<Rightarrow> ('s, 'b) mon) \<Rightarrow> ('s, 'b) mon" where
  "bindM m f = (\<lambda>s. case m s of (Inl e, t) \<Rightarrow> (Inl e, t) | (Inr a, t) \<Rightarrow> f a t)"

definition thenM :: "('s, 'a) mon \<Rightarrow> ('s, 'b) mon \<Rightarrow> ('s, 'b) mon" where
  "thenM m n = bindM m (\<lambda>_. n)"

definition catchM :: "('s, 'a) mon \<Rightarrow> (exn \<Rightarrow> ('s, 'a) mon) \<Rightarrow> ('s, 'a) mon" where
  "catchM m h = (\<lambda>s. case m s of (Inl e, t) \<Rightarrow> h e t | (Inr a, t) \<Rightarrow> (Inr a, t))"

definition getsM :: "('s \<Rightarrow> 'a) \<Rightarrow> ('s, 'a) mon" where
  "getsM f = (\<lambda>s. (Inr (f s), s))"

definition modifyM :: "('s \<Rightarrow> 's) \<Rightarrow> ('s, unit) mon" where
  "modifyM f = (\<lambda>s. (Inr (), f s))"

definition whenM :: "bool \<Rightarrow> ('s, unit) mon \<Rightarrow> ('s, unit) mon" where
  "whenM b m = (if b then m else returnM ())"

primrec forM :: "'a list \<Rightarrow> ('a \<Rightarrow> ('s, unit) mon) \<Rightarrow> ('s, unit) mon" where
  "forM [] f = returnM ()"
| "forM (x # xs) f = thenM (f x) (forM xs f)"

text \<open>Running a computation on a component of a larger state.\<close>

definition zoomM :: "('t \<Rightarrow> 's) \<Rightarrow> ('s \<Rightarrow> 't \<Rightarrow> 't) \<Rightarrow> ('s, 'a) mon \<Rightarrow> ('t, 'a) mon" where
  "zoomM get put m = (\<lambda>t. case m (get t) of (r, s) \<Rightarrow> (r, put s t))"

lemma returnM_run [simp, mon_simps]: "returnM a s = (Inr a, s)"
  by (simp add: returnM_def)

lemma throwM_run [simp, mon_simps]: "throwM e s = (Inl e, s)"
  by (simp add: throwM_def)

lemma getsM_run [simp, mon_simps]: "getsM f s = (Inr (f s), s)"
  by (simp add: getsM_def)

lemma modifyM_run [simp, mon_simps]: "modifyM f s = (Inr (), f s)"
  by (simp add: modifyM_def)

lemma bindM_run [mon_simps]:
  "bindM m f s = (case m s of (Inl e, t) \<Rightarrow> (Inl e, t) | (Inr a, t) \<Rightarrow> f a t)"
  by (simp add: bindM_def)

lemma bindM_ok [simp]: "m s = (Inr a, t) \<Longrightarrow> bindM m f s = f a t"
  by (simp add: bindM_def)

lemma bindM_err [simp]: "m s = (Inl e, t) \<Longrightarrow> bindM m f s = (Inl e, t)"
  by (simp add: bindM_def)

lemma thenM_run [mon_simps]:
  "thenM m n s = (case m s of (Inl e, t) \<Rightarrow> (Inl e, t) | (Inr a, t) \<Rightarrow> n t)"
  by (simp add: thenM_def bindM_def)

lemma thenM_ok [simp]: "m s = (Inr a, t) \<Longrightarrow> thenM m n s = n t"
  by (simp add: thenM_def)

lemma thenM_err [simp]: "m s = (Inl e, t) \<Longrightarrow> thenM m n s = (Inl e, t)"
  by (simp add: thenM_def)

lemma catchM_run [mon_simps]:
  "catchM m h s = (case m s of (Inl e, t) \<Rightarrow> h e t | (Inr a, t) \<Rightarrow> (Inr a, t))"
  by (simp add: catchM_def)

lemma catchM_ok [simp]: "m s = (Inr a, t) \<Longrightarrow> catchM m h s = (Inr a, t)"
  by (simp add: catchM_def)

lemma catchM_err [simp]: "m s = (Inl e, t) \<Longrightarrow> catchM m h s = h e t"
  by (simp add: catchM_def)

lemma whenM_True [simp]: "whenM True m = m"
  by (simp add: whenM_def)

lemma whenM_False [simp]: "whenM False m = returnM ()"
  by (simp add: whenM_def)

lemma zoomM_run [mon_simps]:
  "zoomM get put m t = (case m (get t) of (r, s) \<Rightarrow> (r, put s t))"
  by (simp add: zoomM_def)

lemma forM_append: "forM (xs @ ys) f s = thenM (forM xs f) (forM ys f) s"
  by (induction xs arbitrary: s) (auto simp: mon_simps split: prod.splits sum.splits)

section \<open>Invariants of computations\<close>

definition keeps :: "('s \<Rightarrow> bool) \<Rightarrow> ('s, 'a) mon \<Rightarrow> bool" where
  "keeps I m \<longleftrightarrow> (\<forall>s. I s \<longrightarrow> I (snd (m s)))"

lemma keepsI [intro?]: "(\<And>s. I s \<Longrightarrow> I (snd (m s))) \<Longrightarrow> keeps I m"
  by (simp add: keeps_def)

lemma keepsD: "keeps I m \<Longrightarrow> I s \<Longrightarrow> I (snd (m s))"
  by (simp add: keeps_def)

lemma keepsE: "keeps I m \<Longrightarrow> I s \<Longrightarrow> m s = (r, t) \<Longrightarrow> I t"
  by (metis keeps_def snd_conv)

lemma keeps_returnM [keeps_intros]: "keeps I (returnM a)"
  by (simp add: keeps_def)

lemma keeps_throwM [keeps_intros]: "keeps I (throwM e)"
  by (simp add: keeps_def)

lemma keeps_getsM [keeps_intros]: "keeps I (getsM f)"
  by (simp add: keeps_def)

lemma keeps_bindM [keeps_intros]:
  "keeps I m \<Longrightarrow> (\<And>a. keeps I (f a)) \<Longrightarrow> keeps I (bindM m f)"
  by (fastforce simp: keeps_def bindM_def split: prod.splits sum.splits)

lemma keeps_thenM [keeps_intros]:
  "keeps I m \<Longrightarrow> keeps I n \<Longrightarrow> keeps I (thenM m n)"
  by (simp add: thenM_def keeps_bindM)

lemma keeps_catchM [keeps_intros]:
  "keeps I m \<Longrightarrow> (\<And>e. keeps I (h e)) \<Longrightarrow> keeps I (catchM m h)"
  by (fastforce simp: keeps_def catchM_def split: prod.splits sum.splits)

lemma keeps_whenM [keeps_intros]: "(b \<Longrightarrow> keeps I m) \<Longrightarrow> keeps I (whenM b m)"
  by (simp add: whenM_def keeps_returnM)

lemma keeps_forM [keeps_intros]:
  "(\<And>x. x \<in> set xs \<Longrightarrow> keeps I (f x)) \<Longrightarrow> keeps I (forM xs f)"
  by (induction xs) (auto intro: keeps_intros)

lemma keeps_if [keeps_intros]:
  "(b \<Longrightarrow> keeps I m) \<Longrightarrow> (\<not> b \<Longrightarrow> keeps I n) \<Longrightarrow> keeps I (if b then m else n)"
  by simp

lemma keeps_case_option [keeps_intros]:
  "(x = None \<Longrightarrow> keeps I m) \<Longrightarrow> (\<And>a. x = Some a \<Longrightarrow> keeps I (f a)) \<Longrightarrow>
   keeps I (case x of None \<Rightarrow> m | Some a \<Rightarrow> f a)"
  by (cases x) auto

lemma keeps_case_sum [keeps_intros]:
  "(\<And>a. x = Inl a \<Longrightarrow> keeps I (f a)) \<Longrightarrow> (\<And>b. x = Inr b \<Longrightarrow> keeps I (g b)) \<Longrightarrow>
   keeps I (case x of Inl a \<Rightarrow> f a | Inr b \<Rightarrow> g b)"
  by (cases x) auto

lemma keeps_case_exn [keeps_intros]:
  "(\<And>m. x = ConstraintError m \<Longrightarrow> keeps I (f m)) \<Longrightarrow> (\<And>m. x = RuntimeError m \<Longrightarrow> keeps I (g m)) \<Longrightarrow>
   (\<And>m. x = InvalidArgument m \<Longrightarrow> keeps I (h m)) \<Longrightarrow>
   keeps I (case x of ConstraintError m \<Rightarrow> f m | RuntimeError m \<Rightarrow> g m | InvalidArgument m \<Rightarrow> h m)"
  by (cases x) auto

lemma keeps_case_prod [keeps_intros]:
  "(\<And>a b. x = (a, b) \<Longrightarrow> keeps I (f a b)) \<Longrightarrow> keeps I (case x of (a, b) \<Rightarrow> f a b)"
  by (cases x) auto

lemma keeps_zoomM:
  assumes "keeps J m" and "\<And>t. I t \<Longrightarrow> J (get t)"
    and "\<And>s t. I t \<Longrightarrow> J s \<Longrightarrow> I (put s t)"
  shows "keeps I (zoomM get put m)"
  using assms by (auto simp: keeps_def zoomM_def split: prod.splits) (metis snd_conv)

text \<open>Computations that keep \<open>I\<close> and do not throw when started in it, and the two-state form of both
  notions for code that leaves the invariant between two statements.\<close>

definition hoare :: "('s \<Rightarrow> bool) \<Rightarrow> ('s, 'a) mon \<Rightarrow> ('a \<Rightarrow> 's \<Rightarrow> bool) \<Rightarrow> bool" where
  "hoare P m Q \<longleftrightarrow> (\<forall>s. P s \<longrightarrow> (\<exists>a t. m s = (Inr a, t) \<and> Q a t))"

definition safe :: "('s \<Rightarrow> bool) \<Rightarrow> ('s, 'a) mon \<Rightarrow> bool" where
  "safe I m \<longleftrightarrow> hoare I m (\<lambda>_. I)"

lemma hoareI: "(\<And>s. P s \<Longrightarrow> \<exists>a t. m s = (Inr a, t) \<and> Q a t) \<Longrightarrow> hoare P m Q"
  by (simp add: hoare_def)

lemma hoareD: "hoare P m Q \<Longrightarrow> P s \<Longrightarrow> \<exists>a t. m s = (Inr a, t) \<and> Q a t"
  by (simp add: hoare_def)

lemma safeI: "(\<And>s. I s \<Longrightarrow> \<exists>a t. m s = (Inr a, t) \<and> I t) \<Longrightarrow> safe I m"
  by (simp add: safe_def hoare_def)

lemma safeD: "safe I m \<Longrightarrow> I s \<Longrightarrow> \<exists>a t. m s = (Inr a, t) \<and> I t"
  by (simp add: safe_def hoare_def)

lemma safe_keeps: "safe I m \<Longrightarrow> keeps I m"
  by (fastforce simp: safe_def hoare_def keeps_def)

lemma hoare_weaken:
  "hoare P m Q \<Longrightarrow> (\<And>s. P' s \<Longrightarrow> P s) \<Longrightarrow> (\<And>a t. Q a t \<Longrightarrow> Q' a t) \<Longrightarrow> hoare P' m Q'"
  by (fastforce simp: hoare_def)

lemma hoare_bindM: "hoare P m R \<Longrightarrow> (\<And>a. hoare (R a) (f a) Q) \<Longrightarrow> hoare P (bindM m f) Q"
  by (fastforce simp: hoare_def)

lemma hoare_thenM: "hoare P m (\<lambda>_. R) \<Longrightarrow> hoare R n Q \<Longrightarrow> hoare P (thenM m n) Q"
  unfolding thenM_def by (rule hoare_bindM)

lemma hoare_returnM: "(\<And>s. P s \<Longrightarrow> Q a s) \<Longrightarrow> hoare P (returnM a) Q"
  by (simp add: hoare_def)

lemma hoare_getsM: "(\<And>s. P s \<Longrightarrow> Q (f s) s) \<Longrightarrow> hoare P (getsM f) Q"
  by (simp add: hoare_def)

lemma hoare_modifyM: "(\<And>s. P s \<Longrightarrow> Q () (f s)) \<Longrightarrow> hoare P (modifyM f) Q"
  by (simp add: hoare_def)

lemma hoare_catchM:
  assumes "\<And>s. P s \<Longrightarrow> case m s of (Inr a, t) \<Rightarrow> Q a t | (Inl e, t) \<Rightarrow> R e t" and "\<And>e. hoare (R e) (h e) Q"
  shows "hoare P (catchM m h) Q"
  unfolding hoare_def
proof (intro allI impI)
  fix s
  assume "P s"
  then show "\<exists>a t. catchM m h s = (Inr a, t) \<and> Q a t"
    using assms(1) [of s] assms(2) by (auto simp: catchM_def hoare_def split: prod.splits sum.splits)
qed

named_theorems safe_intros \<open>rules for computations that keep the invariant and do not throw\<close>

lemma safe_returnM [safe_intros]: "safe I (returnM a)"
  by (simp add: safe_def hoare_returnM)

lemma safe_getsM [safe_intros]: "safe I (getsM f)"
  by (simp add: safe_def hoare_getsM)

lemma safe_bindM [safe_intros]: "safe I m \<Longrightarrow> (\<And>a. safe I (f a)) \<Longrightarrow> safe I (bindM m f)"
  unfolding safe_def by (rule hoare_bindM)

lemma safe_thenM [safe_intros]: "safe I m \<Longrightarrow> safe I n \<Longrightarrow> safe I (thenM m n)"
  unfolding thenM_def by (rule safe_bindM)

lemma safe_catchM: "keeps I m \<Longrightarrow> (\<And>e. safe I (h e)) \<Longrightarrow> safe I (catchM m h)"
  unfolding safe_def by (rule hoare_catchM [where R = "\<lambda>_. I"]) (auto dest: keepsE split: prod.split sum.split)

lemma safe_whenM [safe_intros]: "(b \<Longrightarrow> safe I m) \<Longrightarrow> safe I (whenM b m)"
  by (simp add: whenM_def safe_returnM)

lemma safe_forM [safe_intros]: "(\<And>x. x \<in> set xs \<Longrightarrow> safe I (f x)) \<Longrightarrow> safe I (forM xs f)"
  by (induction xs) (auto intro: safe_intros)

lemma safe_if [safe_intros]:
  "(b \<Longrightarrow> safe I m) \<Longrightarrow> (\<not> b \<Longrightarrow> safe I n) \<Longrightarrow> safe I (if b then m else n)"
  by simp

lemma safe_case_option [safe_intros]:
  "(x = None \<Longrightarrow> safe I m) \<Longrightarrow> (\<And>a. x = Some a \<Longrightarrow> safe I (f a)) \<Longrightarrow>
   safe I (case x of None \<Rightarrow> m | Some a \<Rightarrow> f a)"
  by (cases x) auto

lemma safe_case_sum [safe_intros]:
  "(\<And>a. x = Inl a \<Longrightarrow> safe I (f a)) \<Longrightarrow> (\<And>b. x = Inr b \<Longrightarrow> safe I (g b)) \<Longrightarrow>
   safe I (case x of Inl a \<Rightarrow> f a | Inr b \<Rightarrow> g b)"
  by (cases x) auto

lemma safe_case_exn [safe_intros]:
  "(\<And>m. x = ConstraintError m \<Longrightarrow> safe I (f m)) \<Longrightarrow> (\<And>m. x = RuntimeError m \<Longrightarrow> safe I (g m)) \<Longrightarrow>
   (\<And>m. x = InvalidArgument m \<Longrightarrow> safe I (h m)) \<Longrightarrow>
   safe I (case x of ConstraintError m \<Rightarrow> f m | RuntimeError m \<Rightarrow> g m | InvalidArgument m \<Rightarrow> h m)"
  by (cases x) auto

lemma safe_case_prod [safe_intros]:
  "(\<And>a b. x = (a, b) \<Longrightarrow> safe I (f a b)) \<Longrightarrow> safe I (case x of (a, b) \<Rightarrow> f a b)"
  by (cases x) auto

lemma keeps_modifyM: "(\<And>s. I s \<Longrightarrow> I (f s)) \<Longrightarrow> keeps I (modifyM f)"
  by (simp add: keeps_def)

lemma safe_modifyM: "(\<And>s. I s \<Longrightarrow> I (f s)) \<Longrightarrow> safe I (modifyM f)"
  by (simp add: safe_def hoare_def)

text \<open>Running for the effect only.\<close>

definition ignoreM :: "('s, 'a) mon \<Rightarrow> ('s, unit) mon" where
  "ignoreM m = thenM m (returnM ())"

lemma safe_ignoreM: "safe I m \<Longrightarrow> safe I (ignoreM m)"
  unfolding ignoreM_def by (intro safe_intros)

lemma keeps_ignoreM: "keeps I m \<Longrightarrow> keeps I (ignoreM m)"
  unfolding ignoreM_def by (intro keeps_intros)

section \<open>Strings\<close>

definition find_char :: "char \<Rightarrow> string \<Rightarrow> nat option" where
  "find_char c s =
     (let n = length (takeWhile (\<lambda>x. x \<noteq> c) s) in if n < length s then Some n else None)"

definition find_from :: "char \<Rightarrow> nat \<Rightarrow> string \<Rightarrow> nat option" where
  "find_from c pos s = map_option (\<lambda>i. pos + i) (find_char c (drop pos s))"

definition rfind_char :: "char \<Rightarrow> string \<Rightarrow> nat option" where
  "rfind_char c s = map_option (\<lambda>i. length s - 1 - i) (find_char c (rev s))"

definition substr :: "string \<Rightarrow> nat \<Rightarrow> nat \<Rightarrow> string" where
  "substr s pos n = take n (drop pos s)"

definition starts_with :: "string \<Rightarrow> string \<Rightarrow> bool" where
  "starts_with p s \<longleftrightarrow> take (length p) s = p"

text \<open>\<open>while (std::getline(ss, item, c))\<close>: a piece after the last delimiter only if it is
  not empty.\<close>

function getlines :: "char \<Rightarrow> string \<Rightarrow> string list" where
  "getlines c s =
     (if s = [] then []
      else takeWhile (\<lambda>x. x \<noteq> c) s # getlines c (drop 1 (dropWhile (\<lambda>x. x \<noteq> c) s)))"
  by pat_completeness auto
termination
  by (relation "measure (\<lambda>(c, s). length s)")
    (auto simp: length_dropWhile_le less_Suc_eq_le neq_Nil_conv
      intro: order.trans [OF diff_le_self length_dropWhile_le])

declare getlines.simps [simp del]

text \<open>The \<open>find(c, start)\<close> / \<open>substr\<close> loops: every piece, the last one also when empty.\<close>

function split_on :: "char \<Rightarrow> string \<Rightarrow> string list" where
  "split_on c s =
     (case find_char c s of
        None \<Rightarrow> [s]
      | Some i \<Rightarrow> take i s # split_on c (drop (Suc i) s))"
  by pat_completeness auto
termination
  by (relation "measure (\<lambda>(c, s). length s)") (auto simp: find_char_def Let_def split: if_splits)

declare split_on.simps [simp del]

text \<open>Pieces glued with a one-character separator.\<close>

fun join_with :: "char \<Rightarrow> string list \<Rightarrow> string" where
  "join_with c [] = []"
| "join_with c [x] = x"
| "join_with c (x # y # xs) = x @ c # join_with c (y # xs)"

lemma find_char_append [simp]: "c \<notin> set a \<Longrightarrow> find_char c (a @ c # b) = Some (length a)"
  by (simp add: find_char_def Let_def takeWhile_append)

lemma find_char_None [simp]: "find_char c s = None \<longleftrightarrow> c \<notin> set s"
proof
  assume "find_char c s = None"
  then have "length s \<le> length (takeWhile (\<lambda>x. x \<noteq> c) s)"
    by (simp add: find_char_def Let_def split: if_splits)
  then have "takeWhile (\<lambda>x. x \<noteq> c) s = s"
    by (metis append_self_conv length_append le_add1 le_antisym append_eq_conv_conj takeWhile_dropWhile_id
        add_le_same_cancel1 le_zero_eq length_0_conv)
  then show "c \<notin> set s" by (metis (mono_tags, lifting) takeWhile_eq_all_conv)
next
  assume "c \<notin> set s"
  then have "takeWhile (\<lambda>x. x \<noteq> c) s = s" by (auto simp: takeWhile_eq_all_conv)
  then show "find_char c s = None" by (simp only: find_char_def Let_def) simp
qed

lemma find_char_Some:
  assumes "find_char c s = Some i"
  shows "i < length s \<and> s ! i = c \<and> c \<notin> set (take i s) \<and> s = take i s @ c # drop (Suc i) s"
proof -
  let ?t = "takeWhile (\<lambda>x. x \<noteq> c) s"
  from assms have i: "i = length ?t" and lt: "length ?t < length s"
    by (auto simp: find_char_def Let_def split: if_splits)
  have "s ! i = c" using nth_length_takeWhile [OF lt] i by simp
  moreover have "take i s = ?t" by (simp add: i takeWhile_eq_take [symmetric])
  moreover have "c \<notin> set ?t" by (auto dest: set_takeWhileD)
  moreover have "s = take i s @ s ! i # drop (Suc i) s"
    using lt i by (simp add: id_take_nth_drop [symmetric])
  ultimately show ?thesis using lt i by metis
qed

lemma split_on_clean [simp]: "c \<notin> set s \<Longrightarrow> split_on c s = [s]"
  by (subst split_on.simps) (simp add: find_char_None [THEN iffD2])

lemma split_on_append: "c \<notin> set a \<Longrightarrow> split_on c (a @ c # b) = a # split_on c b"
  by (subst split_on.simps) simp

lemma split_on_join:
  "xs \<noteq> [] \<Longrightarrow> \<forall>x\<in>set xs. c \<notin> set x \<Longrightarrow> split_on c (join_with c xs) = xs"
  by (induction c xs rule: join_with.induct) (auto simp: split_on_append)

lemma getlines_Nil [simp]: "getlines c [] = []"
  by (subst getlines.simps) simp

lemma getlines_clean:
  assumes "c \<notin> set s" and "s \<noteq> []" shows "getlines c s = [s]"
proof -
  have "takeWhile (\<lambda>x. x \<noteq> c) s = s" and "dropWhile (\<lambda>x. x \<noteq> c) s = []"
    using assms(1) by (auto simp: takeWhile_eq_all_conv)
  then show ?thesis
    using assms(2) by (subst getlines.simps) (simp only: if_False drop_Nil getlines_Nil)
qed

lemma getlines_append: "c \<notin> set a \<Longrightarrow> getlines c (a @ c # b) = a # getlines c b"
  by (subst getlines.simps) (auto simp: takeWhile_append dropWhile_append)

lemma getlines_join:
  "\<forall>x\<in>set xs. c \<notin> set x \<and> x \<noteq> [] \<Longrightarrow> getlines c (join_with c xs) = xs"
  by (induction c xs rule: join_with.induct) (auto simp: getlines_append getlines_clean)

lemma join_with_empty [simp]: "join_with c xs = [] \<longleftrightarrow> xs = [] \<or> xs = [[]]"
  by (induction c xs rule: join_with.induct) auto

section \<open>Numbers in text\<close>

definition is_digit :: "char \<Rightarrow> bool" where
  "is_digit c \<longleftrightarrow> 48 \<le> (of_char c :: nat) \<and> (of_char c :: nat) \<le> 57"

definition is_space :: "char \<Rightarrow> bool" where
  "is_space c \<longleftrightarrow> (of_char c :: nat) = 32 \<or> (9 \<le> (of_char c :: nat) \<and> (of_char c :: nat) \<le> 13)"

definition digit_char :: "nat \<Rightarrow> char" where
  "digit_char d = char_of (48 + d)"

fun nat_to_string :: "nat \<Rightarrow> string" where
  "nat_to_string n =
     (if n < 10 then [digit_char n] else nat_to_string (n div 10) @ [digit_char (n mod 10)])"

declare nat_to_string.simps [simp del]

definition int_to_string :: "int \<Rightarrow> string" where
  "int_to_string i = (if i < 0 then CHR ''-'' # nat_to_string (nat (- i)) else nat_to_string (nat i))"

definition digits_val :: "string \<Rightarrow> nat" where
  "digits_val s = foldl (\<lambda>a c. 10 * a + (of_char c - 48)) 0 s"

text \<open>White space, sign and digits as \<open>strtol\<close> and its kin read them; \<open>None\<close> when there is no digit.\<close>

definition scan_number :: "string \<Rightarrow> (bool \<times> nat) option" where
  "scan_number s =
     (let t = dropWhile is_space s;
          neg = (t \<noteq> [] \<and> hd t = CHR ''-'');
          u = (if t \<noteq> [] \<and> (hd t = CHR ''-'' \<or> hd t = CHR ''+'') then tl t else t);
          ds = takeWhile is_digit u
      in if ds = [] then None else Some (neg, digits_val ds))"

definition parse_unsigned :: "nat \<Rightarrow> string \<Rightarrow> nat option" where
  "parse_unsigned w s =
     (case scan_number s of
        None \<Rightarrow> None
      | Some (neg, v) \<Rightarrow>
          if v \<ge> 2 ^ w then None else Some (if neg then (2 ^ w - v) mod 2 ^ w else v))"

definition parse_signed :: "nat \<Rightarrow> string \<Rightarrow> int option" where
  "parse_signed w s =
     (case scan_number s of
        None \<Rightarrow> None
      | Some (neg, v) \<Rightarrow>
          (let i = (if neg then - int v else int v)
           in if - (2 ^ (w - 1)) \<le> i \<and> i < 2 ^ (w - 1) then Some i else None))"

definition std_stoul :: "string \<Rightarrow> nat option" where "std_stoul = parse_unsigned 32"
definition std_stoull :: "string \<Rightarrow> nat option" where "std_stoull = parse_unsigned 64"
definition std_stoi :: "string \<Rightarrow> int option" where "std_stoi = parse_signed 32"
definition std_stoll :: "string \<Rightarrow> int option" where "std_stoll = parse_signed 64"

lemma of_char_digit: "d < 10 \<Longrightarrow> of_char (digit_char d) = (48 + d :: nat)"
  by (simp add: digit_char_def)

lemma is_digit_digit_char [simp]: "d < 10 \<Longrightarrow> is_digit (digit_char d)"
  by (simp add: is_digit_def of_char_digit)

lemma nat_to_string_digits: "\<forall>c\<in>set (nat_to_string n). is_digit c"
proof (induction n rule: nat_to_string.induct)
  case (1 n)
  then show ?case by (subst nat_to_string.simps) (auto)
qed

lemma nat_to_string_not_Nil [simp]: "nat_to_string n \<noteq> []"
  by (subst nat_to_string.simps) simp

lemma digits_val_nat_to_string [simp]: "digits_val (nat_to_string n) = n"
proof (induction n rule: nat_to_string.induct)
  case (1 n)
  then show ?case
    by (subst nat_to_string.simps) (auto simp: digits_val_def of_char_digit)
qed

lemma digit_not_space: "is_digit c \<Longrightarrow> \<not> is_space c"
  by (auto simp: is_digit_def is_space_def)

lemma digit_not_sign: "is_digit c \<Longrightarrow> c \<noteq> CHR ''-'' \<and> c \<noteq> CHR ''+''"
  by (auto simp: is_digit_def)

lemma nat_to_string_no_sep:
  assumes "\<not> is_digit c" shows "c \<notin> set (nat_to_string n)"
  using assms nat_to_string_digits by blast

lemma takeWhile_digits [simp]: "takeWhile is_digit (nat_to_string n) = nat_to_string n"
  using nat_to_string_digits by (auto simp: takeWhile_eq_all_conv)

lemma scan_number_nat [simp]: "scan_number (nat_to_string n) = Some (False, n)"
proof -
  obtain c cs where e: "nat_to_string n = c # cs" by (cases "nat_to_string n") auto
  then have d: "is_digit c" using nat_to_string_digits [of n] by auto
  have "dropWhile is_space (nat_to_string n) = nat_to_string n"
    using e d digit_not_space by simp
  moreover have "hd (nat_to_string n) = c" using e by simp
  ultimately show ?thesis
    using d digit_not_sign [of c] by (simp only: scan_number_def Let_def takeWhile_digits
        digits_val_nat_to_string nat_to_string_not_Nil if_False simp_thms)
qed

lemma scan_number_minus: "scan_number (CHR ''-'' # nat_to_string n) = Some (True, n)"
  by (simp add: scan_number_def Let_def is_space_def del: takeWhile_eq_all_conv)

lemma parse_unsigned_nat: "n < 2 ^ w \<Longrightarrow> parse_unsigned w (nat_to_string n) = Some n"
  by (simp add: parse_unsigned_def)

lemma parse_signed_int:
  assumes "- (2 ^ (w - 1)) \<le> i" and "i < 2 ^ (w - 1)"
  shows "parse_signed w (int_to_string i) = Some i"
  using assms by (simp add: parse_signed_def int_to_string_def scan_number_minus Let_def)

lemma std_stoul_nat [simp]: "n < 2 ^ 32 \<Longrightarrow> std_stoul (nat_to_string n) = Some n"
  by (simp add: std_stoul_def parse_unsigned_nat)

lemma std_stoi_int: "- (2 ^ 31) \<le> i \<Longrightarrow> i < 2 ^ 31 \<Longrightarrow> std_stoi (int_to_string i) = Some i"
  unfolding std_stoi_def by (rule parse_signed_int) simp_all

lemma std_stoll_int: "- (2 ^ 63) \<le> i \<Longrightarrow> i < 2 ^ 63 \<Longrightarrow> std_stoll (int_to_string i) = Some i"
  unfolding std_stoll_def by (rule parse_signed_int) simp_all

lemma std_stoull_nat: "n < 2 ^ 64 \<Longrightarrow> std_stoull (nat_to_string n) = Some n"
  by (simp add: std_stoull_def parse_unsigned_nat)

lemma std_stoul_bound: "std_stoul s = Some n \<Longrightarrow> n < 2 ^ 32"
  by (auto simp: std_stoul_def parse_unsigned_def split: option.splits prod.splits if_splits)

lemma int_to_string_chars: "c \<in> set (int_to_string i) \<Longrightarrow> is_digit c \<or> c = CHR ''-''"
  using nat_to_string_digits by (auto simp: int_to_string_def split: if_splits)

section \<open>Bytes of words\<close>

lemma of_char_char_of_nat: "(of_char (char_of (n :: nat)) :: 'a::len word) = of_nat (n mod 256)"
proof -
  have "(of_char (char_of n) :: 'a word) = of_nat (of_char (char_of n) :: nat)"
    by (simp only: of_nat_of_char)
  then show ?thesis by simp
qed

end
