(* ===== verification/Packets.thy ===== *)
theory Packets
  imports Prelude
begin

text \<open>
  The wire unit of the program: \<open>Packet\<close> (include/utils/models/packet.h, src/utils/models/packet.cpp)
  and the response codes (include/utils/RESPONSE_CODES.h).

  \<open>PacketType\<close> is a scoped enumeration over \<open>int\<close>: the 21 enumerators are constructors, and
  \<open>TYPE_OUT_OF_RANGE n\<close> is a value obtained by casting an integer that is no enumerator, which is
  what \<open>isValidPacketType\<close> guards against. \<open>packetTypeCode\<close> and \<open>packetTypeOfCode\<close> are the two
  casts. The packet's \<open>int\<close> response code is a 32-bit word (two's complement).
\<close>

datatype packetType =
    LOGIN | LOGOUT | MESSAGE | ROOM_JOIN | ROOM_LEAVE | DEFAULT_TYPE | HEARTBEAT | REGISTER
  | GOSSIP_HELLO | GOSSIP_EVENT | GOSSIP_DIGEST | GOSSIP_PULL | UPDATE_USER | ROOM_CREATE
  | ROOM_LIST | LOAD_MESSAGE_HISTORY | ROOM_INVITE | ROOM_DELETE | ROOM_KICK | SERVER_DIRECTORY
  | RECONNECT | TYPE_OUT_OF_RANGE nat

record packet =
  p_type :: packetType
  p_sender :: string
  p_receiver :: string
  p_room :: string
  p_message :: string
  p_timestamp :: u64
  p_code :: u32

datatype RESPONSE_CODES = SUCCESS | ERROR | FORBIDDEN | NOT_FOUND | INTERNAL_SERVER_ERROR

fun responseCode :: "RESPONSE_CODES \<Rightarrow> u32" where
  "responseCode SUCCESS = 200"
| "responseCode ERROR = 400"
| "responseCode FORBIDDEN = 403"
| "responseCode NOT_FOUND = 404"
| "responseCode INTERNAL_SERVER_ERROR = 500"

text \<open>The static table \<open>packet_type_to_string\<close>.\<close>

definition packet_type_to_string :: "(packetType \<times> string) list" where
  "packet_type_to_string =
    [(LOGIN, ''LOGIN''), (LOGOUT, ''LOGOUT''), (MESSAGE, ''MESSAGE''),
     (ROOM_JOIN, ''ROOM_JOIN''), (ROOM_LEAVE, ''ROOM_LEAVE''), (DEFAULT_TYPE, ''DEFAULT''),
     (HEARTBEAT, ''HEARTBEAT''), (REGISTER, ''REGISTER''), (GOSSIP_HELLO, ''GOSSIP_HELLO''),
     (GOSSIP_EVENT, ''GOSSIP_EVENT''), (GOSSIP_DIGEST, ''GOSSIP_DIGEST''),
     (GOSSIP_PULL, ''GOSSIP_PULL''), (UPDATE_USER, ''UPDATE_USER''),
     (ROOM_CREATE, ''ROOM_CREATE''), (ROOM_LIST, ''ROOM_LIST''),
     (LOAD_MESSAGE_HISTORY, ''LOAD_MESSAGE_HISTORY''), (ROOM_INVITE, ''ROOM_INVITE''),
     (ROOM_DELETE, ''ROOM_DELETE''), (ROOM_KICK, ''ROOM_KICK''),
     (SERVER_DIRECTORY, ''SERVER_DIRECTORY''), (RECONNECT, ''RECONNECT'')]"

definition packetTypeToString :: "packetType \<Rightarrow> string" where
  "packetTypeToString t =
     (case map_of packet_type_to_string t of Some s \<Rightarrow> s | None \<Rightarrow> ''DEFAULT'')"

definition stringToPacketType :: "string \<Rightarrow> packetType" where
  "stringToPacketType s =
     (case find (\<lambda>(key, value). value = s) packet_type_to_string of
        Some (key, _) \<Rightarrow> key | None \<Rightarrow> DEFAULT_TYPE)"

definition isValidPacketType :: "packetType \<Rightarrow> bool" where
  "isValidPacketType t \<longleftrightarrow> map_of packet_type_to_string t \<noteq> None"

text \<open>The enumerators in declaration order, and the casts between the enumeration and its
  underlying integer.\<close>

definition packetTypes :: "packetType list" where
  "packetTypes =
    [LOGIN, LOGOUT, MESSAGE, ROOM_JOIN, ROOM_LEAVE, DEFAULT_TYPE, HEARTBEAT, REGISTER,
     GOSSIP_HELLO, GOSSIP_EVENT, GOSSIP_DIGEST, GOSSIP_PULL, UPDATE_USER, ROOM_CREATE,
     ROOM_LIST, LOAD_MESSAGE_HISTORY, ROOM_INVITE, ROOM_DELETE, ROOM_KICK, SERVER_DIRECTORY,
     RECONNECT]"

fun packetTypeCode :: "packetType \<Rightarrow> nat" where
  "packetTypeCode LOGIN = 0" | "packetTypeCode LOGOUT = 1" | "packetTypeCode MESSAGE = 2"
| "packetTypeCode ROOM_JOIN = 3" | "packetTypeCode ROOM_LEAVE = 4"
| "packetTypeCode DEFAULT_TYPE = 5" | "packetTypeCode HEARTBEAT = 6"
| "packetTypeCode REGISTER = 7" | "packetTypeCode GOSSIP_HELLO = 8"
| "packetTypeCode GOSSIP_EVENT = 9" | "packetTypeCode GOSSIP_DIGEST = 10"
| "packetTypeCode GOSSIP_PULL = 11" | "packetTypeCode UPDATE_USER = 12"
| "packetTypeCode ROOM_CREATE = 13" | "packetTypeCode ROOM_LIST = 14"
| "packetTypeCode LOAD_MESSAGE_HISTORY = 15" | "packetTypeCode ROOM_INVITE = 16"
| "packetTypeCode ROOM_DELETE = 17" | "packetTypeCode ROOM_KICK = 18"
| "packetTypeCode SERVER_DIRECTORY = 19" | "packetTypeCode RECONNECT = 20"
| "packetTypeCode (TYPE_OUT_OF_RANGE n) = n"

definition packetTypeOfCode :: "nat \<Rightarrow> packetType" where
  "packetTypeOfCode n = (if n < length packetTypes then packetTypes ! n else TYPE_OUT_OF_RANGE n)"

text \<open>The constructors \<open>Packet()\<close> and \<open>Packet(sender, receiver, type, room, message, code)\<close>; the second
  stamps the wall-clock time, an argument here.\<close>

definition emptyPacket :: packet where
  "emptyPacket = \<lparr>p_type = DEFAULT_TYPE, p_sender = [], p_receiver = [], p_room = [],
     p_message = [], p_timestamp = 0, p_code = 0\<rparr>"

definition mkPacket ::
  "u64 \<Rightarrow> string \<Rightarrow> string \<Rightarrow> packetType \<Rightarrow> string \<Rightarrow> string \<Rightarrow> u32 \<Rightarrow> packet" where
  "mkPacket now sender receiver type room message code =
     \<lparr>p_type = type, p_sender = sender, p_receiver = receiver, p_room = room,
      p_message = message, p_timestamp = now, p_code = code\<rparr>"

section \<open>Names and codes of packet types\<close>

lemma isValidPacketType_iff: "isValidPacketType t \<longleftrightarrow> (\<forall>n. t \<noteq> TYPE_OUT_OF_RANGE n)"
  by (cases t) (simp_all add: isValidPacketType_def packet_type_to_string_def)

lemma packetTypeCode_bound: "isValidPacketType t \<Longrightarrow> packetTypeCode t < 21"
  by (cases t) (simp_all add: isValidPacketType_iff)

lemma packetTypeOfCode_Code: "isValidPacketType t \<Longrightarrow> packetTypeOfCode (packetTypeCode t) = t"
  by (cases t) (simp_all add: isValidPacketType_iff packetTypeOfCode_def packetTypes_def)

lemma packetTypeOfCode_valid: "isValidPacketType (packetTypeOfCode n) \<longleftrightarrow> n < 21"
proof
  assume "isValidPacketType (packetTypeOfCode n)"
  then show "n < 21"
    by (rule contrapos_pp) (simp add: packetTypeOfCode_def packetTypes_def isValidPacketType_iff)
next
  assume "n < 21"
  then have "n \<in> set [0..<21]" by simp
  then show "isValidPacketType (packetTypeOfCode n)"
    by (simp add: upt_rec packetTypeOfCode_def packetTypes_def isValidPacketType_iff)
      (elim disjE; simp)
qed

lemma packetTypeCode_OfCode: "n < 21 \<Longrightarrow> packetTypeCode (packetTypeOfCode n) = n"
proof -
  assume "n < 21"
  then have "n \<in> set [0..<21]" by simp
  then show ?thesis
    by (simp add: upt_rec packetTypeOfCode_def packetTypes_def) (elim disjE; simp)
qed

text \<open>Every packet type that is an enumerator is recovered from its printed name, and the name
  of any other value is the name of \<open>DEFAULT\<close>.\<close>

lemma packet_type_name_roundtrip:
  "stringToPacketType (packetTypeToString t) = (if isValidPacketType t then t else DEFAULT_TYPE)"
  by (cases t) (simp_all add: stringToPacketType_def packetTypeToString_def
      packet_type_to_string_def isValidPacketType_def)

end
