(* ===== verification/Codec.thy ===== *)
theory Codec
  imports Prelude
begin

unbundle bit_operations_syntax

text \<open>
  The interface every binary format of the program offers its users, as a locale: \<open>put\<close> prints a
  value, \<open>get\<close> reads one value off the front of a byte sequence and returns the rest, and \<open>ok\<close> are
  the values \<open>put\<close> can print. The two laws say that \<open>get\<close> undoes \<open>put\<close> in front of anything, and
  that whatever \<open>get\<close> accepts is exactly what \<open>put\<close> prints. From them follow, once for every format,
  injectivity, prefix-freeness and the reading of a whole stream of values.

  The second half proves the two laws for the big-endian integers and the length-prefixed
  strings that both the packet serializer and the gossip payload are built from.
\<close>

primrec get_many :: "(string \<Rightarrow> ('a \<times> string) option) \<Rightarrow> nat \<Rightarrow> string \<Rightarrow> ('a list \<times> string) option" where
  "get_many get 0 s = Some ([], s)"
| "get_many get (Suc n) s =
     (case get s of None \<Rightarrow> None
      | Some (a, r) \<Rightarrow> (case get_many get n r of None \<Rightarrow> None
                       | Some (as, r') \<Rightarrow> Some (a # as, r')))"

locale codec =
  fixes put :: "'a \<Rightarrow> string" and get :: "string \<Rightarrow> ('a \<times> string) option" and ok :: "'a \<Rightarrow> bool"
  assumes get_put: "ok a \<Longrightarrow> get (put a @ r) = Some (a, r)"
    and get_sound: "get s = Some (a, r) \<Longrightarrow> ok a \<and> s = put a @ r"
begin

lemma put_inject: "ok a \<Longrightarrow> ok b \<Longrightarrow> put a = put b \<Longrightarrow> a = b"
  by (metis get_put option.inject prod.inject)

lemma put_prefix_free: "ok a \<Longrightarrow> ok b \<Longrightarrow> put a @ r = put b @ r' \<Longrightarrow> a = b \<and> r = r'"
  by (metis get_put option.inject prod.inject)

lemma get_iff: "get s = Some (a, r) \<longleftrightarrow> ok a \<and> s = put a @ r"
  by (auto simp: get_put dest: get_sound)

lemma get_many_put:
  "\<forall>a\<in>set as. ok a \<Longrightarrow> get_many get (length as) (concat (map put as) @ r) = Some (as, r)"
  by (induction as) (auto simp: get_put)

lemma get_many_sound:
  "get_many get n s = Some (as, r) \<Longrightarrow>
   length as = n \<and> (\<forall>a\<in>set as. ok a) \<and> s = concat (map put as) @ r"
  by (induction n arbitrary: s as) (auto split: option.splits prod.splits dest!: get_sound)

end

section \<open>Bytes of 32-bit words\<close>

definition u32_byte :: "u32 \<Rightarrow> nat \<Rightarrow> char" where
  "u32_byte v k = char_of (unat (drop_bit k v AND 0xFF))"

definition u32_of_bytes :: "char \<Rightarrow> char \<Rightarrow> char \<Rightarrow> char \<Rightarrow> u32" where
  "u32_of_bytes a b c d =
     push_bit 24 (of_char a) OR push_bit 16 (of_char b) OR push_bit 8 (of_char c) OR of_char d"

lemma u8_eq_mask: "(255 :: 'a::len word) = mask 8"
  by (simp add: mask_eq_exp_minus_1)

lemma of_char_u32_byte: "(of_char (u32_byte v k) :: u32) = drop_bit k v AND 0xFF"
proof -
  have "unat (drop_bit k v AND 0xFF) < 256"
    using word_and_le1 [of "drop_bit k v" "0xFF"] by (simp add: word_le_nat_alt)
  then show ?thesis by (simp add: u32_byte_def of_char_char_of_nat)
qed

lemmas bit_split = bit_or_iff bit_and_iff bit_push_bit_iff bit_drop_bit_eq bit_mask_iff

lemma u32_of_bytes_byte [simp]:
  "u32_of_bytes (u32_byte v 24) (u32_byte v 16) (u32_byte v 8) (u32_byte v 0) = v"
proof (rule bit_word_eqI)
  fix n assume "n < LENGTH(32)"
  then consider "n < 8" | "8 \<le> n \<and> n < 16" | "16 \<le> n \<and> n < 24" | "24 \<le> n \<and> n < 32"
    by simp linarith
  then show "bit (u32_of_bytes (u32_byte v 24) (u32_byte v 16) (u32_byte v 8) (u32_byte v 0)) n = bit v n"
    by cases (simp_all add: u32_of_bytes_def of_char_u32_byte u8_eq_mask bit_split, auto)
qed

lemma unat_of_char_word:
  assumes "8 \<le> LENGTH('a::len)"
  shows "unat (of_char c :: 'a word) = of_char c"
proof -
  have "(256 :: nat) \<le> 2 ^ LENGTH('a)" using power_increasing [OF assms, of "2 :: nat"] by simp
  then have "(of_char c :: nat) < 2 ^ LENGTH('a)"
    by (rule less_le_trans [OF nat_of_char_less_256])
  then have "unat (of_nat (of_char c) :: 'a word) = (of_char c :: nat)"
    by (simp only: unat_of_nat mod_less)
  then show ?thesis by (simp only: of_nat_of_char)
qed

lemma bit_of_char_word:
  assumes "8 \<le> LENGTH('a::len)" and "8 \<le> n"
  shows "\<not> bit (of_char c :: 'a word) n"
proof -
  have "(of_char c :: nat) < 2 ^ n"
    by (rule less_le_trans [OF nat_of_char_less_256])
      (use power_increasing [OF assms(2), of "2 :: nat"] in simp)
  then have "\<not> bit (of_char c :: nat) n" by (simp add: bit_iff_odd)
  then have "\<not> bit (unat (of_char c :: 'a word)) n" by (simp only: unat_of_char_word [OF assms(1)] not_False_eq_True)
  then show ?thesis by (simp only: bit_unsigned_iff) (auto dest: bit_imp_le_length)
qed

lemma bit_of_char: "8 \<le> n \<Longrightarrow> \<not> bit (of_char c :: u32) n"
  by (rule bit_of_char_word) simp_all

lemma char_of_unat_word: "8 \<le> LENGTH('a::len) \<Longrightarrow> char_of (unat (of_char c :: 'a word)) = c"
  by (simp only: unat_of_char_word) simp

lemma char_of_unat_of_char: "char_of (unat (of_char c :: u32)) = c"
  by (rule char_of_unat_word) simp

lemma u32_byte_of_bytes:
  "u32_byte (u32_of_bytes a b c d) 24 = a" "u32_byte (u32_of_bytes a b c d) 16 = b"
  "u32_byte (u32_of_bytes a b c d) 8 = c" "u32_byte (u32_of_bytes a b c d) 0 = d"
proof -
  have bits: "bit (drop_bit k (u32_of_bytes a b c d) AND 0xFF) n = bit (of_char x :: u32) n"
    if "(k, x) \<in> {(24, a), (16, b), (8, c), (0, d)}" for k x n
  proof (cases "n < 8")
    case True
    with that show ?thesis
      by (auto simp: u32_of_bytes_def u8_eq_mask bit_split bit_of_char)
  next
    case False
    with that show ?thesis by (simp add: u8_eq_mask bit_split bit_of_char)
  qed
  have "drop_bit 24 (u32_of_bytes a b c d) AND 0xFF = of_char a"
    "drop_bit 16 (u32_of_bytes a b c d) AND 0xFF = of_char b"
    "drop_bit 8 (u32_of_bytes a b c d) AND 0xFF = of_char c"
    "drop_bit 0 (u32_of_bytes a b c d) AND 0xFF = of_char d"
    by (rule bit_word_eqI, rule bits, simp)+
  then show "u32_byte (u32_of_bytes a b c d) 24 = a" "u32_byte (u32_of_bytes a b c d) 16 = b"
    "u32_byte (u32_of_bytes a b c d) 8 = c" "u32_byte (u32_of_bytes a b c d) 0 = d"
    by (simp_all only: u32_byte_def char_of_unat_of_char)
qed

section \<open>Big-endian integers and length-prefixed strings\<close>

definition put_u32 :: "u32 \<Rightarrow> string" where
  "put_u32 v = [u32_byte v 24, u32_byte v 16, u32_byte v 8, u32_byte v 0]"

fun get_u32 :: "string \<Rightarrow> (u32 \<times> string) option" where
  "get_u32 (a # b # c # d # r) = Some (u32_of_bytes a b c d, r)"
| "get_u32 _ = None"

definition put_str :: "string \<Rightarrow> string" where
  "put_str s = put_u32 (of_nat (length s)) @ s"

definition get_str :: "string \<Rightarrow> (string \<times> string) option" where
  "get_str s =
     (case get_u32 s of None \<Rightarrow> None
      | Some (n, r) \<Rightarrow> if unat n \<le> length r then Some (take (unat n) r, drop (unat n) r) else None)"

abbreviation short :: "string \<Rightarrow> bool" where "short s \<equiv> length s < 2 ^ 32"

lemma length_put_u32 [simp]: "length (put_u32 v) = 4"
  by (simp add: put_u32_def)

lemma length_put_str [simp]: "length (put_str s) = 4 + length s"
  by (simp add: put_str_def)

lemma get_u32_None: "get_u32 s = None \<longleftrightarrow> length s < 4"
  by (cases s rule: get_u32.cases) auto

interpretation u32c: codec put_u32 get_u32 "\<lambda>_. True"
proof
  show "get_u32 (put_u32 a @ r) = Some (a, r)" for a r
    by (simp add: put_u32_def)
next
  show "True \<and> s = put_u32 a @ r" if "get_u32 s = Some (a, r)" for s a r
    using that by (cases s rule: get_u32.cases) (auto simp: put_u32_def u32_byte_of_bytes)
qed

lemma unat_of_nat_short: "short s \<Longrightarrow> unat (of_nat (length s) :: u32) = length s"
  by (simp add: unat_of_nat)

interpretation strc: codec put_str get_str short
proof
  show "get_str (put_str a @ r) = Some (a, r)" if "short a" for a r
    using that u32c.get_put [of "of_nat (length a)" "a @ r"]
    by (simp add: put_str_def get_str_def unat_of_nat)
next
  fix s a r assume "get_str s = Some (a, r)"
  then obtain n t where n: "get_u32 s = Some (n, t)" "unat n \<le> length t"
    and a: "a = take (unat n) t" "r = drop (unat n) t"
    by (auto simp: get_str_def split: option.splits prod.splits if_splits)
  have "length a = unat n" using a n by simp
  moreover have "unat n < 2 ^ 32" using unsigned_less [of n] by simp
  ultimately show "short a \<and> s = put_str a @ r"
    using u32c.get_sound [OF n(1)] a by (simp add: put_str_def)
qed

end
