(* ===== verification/Serializer.thy ===== *)
theory Serializer
  imports Packets Codec
begin

unbundle bit_operations_syntax

text \<open>
  The packet serializer (src/utils/serializer.cpp). A frame is a 32-bit big-endian payload size
  followed by the payload: type byte, 64-bit timestamp, 32-bit response code and four
  length-prefixed strings. Every helper of the anonymous namespace is one definition; the readers
  take the buffer and the offset and return the new offset with the value, \<open>None\<close> being the C++
  \<open>false\<close>. The lemmas relate the offset-based readers to the list readers of \<open>Codec\<close>, and the
  interpretation \<open>frames\<close> makes the frame format an instance of the codec interface.
\<close>

definition MAX_PAYLOAD_BYTES :: nat where
  "MAX_PAYLOAD_BYTES = 1024 * 1024"

definition appendU8 :: "string \<Rightarrow> u8 \<Rightarrow> string" where
  "appendU8 out v = out @ [char_of (unat v)]"

definition appendU32BE :: "string \<Rightarrow> u32 \<Rightarrow> string" where
  "appendU32BE out v =
     out @ [char_of (unat (drop_bit 24 v AND 0xFF)), char_of (unat (drop_bit 16 v AND 0xFF)),
            char_of (unat (drop_bit 8 v AND 0xFF)), char_of (unat (v AND 0xFF))]"

definition appendU64BE :: "string \<Rightarrow> u64 \<Rightarrow> string" where
  "appendU64BE out v =
     appendU32BE (appendU32BE out (ucast (drop_bit 32 v))) (ucast (v AND 0xFFFFFFFF))"

definition appendLenPrefixed :: "string \<Rightarrow> string \<Rightarrow> string" where
  "appendLenPrefixed out v = appendU32BE out (of_nat (length v)) @ v"

definition remainingAtLeast :: "string \<Rightarrow> nat \<Rightarrow> nat \<Rightarrow> bool" where
  "remainingAtLeast inp offset needed \<longleftrightarrow> offset \<le> length inp \<and> length inp - offset \<ge> needed"

definition readU8 :: "string \<Rightarrow> nat \<Rightarrow> (nat \<times> u8) option" where
  "readU8 inp offset =
     (if \<not> remainingAtLeast inp offset 1 then None
      else Some (offset + 1, of_char (inp ! offset)))"

definition readU32BE :: "string \<Rightarrow> nat \<Rightarrow> (nat \<times> u32) option" where
  "readU32BE inp offset =
     (if \<not> remainingAtLeast inp offset 4 then None
      else Some (offset + 4,
        push_bit 24 (of_char (inp ! offset)) OR push_bit 16 (of_char (inp ! (offset + 1))) OR
        push_bit 8 (of_char (inp ! (offset + 2))) OR of_char (inp ! (offset + 3))))"

definition readU64BE :: "string \<Rightarrow> nat \<Rightarrow> (nat \<times> u64) option" where
  "readU64BE inp offset =
     (case readU32BE inp offset of
        None \<Rightarrow> None
      | Some (o1, high) \<Rightarrow>
          (case readU32BE inp o1 of
             None \<Rightarrow> None
           | Some (o2, low) \<Rightarrow> Some (o2, push_bit 32 (ucast high) OR ucast low)))"

definition readLenPrefixed :: "string \<Rightarrow> nat \<Rightarrow> (nat \<times> string) option" where
  "readLenPrefixed inp offset =
     (case readU32BE inp offset of
        None \<Rightarrow> None
      | Some (o1, len) \<Rightarrow>
          if \<not> remainingAtLeast inp o1 (unat len) then None
          else Some (o1 + unat len, substr inp o1 (unat len)))"

definition serializePayload :: "packet \<Rightarrow> string" where
  "serializePayload p =
     (let payload = appendU8 [] (of_nat (packetTypeCode (p_type p)));
          payload = appendU64BE payload (p_timestamp p);
          payload = appendU32BE payload (p_code p);
          payload = appendLenPrefixed payload (p_sender p);
          payload = appendLenPrefixed payload (p_receiver p);
          payload = appendLenPrefixed payload (p_room p)
      in appendLenPrefixed payload (p_message p))"

definition serialize :: "packet \<Rightarrow> string" where
  "serialize p =
     (if \<not> isValidPacketType (p_type p) then []
      else let payload = serializePayload p
           in if length payload > MAX_PAYLOAD_BYTES then []
              else appendU32BE [] (of_nat (length payload)) @ payload)"

definition deserialize :: "string \<Rightarrow> packet option" where
  "deserialize b =
     (if length b < 4 then None
      else case readU32BE b 0 of
        None \<Rightarrow> None
      | Some (o0, payloadSize) \<Rightarrow>
        if payloadSize = 0 \<or> unat payloadSize > MAX_PAYLOAD_BYTES then None
        else if length b \<noteq> 4 + unat payloadSize then None
        else case readU8 b o0 of
          None \<Rightarrow> None
        | Some (o1, typeByte) \<Rightarrow>
          let type = packetTypeOfCode (unat typeByte) in
          if \<not> isValidPacketType type then None
          else case readU64BE b o1 of
            None \<Rightarrow> None
          | Some (o2, ts) \<Rightarrow>
          (case readU32BE b o2 of
            None \<Rightarrow> None
          | Some (o3, code) \<Rightarrow>
          (case readLenPrefixed b o3 of
            None \<Rightarrow> None
          | Some (o4, sender) \<Rightarrow>
          (case readLenPrefixed b o4 of
            None \<Rightarrow> None
          | Some (o5, receiver) \<Rightarrow>
          (case readLenPrefixed b o5 of
            None \<Rightarrow> None
          | Some (o6, room) \<Rightarrow>
          (case readLenPrefixed b o6 of
            None \<Rightarrow> None
          | Some (o7, message) \<Rightarrow>
            if o7 \<noteq> length b then None
            else Some \<lparr>p_type = type, p_sender = sender, p_receiver = receiver, p_room = room,
                       p_message = message, p_timestamp = ts, p_code = code\<rparr>))))))"

section \<open>The helpers as codecs\<close>

definition put_u8 :: "u8 \<Rightarrow> string" where "put_u8 v = [char_of (unat v)]"

fun get_u8 :: "string \<Rightarrow> (u8 \<times> string) option" where
  "get_u8 [] = None"
| "get_u8 (c # r) = Some (of_char c, r)"

definition put_u64 :: "u64 \<Rightarrow> string" where
  "put_u64 v = put_u32 (ucast (drop_bit 32 v)) @ put_u32 (ucast v)"

definition get_u64 :: "string \<Rightarrow> (u64 \<times> string) option" where
  "get_u64 s =
     (case get_u32 s of None \<Rightarrow> None
      | Some (h, r) \<Rightarrow> (case get_u32 r of None \<Rightarrow> None
                       | Some (l, r') \<Rightarrow> Some (push_bit 32 (ucast h) OR ucast l, r')))"

lemma u64_of_halves: "push_bit 32 (ucast (ucast (drop_bit 32 v) :: u32)) OR ucast (ucast v :: u32) = (v :: u64)"
proof (rule bit_word_eqI)
  fix n assume "n < LENGTH(64)"
  then consider "n < 32" | "32 \<le> n \<and> n < 64" by simp linarith
  then show "bit (push_bit 32 (ucast (ucast (drop_bit 32 v) :: u32)) OR ucast (ucast v :: u32) :: u64) n = bit v n"
    by cases (simp_all add: bit_split bit_unsigned_iff, auto)
qed

lemma halves_of_u64:
  fixes h l :: u32
  shows "ucast (drop_bit 32 (push_bit 32 (ucast h) OR ucast l :: u64)) = h"
    and "ucast (push_bit 32 (ucast h) OR ucast l :: u64) = l"
proof -
  show "ucast (drop_bit 32 (push_bit 32 (ucast h) OR ucast l :: u64)) = h"
    by (rule bit_word_eqI) (auto simp add: bit_split bit_unsigned_iff dest: bit_imp_le_length)
  show "ucast (push_bit 32 (ucast h) OR ucast l :: u64) = l"
    by (rule bit_word_eqI) (auto simp add: bit_split bit_unsigned_iff)
qed

interpretation u8c: codec put_u8 get_u8 "\<lambda>_. True"
proof
  show "get_u8 (put_u8 a @ r) = Some (a, r)" for a r
  proof -
    have "unat a < 256" using unsigned_less [of a] by simp
    then show ?thesis by (simp add: put_u8_def of_char_char_of_nat)
  qed
next
  show "True \<and> s = put_u8 a @ r" if "get_u8 s = Some (a, r)" for s a r
  proof -
    from that obtain c where c: "s = c # r" "a = of_char c" by (cases s) auto
    have "unat (of_nat (of_char c) :: u8) = (of_char c :: nat)"
      by (simp only: unat_of_nat) (use nat_of_char_less_256 [of c] in \<open>simp del: nat_of_char_less_256\<close>)
    then have "unat (of_char c :: u8) = of_char c" by (simp only: of_nat_of_char)
    then show ?thesis using c by (simp add: put_u8_def)
  qed
qed

interpretation u64c: codec put_u64 get_u64 "\<lambda>_. True"
proof
  show "get_u64 (put_u64 a @ r) = Some (a, r)" for a r
    by (simp add: get_u64_def put_u64_def u32c.get_put u64_of_halves)
next
  show "True \<and> s = put_u64 a @ r" if "get_u64 s = Some (a, r)" for s a r
    using that by (auto simp: get_u64_def put_u64_def halves_of_u64 simp del: drop_bit_or
        split: option.splits prod.splits dest!: u32c.get_sound)
qed

lemma appendU8_put: "appendU8 out v = out @ put_u8 v"
  by (simp add: appendU8_def put_u8_def)

lemma appendU32BE_put: "appendU32BE out v = out @ put_u32 v"
  by (simp add: appendU32BE_def put_u32_def u32_byte_def)

lemma ucast_low: "(ucast (v AND 0xFFFFFFFF :: u64) :: u32) = ucast v"
proof -
  have m: "(0xFFFFFFFF :: u64) = mask 32" by (simp add: mask_eq_exp_minus_1)
  show ?thesis unfolding m by (auto intro!: bit_word_eqI simp: bit_split bit_unsigned_iff)
qed

lemma appendU64BE_put: "appendU64BE out v = out @ put_u64 v"
  by (simp add: appendU64BE_def put_u64_def appendU32BE_put ucast_low)

lemma appendLenPrefixed_put: "appendLenPrefixed out v = out @ put_str v"
  by (simp add: appendLenPrefixed_def put_str_def appendU32BE_put)

lemmas append_puts = appendU8_put appendU32BE_put appendU64BE_put appendLenPrefixed_put

text \<open>An offset reader agrees with a list reader when it reads what is left of the buffer.\<close>

definition reads_at :: "(string \<Rightarrow> nat \<Rightarrow> (nat \<times> 'a) option) \<Rightarrow> (string \<Rightarrow> ('a \<times> string) option) \<Rightarrow> bool" where
  "reads_at rd get \<longleftrightarrow>
     (\<forall>s off. off \<le> length s \<longrightarrow>
        (case get (drop off s) of
           None \<Rightarrow> rd s off = None
         | Some (a, r) \<Rightarrow> \<exists>off'. rd s off = Some (off', a) \<and> off' \<le> length s \<and> r = drop off' s))"

lemma reads_atD:
  "reads_at rd get \<Longrightarrow> off \<le> length s \<Longrightarrow>
     (case get (drop off s) of
        None \<Rightarrow> rd s off = None
      | Some (a, r) \<Rightarrow> \<exists>off'. rd s off = Some (off', a) \<and> off' \<le> length s \<and> r = drop off' s)"
  by (simp add: reads_at_def)

lemma reads_at_Some:
  "reads_at rd get \<Longrightarrow> off \<le> length s \<Longrightarrow> get (drop off s) = Some (a, r) \<Longrightarrow>
   \<exists>off'. rd s off = Some (off', a) \<and> off' \<le> length s \<and> r = drop off' s"
  by (drule (1) reads_atD) simp

lemma reads_at_None:
  "reads_at rd get \<Longrightarrow> off \<le> length s \<Longrightarrow> get (drop off s) = None \<Longrightarrow> rd s off = None"
  by (drule (1) reads_atD) simp

lemma reads_at_u8: "reads_at readU8 get_u8"
proof -
  have "case get_u8 (drop off s) of None \<Rightarrow> readU8 s off = None
      | Some (a, r) \<Rightarrow> \<exists>off'. readU8 s off = Some (off', a) \<and> off' \<le> length s \<and> r = drop off' s"
    if "off \<le> length s" for s off
  proof (cases "off < length s")
    case True
    then have "drop off s = s ! off # drop (Suc off) s" by (simp add: Cons_nth_drop_Suc)
    with True show ?thesis by (auto simp: readU8_def remainingAtLeast_def)
  next
    case False
    then show ?thesis by (simp add: readU8_def remainingAtLeast_def)
  qed
  then show ?thesis by (simp add: reads_at_def)
qed

lemma drop_four:
  assumes "off + 4 \<le> length s"
  shows "drop off s = s ! off # s ! (off + 1) # s ! (off + 2) # s ! (off + 3) # drop (off + 4) s"
proof -
  have "drop k s = s ! k # drop (Suc k) s" if "k < length s" for k
    using that by (simp add: Cons_nth_drop_Suc)
  from this [of off] this [of "off + 1"] this [of "off + 2"] this [of "off + 3"] assms
  show ?thesis by (simp add: eval_nat_numeral)
qed

lemma reads_at_u32: "reads_at readU32BE get_u32"
proof -
  have "case get_u32 (drop off s) of None \<Rightarrow> readU32BE s off = None
      | Some (a, r) \<Rightarrow> \<exists>off'. readU32BE s off = Some (off', a) \<and> off' \<le> length s \<and> r = drop off' s"
    if "off \<le> length s" for s off
  proof (cases "off + 4 \<le> length s")
    case True
    then show ?thesis
      by (auto simp: readU32BE_def remainingAtLeast_def drop_four u32_of_bytes_def)
  next
    case False
    then have "get_u32 (drop off s) = None" by (simp add: get_u32_None)
    with False show ?thesis by (auto simp: readU32BE_def remainingAtLeast_def)
  qed
  then show ?thesis by (simp add: reads_at_def)
qed

text \<open>Two readers in sequence.\<close>

lemma reads_at_seq:
  assumes f: "reads_at rd1 get1" and g: "\<And>a. reads_at (rd2 a) (get2 a)"
  shows "reads_at
    (\<lambda>s off. case rd1 s off of None \<Rightarrow> None | Some (o1, a) \<Rightarrow> rd2 a s o1)
    (\<lambda>s. case get1 s of None \<Rightarrow> None | Some (a, r) \<Rightarrow> get2 a r)"
  unfolding reads_at_def
proof (intro allI impI)
  fix s :: string and off assume off: "off \<le> length s"
  show "case (case get1 (drop off s) of None \<Rightarrow> None | Some (a, r) \<Rightarrow> get2 a r) of
      None \<Rightarrow> (case rd1 s off of None \<Rightarrow> None | Some (o1, a) \<Rightarrow> rd2 a s o1) = None
    | Some (b, r) \<Rightarrow> \<exists>off'. (case rd1 s off of None \<Rightarrow> None | Some (o1, a) \<Rightarrow> rd2 a s o1) = Some (off', b)
        \<and> off' \<le> length s \<and> r = drop off' s"
  proof (cases "get1 (drop off s)")
    case None
    then show ?thesis using reads_at_None [OF f off] by simp
  next
    case (Some ar)
    obtain a r where ar: "ar = (a, r)" by (cases ar)
    then obtain o1 where o1: "rd1 s off = Some (o1, a)" "o1 \<le> length s" "r = drop o1 s"
      using reads_at_Some [OF f off] Some by blast
    then show ?thesis
      using Some ar reads_atD [OF g o1(2), of a] by (auto split: option.splits)
  qed
qed

lemma reads_at_u64: "reads_at readU64BE get_u64"
proof -
  have ret: "reads_at (\<lambda>s off. Some (off, c)) (\<lambda>s. Some (c, s))" for c :: u64
    by (simp add: reads_at_def)
  have snd: "reads_at
      (\<lambda>s off. case readU32BE s off of None \<Rightarrow> None
         | Some (o2, l) \<Rightarrow> Some (o2, push_bit 32 (ucast h) OR ucast l :: u64))
      (\<lambda>s. case get_u32 s of None \<Rightarrow> None
         | Some (l, r) \<Rightarrow> Some (push_bit 32 (ucast h) OR ucast l, r))" for h :: u32
    using reads_at_seq [OF reads_at_u32 ret, of "\<lambda>l. push_bit 32 (ucast h) OR ucast l"]
    by (simp add: case_prod_unfold)
  show ?thesis
    using reads_at_seq [OF reads_at_u32 snd]
    unfolding readU64BE_def get_u64_def by (simp add: reads_at_def)
qed

lemma reads_at_str: "reads_at readLenPrefixed get_str"
proof -
  have body: "reads_at
      (\<lambda>s off. if \<not> remainingAtLeast s off (unat n) then None
         else Some (off + unat n, substr s off (unat n)))
      (\<lambda>s. if unat n \<le> length s then Some (take (unat n) s, drop (unat n) s) else None)" for n :: u32
    by (auto simp: reads_at_def remainingAtLeast_def substr_def add.commute)
  show ?thesis
    using reads_at_seq [OF reads_at_u32 body]
    unfolding readLenPrefixed_def get_str_def by (simp add: reads_at_def)
qed

section \<open>Offset readers of a codec\<close>

text \<open>What a client of the offset-based readers relies on: a codec together with a reader that
  agrees with it.\<close>

locale offset_reader = codec put get ok
  for put :: "'a \<Rightarrow> string" and get :: "string \<Rightarrow> ('a \<times> string) option" and ok :: "'a \<Rightarrow> bool" +
  fixes rd :: "string \<Rightarrow> nat \<Rightarrow> (nat \<times> 'a) option"
  assumes reads: "reads_at rd get"
begin

lemma rd_put:
  assumes "off \<le> length s" and "drop off s = put a @ r" and "ok a"
  obtains off' where "rd s off = Some (off', a)" and "off' \<le> length s" and "drop off' s = r"
  using reads_at_Some [OF reads assms(1)] assms by (auto simp: get_put)

lemma rd_sound:
  assumes "rd s off = Some (off', a)" and "off \<le> length s"
  shows "ok a" and "off' \<le> length s" and "drop off s = put a @ drop off' s"
proof -
  from reads_atD [OF reads assms(2)] assms(1)
  have "get (drop off s) = Some (a, drop off' s) \<and> off' \<le> length s"
    by (auto split: option.splits)
  then show "ok a" "off' \<le> length s" "drop off s = put a @ drop off' s"
    using get_sound by blast+
qed

end

interpretation u8r: offset_reader put_u8 get_u8 "\<lambda>_. True" readU8
  by unfold_locales (rule reads_at_u8)

interpretation u32r: offset_reader put_u32 get_u32 "\<lambda>_. True" readU32BE
  by unfold_locales (rule reads_at_u32)

interpretation u64r: offset_reader put_u64 get_u64 "\<lambda>_. True" readU64BE
  by unfold_locales (rule reads_at_u64)

interpretation strr: offset_reader put_str get_str short readLenPrefixed
  by unfold_locales (rule reads_at_str)

section \<open>Frames\<close>

lemma length_put_u8 [simp]: "length (put_u8 v) = 1"
  by (simp add: put_u8_def)

lemma length_put_u64 [simp]: "length (put_u64 v) = 8"
  by (simp add: put_u64_def)

lemma serializePayload_put:
  "serializePayload p =
     put_u8 (of_nat (packetTypeCode (p_type p))) @ put_u64 (p_timestamp p) @ put_u32 (p_code p) @
     put_str (p_sender p) @ put_str (p_receiver p) @ put_str (p_room p) @ put_str (p_message p)"
  by (simp add: serializePayload_def append_puts)

lemma length_serializePayload:
  "length (serializePayload p) =
     29 + length (p_sender p) + length (p_receiver p) + length (p_room p) + length (p_message p)"
  by (simp add: serializePayload_put)

text \<open>The packets the serializer accepts.\<close>

definition sendable :: "packet \<Rightarrow> bool" where
  "sendable p \<longleftrightarrow> isValidPacketType (p_type p) \<and> length (serializePayload p) \<le> MAX_PAYLOAD_BYTES"

lemma serialize_sendable:
  "sendable p \<Longrightarrow> serialize p = put_u32 (of_nat (length (serializePayload p))) @ serializePayload p"
  by (simp add: serialize_def sendable_def append_puts Let_def)

lemma serialize_Nil_iff: "serialize p = [] \<longleftrightarrow> \<not> sendable p"
  by (auto simp: serialize_def sendable_def append_puts put_u32_def Let_def)

lemma unat_type_byte:
  "isValidPacketType t \<Longrightarrow> unat (of_nat (packetTypeCode t) :: u8) = packetTypeCode t"
  using packetTypeCode_bound [of t] by (simp add: unat_of_nat)

lemma deserialize_put:
  assumes ok: "sendable p"
  shows "deserialize (serialize p) = Some p"
proof -
  let ?pl = "serializePayload p" and ?b = "serialize p"
  have max: "length ?pl \<le> 1048576" and valid: "isValidPacketType (p_type p)"
    using ok by (simp_all add: sendable_def MAX_PAYLOAD_BYTES_def)
  have n: "unat (of_nat (length ?pl) :: u32) = length ?pl" using max by (simp add: unat_of_nat)
  have pos: "length ?pl > 0" by (simp add: length_serializePayload)
  have nz: "(of_nat (length ?pl) :: u32) \<noteq> 0" using n pos by auto
  have sh: "short (p_sender p)" "short (p_receiver p)" "short (p_room p)" "short (p_message p)"
    using max by (simp_all add: length_serializePayload)
  let ?t6 = "put_str (p_message p) @ []"
  let ?t5 = "put_str (p_room p) @ ?t6"
  let ?t4 = "put_str (p_receiver p) @ ?t5"
  let ?t3 = "put_str (p_sender p) @ ?t4"
  let ?t2 = "put_u32 (p_code p) @ ?t3"
  let ?t1 = "put_u64 (p_timestamp p) @ ?t2"
  let ?t0 = "put_u8 (of_nat (packetTypeCode (p_type p))) @ ?t1"
  have b: "drop 0 ?b = put_u32 (of_nat (length ?pl)) @ ?t0"
    by (simp add: serialize_sendable ok serializePayload_put)
  obtain o0 where r0: "readU32BE ?b 0 = Some (o0, of_nat (length ?pl))" "o0 \<le> length ?b" "drop o0 ?b = ?t0"
    by (rule u32r.rd_put [OF le0 b TrueI])
  obtain o1 where r1: "readU8 ?b o0 = Some (o1, of_nat (packetTypeCode (p_type p)))"
      "o1 \<le> length ?b" "drop o1 ?b = ?t1"
    by (rule u8r.rd_put [OF r0(2,3) TrueI])
  obtain o2 where r2: "readU64BE ?b o1 = Some (o2, p_timestamp p)" "o2 \<le> length ?b" "drop o2 ?b = ?t2"
    by (rule u64r.rd_put [OF r1(2,3) TrueI])
  obtain o3 where r3: "readU32BE ?b o2 = Some (o3, p_code p)" "o3 \<le> length ?b" "drop o3 ?b = ?t3"
    by (rule u32r.rd_put [OF r2(2,3) TrueI])
  obtain o4 where r4: "readLenPrefixed ?b o3 = Some (o4, p_sender p)" "o4 \<le> length ?b" "drop o4 ?b = ?t4"
    by (rule strr.rd_put [OF r3(2,3) sh(1)])
  obtain o5 where r5: "readLenPrefixed ?b o4 = Some (o5, p_receiver p)" "o5 \<le> length ?b" "drop o5 ?b = ?t5"
    by (rule strr.rd_put [OF r4(2,3) sh(2)])
  obtain o6 where r6: "readLenPrefixed ?b o5 = Some (o6, p_room p)" "o6 \<le> length ?b" "drop o6 ?b = ?t6"
    by (rule strr.rd_put [OF r5(2,3) sh(3)])
  obtain o7 where r7: "readLenPrefixed ?b o6 = Some (o7, p_message p)" "o7 \<le> length ?b" "drop o7 ?b = []"
    by (rule strr.rd_put [OF r6(2,3) sh(4)])
  have len: "length ?b = 4 + length ?pl" by (simp add: serialize_sendable ok)
  have "o7 = length ?b" using r7(2,3) by simp
  then show ?thesis
    using nz max valid len n r0(1) r1(1) r2(1) r3(1) r4(1) r5(1) r6(1) r7(1)
    by (simp add: deserialize_def MAX_PAYLOAD_BYTES_def unat_type_byte packetTypeOfCode_Code Let_def)
qed

lemma deserialize_sound:
  assumes "deserialize b = Some p"
  shows "sendable p \<and> serialize p = b"
proof -
  from assms obtain o0 n o1 t o2 ts o3 code o4 sender o5 receiver o6 room o7 message where
    n: "readU32BE b 0 = Some (o0, n)" "unat n \<le> MAX_PAYLOAD_BYTES" "length b = 4 + unat n" and
    t: "readU8 b o0 = Some (o1, t)" "isValidPacketType (packetTypeOfCode (unat t))" and
    rs: "readU64BE b o1 = Some (o2, ts)" "readU32BE b o2 = Some (o3, code)"
      "readLenPrefixed b o3 = Some (o4, sender)" "readLenPrefixed b o4 = Some (o5, receiver)"
      "readLenPrefixed b o5 = Some (o6, room)" "readLenPrefixed b o6 = Some (o7, message)" and
    p: "o7 = length b" "p = \<lparr>p_type = packetTypeOfCode (unat t), p_sender = sender,
      p_receiver = receiver, p_room = room, p_message = message, p_timestamp = ts, p_code = code\<rparr>"
    by (simp add: deserialize_def Let_def split: if_splits option.splits prod.splits)
  note s0 = u32r.rd_sound [OF n(1) le0]
  note s1 = u8r.rd_sound [OF t(1) s0(2)]
  note s2 = u64r.rd_sound [OF rs(1) s1(2)]
  note s3 = u32r.rd_sound [OF rs(2) s2(2)]
  note s4 = strr.rd_sound [OF rs(3) s3(2)]
  note s5 = strr.rd_sound [OF rs(4) s4(2)]
  note s6 = strr.rd_sound [OF rs(5) s5(2)]
  note s7 = strr.rd_sound [OF rs(6) s6(2)]
  have t21: "unat t < 21" using t(2) packetTypeOfCode_valid by simp
  have "(of_nat (packetTypeCode (p_type p)) :: u8) = t"
    using p t21 by (simp add: packetTypeCode_OfCode)
  then have b: "b = put_u32 n @ serializePayload p"
    using s0(3) s1(3) s2(3) s3(3) s4(3) s5(3) s6(3) s7(3) p
    by (simp add: serializePayload_put)
  then have len: "length (serializePayload p) = unat n" using n(3) by simp
  then have "sendable p" using n(2) t(2) p by (simp add: sendable_def)
  moreover from len have "of_nat (length (serializePayload p)) = n" by simp
  ultimately show ?thesis using b by (simp add: serialize_sendable)
qed

end
