(* ===== verification/Socket_IO.thy ===== *)
theory Socket_IO
  imports Serializer
begin

text \<open>
  Framed packets over a stream socket (src/utils/socket_io.cpp). The kernel's side of a socket is
  an argument: what arrives is a list of chunks, one per successful \<open>recv\<close> at most (an empty chunk
  or the end of the list is the orderly close or error that makes \<open>recv\<close> return \<open>n <= 0\<close>); what
  \<open>send\<close> accepts is a list of byte counts, one per call. \<open>recvExact\<close> and \<open>sendExact\<close> are the two
  retry loops, \<open>readPacket\<close> and \<open>writePacket\<close> the framed operations over them.

  The lemmas show that the loops do not depend on how the kernel fragments the stream, and the
  interpretation \<open>frames\<close> shows that reading a packet is a codec for \<open>serialize\<close>, so that a stream of
  frames is read back packet by packet.
\<close>

type_synonym chunks = "string list"

definition sock_recv :: "nat \<Rightarrow> chunks \<Rightarrow> string \<times> chunks" where
  "sock_recv ask cs =
     (case cs of
        [] \<Rightarrow> ([], [])
      | c # r \<Rightarrow> (take ask c, if length c \<le> ask then r else drop ask c # r))"

function recvExact :: "nat \<Rightarrow> string \<Rightarrow> chunks \<Rightarrow> (string \<times> chunks) option" where
  "recvExact bytes buffer cs =
     (if length buffer < bytes then
        (case sock_recv (bytes - length buffer) cs of
           (got, cs') \<Rightarrow> if got = [] then None else recvExact bytes (buffer @ got) cs')
      else Some (buffer, cs))"
  by pat_completeness auto
termination
  by (relation "measure (\<lambda>(bytes, buffer, cs). bytes - length buffer)")
    (auto simp: sock_recv_def min_def neq_Nil_conv split: list.splits)

declare recvExact.simps [simp del]

text \<open>The loop of \<open>sendExact\<close>: the bytes handed to the kernel, and the boolean result. The list holds
  the counts successive \<open>send\<close> calls return, \<open>0\<close> (or its end) being \<open>n <= 0\<close>; a call never accepts more
  than it was offered.\<close>

fun sendExact :: "string \<Rightarrow> nat list \<Rightarrow> string \<times> bool" where
  "sendExact buffer ns =
     (if buffer = [] then ([], True)
      else case ns of
        [] \<Rightarrow> ([], False)
      | n # r \<Rightarrow>
          if n = 0 then ([], False)
          else (let k = min n (length buffer)
                in case sendExact (drop k buffer) r of (w, ok) \<Rightarrow> (take k buffer @ w, ok)))"

declare sendExact.simps [simp del]

definition readPacket :: "chunks \<Rightarrow> (packet \<times> chunks) option" where
  "readPacket cs =
     (case recvExact 4 [] cs of
        None \<Rightarrow> None
      | Some (sizeBuf, cs1) \<Rightarrow>
          (let payloadSize = u32_of_bytes (sizeBuf ! 0) (sizeBuf ! 1) (sizeBuf ! 2) (sizeBuf ! 3)
           in if payloadSize = 0 \<or> unat payloadSize > MAX_PAYLOAD_BYTES then None
              else case recvExact (unat payloadSize) [] cs1 of
                None \<Rightarrow> None
              | Some (body, cs2) \<Rightarrow>
                  (case deserialize (sizeBuf @ body) of
                     None \<Rightarrow> None | Some p \<Rightarrow> Some (p, cs2))))"

definition writePacket :: "packet \<Rightarrow> nat list \<Rightarrow> string \<times> bool" where
  "writePacket p ns = (let framed = serialize p in if framed = [] then ([], False) else sendExact framed ns)"

section \<open>Fragmentation does not matter\<close>

abbreviation stream :: "chunks \<Rightarrow> bool" where "stream cs \<equiv> [] \<notin> set cs"

lemma sock_recv_concat:
  "sock_recv ask cs = (got, cs') \<Longrightarrow> concat cs = got @ concat cs'"
  by (cases cs) (auto simp: sock_recv_def)

lemma sock_recv_stream: "stream cs \<Longrightarrow> sock_recv ask cs = (got, cs') \<Longrightarrow> stream cs'"
  by (cases cs) (auto simp: sock_recv_def split: if_splits)

lemma sock_recv_length: "sock_recv ask cs = (got, cs') \<Longrightarrow> length got \<le> ask"
  by (cases cs) (auto simp: sock_recv_def)

lemma sock_recv_Nil: "stream cs \<Longrightarrow> 0 < ask \<Longrightarrow> sock_recv ask cs = ([], cs') \<Longrightarrow> cs = []"
  by (cases cs) (auto simp: sock_recv_def)

text \<open>The receive loop delivers exactly the next bytes of the stream, however it was cut into chunks,
  and fails exactly when fewer arrive before the close.\<close>

lemma recvExact_spec:
  assumes "stream cs" and "length buffer \<le> bytes"
  shows "if length buffer + length (concat cs) < bytes then recvExact bytes buffer cs = None
         else \<exists>cs'. recvExact bytes buffer cs = Some (take bytes (buffer @ concat cs), cs') \<and>
                stream cs' \<and> concat cs' = drop (bytes - length buffer) (concat cs)"
  using assms
proof (induction bytes buffer cs rule: recvExact.induct)
  case (1 bytes buffer cs)
  show ?case
  proof (cases "length buffer < bytes")
    case False
    with "1.prems" show ?thesis by (subst recvExact.simps) auto
  next
    case True
    obtain got cs' where r: "sock_recv (bytes - length buffer) cs = (got, cs')" by fastforce
    note facts = sock_recv_concat [OF r] sock_recv_stream [OF "1.prems"(1) r] sock_recv_length [OF r]
    show ?thesis
    proof (cases "got = []")
      case empty: True
      then have "cs = []" using sock_recv_Nil [OF "1.prems"(1), of "bytes - length buffer"] r True by simp
      with True empty r show ?thesis by (subst recvExact.simps) simp
    next
      case False
      have step: "recvExact bytes buffer cs = recvExact bytes (buffer @ got) cs'"
        using True False r by (subst recvExact.simps) simp
      have "length (buffer @ got) \<le> bytes" using facts(3) True by simp
      note ih = "1.IH" [OF True r [symmetric] False facts(2) this]
      have "drop (bytes - length buffer) (got @ concat cs') = drop (bytes - (length buffer + length got)) (concat cs')"
        using facts(3) by simp
      with ih show ?thesis unfolding step facts(1) by (auto split: if_splits)
    qed
  qed
qed

lemma recvExact_take:
  assumes "stream cs" and "n \<le> length (concat cs)"
  obtains cs' where "recvExact n [] cs = Some (take n (concat cs), cs')" and "stream cs'"
    and "concat cs' = drop n (concat cs)"
  using recvExact_spec [OF assms(1), of "[]" n] assms(2) by (auto simp: not_less)

lemma recvExact_None: "stream cs \<Longrightarrow> length (concat cs) < n \<Longrightarrow> recvExact n [] cs = None"
  using recvExact_spec [of cs "[]" n] by simp

lemma sendExact_prefix: "sendExact buffer ns = (w, ok) \<Longrightarrow> \<exists>r. buffer = w @ r \<and> (ok \<longrightarrow> r = [])"
proof (induction buffer ns arbitrary: w rule: sendExact.induct)
  case (1 buffer ns)
  show ?case
  proof (cases "buffer = [] \<or> ns = [] \<or> hd ns = 0")
    case True
    with "1.prems" show ?thesis
      by (subst (asm) sendExact.simps) (auto split: list.splits if_splits)
  next
    case False
    then obtain n r where ns: "ns = n # r" "n \<noteq> 0" by (cases ns) auto
    obtain v b where v: "sendExact (drop (min n (length buffer)) buffer) r = (v, b)" by fastforce
    have w: "w = take (min n (length buffer)) buffer @ v" "b = ok"
      using "1.prems" False ns v by (subst (asm) sendExact.simps, simp add: Let_def)+
    obtain q where "drop (min n (length buffer)) buffer = v @ q" "ok \<longrightarrow> q = []"
      using "1.IH" [OF _ ns refl, of v] False v w by auto
    then show ?thesis using w by (metis append_assoc append_take_drop_id)
  qed
qed

text \<open>The list-level reader: one frame off the front of a byte sequence.\<close>

definition get_frame :: "string \<Rightarrow> (packet \<times> string) option" where
  "get_frame s =
     (case get_u32 s of
        None \<Rightarrow> None
      | Some (n, r) \<Rightarrow>
          if n = 0 \<or> unat n > MAX_PAYLOAD_BYTES \<or> length r < unat n then None
          else case deserialize (take (4 + unat n) s) of
            None \<Rightarrow> None | Some p \<Rightarrow> Some (p, drop (4 + unat n) s))"

interpretation frames: codec serialize get_frame sendable
proof
  fix p r assume ok: "sendable p"
  let ?n = "length (serializePayload p)"
  have n: "?n \<le> 1048576" "0 < ?n"
    using ok by (simp_all add: sendable_def MAX_PAYLOAD_BYTES_def length_serializePayload)
  then have u: "unat (of_nat ?n :: u32) = ?n" by (simp add: unat_of_nat)
  then have nz: "(of_nat ?n :: u32) \<noteq> 0" using n by auto
  have "take (4 + ?n) (serialize p @ r) = serialize p" "drop (4 + ?n) (serialize p @ r) = r"
    by (simp_all add: serialize_sendable ok)
  moreover have "get_u32 (serialize p @ r) = Some (of_nat ?n, serializePayload p @ r)"
    by (simp add: serialize_sendable ok u32c.get_put)
  ultimately show "get_frame (serialize p @ r) = Some (p, r)"
    using n u nz by (simp add: get_frame_def MAX_PAYLOAD_BYTES_def deserialize_put [OF ok])
next
  fix s p r assume "get_frame s = Some (p, r)"
  then obtain n t where "get_u32 s = Some (n, t)" "deserialize (take (4 + unat n) s) = Some p"
    "r = drop (4 + unat n) s"
    by (auto simp: get_frame_def split: option.splits prod.splits if_splits)
  then show "sendable p \<and> s = serialize p @ r"
    by (metis append_take_drop_id deserialize_sound)
qed

text \<open>\<open>readPacket\<close> on a chunked stream is \<open>get_frame\<close> on its bytes.\<close>

lemma readPacket_get_frame:
  assumes "stream cs"
  shows "case get_frame (concat cs) of
           None \<Rightarrow> readPacket cs = None
         | Some (p, r) \<Rightarrow> \<exists>cs'. readPacket cs = Some (p, cs') \<and> stream cs' \<and> concat cs' = r"
proof (cases "length (concat cs) < 4")
  case True
  then have "get_u32 (concat cs) = None" by (simp add: get_u32_None)
  then show ?thesis using recvExact_None [OF assms True] by (simp add: get_frame_def readPacket_def)
next
  case False
  then obtain a b c d t where s: "concat cs = a # b # c # d # t"
    by (cases "concat cs" rule: get_u32.cases) auto
  obtain cs1 where c1: "recvExact 4 [] cs = Some ([a, b, c, d], cs1)" "stream cs1" "concat cs1 = t"
    using recvExact_take [OF assms, of 4] s by auto
  let ?n = "u32_of_bytes a b c d"
  have g: "get_u32 (concat cs) = Some (?n, t)" by (simp add: s)
  show ?thesis
  proof (cases "?n = 0 \<or> unat ?n > MAX_PAYLOAD_BYTES")
    case True
    then show ?thesis using g c1 by (auto simp: get_frame_def readPacket_def Let_def)
  next
    case ok: False
    show ?thesis
    proof (cases "length t < unat ?n")
      case True
      then show ?thesis
        using ok g c1 recvExact_None [OF c1(2)] by (auto simp: get_frame_def readPacket_def Let_def)
    next
      case False
      then obtain cs2 where "recvExact (unat ?n) [] cs1 = Some (take (unat ?n) t, cs2)" "stream cs2"
        "concat cs2 = drop (unat ?n) t"
        using recvExact_take [OF c1(2), of "unat ?n"] c1(3) by auto
      then show ?thesis
        using ok False g c1 s
        by (auto simp: get_frame_def readPacket_def Let_def eval_nat_numeral split: option.splits)
    qed
  qed
qed

end
