(* ===== verification/Gossip_Payload.thy ===== *)
theory Gossip_Payload
  imports Serializer
begin

unbundle bit_operations_syntax

text \<open>
  The body of a gossip event (src/utils/gossip_payload.cpp): five length-prefixed fields. The file
  has its own copies of the big-endian helpers (prefix \<open>gp_\<close> here); they are shown equal to those of
  the serializer, so the offset-reader interface carries over; \<open>eventId\<close> reads the second field only.
\<close>

record fields =
  f_type :: string
  f_eventId :: string
  f_username :: string
  f_content :: string
  f_field5 :: string

definition gp_appendU32BE :: "string \<Rightarrow> u32 \<Rightarrow> string" where
  "gp_appendU32BE out v =
     out @ [char_of (unat (drop_bit 24 v AND 0xFF)), char_of (unat (drop_bit 16 v AND 0xFF)),
            char_of (unat (drop_bit 8 v AND 0xFF)), char_of (unat (v AND 0xFF))]"

definition gp_appendField :: "string \<Rightarrow> string \<Rightarrow> string" where
  "gp_appendField out v = gp_appendU32BE out (of_nat (length v)) @ v"

definition gp_remainingAtLeast :: "string \<Rightarrow> nat \<Rightarrow> nat \<Rightarrow> bool" where
  "gp_remainingAtLeast inp offset needed \<longleftrightarrow> offset \<le> length inp \<and> length inp - offset \<ge> needed"

definition gp_readU32BE :: "string \<Rightarrow> nat \<Rightarrow> (nat \<times> u32) option" where
  "gp_readU32BE inp offset =
     (if \<not> gp_remainingAtLeast inp offset 4 then None
      else Some (offset + 4,
        push_bit 24 (of_char (inp ! offset)) OR push_bit 16 (of_char (inp ! (offset + 1))) OR
        push_bit 8 (of_char (inp ! (offset + 2))) OR of_char (inp ! (offset + 3))))"

definition gp_readField :: "string \<Rightarrow> nat \<Rightarrow> (nat \<times> string) option" where
  "gp_readField inp offset =
     (case gp_readU32BE inp offset of
        None \<Rightarrow> None
      | Some (o1, len) \<Rightarrow>
          if \<not> gp_remainingAtLeast inp o1 (unat len) then None
          else Some (o1 + unat len, substr inp o1 (unat len)))"

definition encode :: "string \<Rightarrow> string \<Rightarrow> string \<Rightarrow> string \<Rightarrow> string \<Rightarrow> string" where
  "encode type eventId username content field5 =
     gp_appendField (gp_appendField (gp_appendField (gp_appendField (gp_appendField []
       type) eventId) username) content) field5"

definition decode :: "string \<Rightarrow> fields option" where
  "decode payload =
     (case gp_readField payload 0 of None \<Rightarrow> None | Some (o1, type) \<Rightarrow>
     (case gp_readField payload o1 of None \<Rightarrow> None | Some (o2, evId) \<Rightarrow>
     (case gp_readField payload o2 of None \<Rightarrow> None | Some (o3, username) \<Rightarrow>
     (case gp_readField payload o3 of None \<Rightarrow> None | Some (o4, content) \<Rightarrow>
     (case gp_readField payload o4 of None \<Rightarrow> None | Some (o5, field5) \<Rightarrow>
        if o5 \<noteq> length payload then None
        else Some \<lparr>f_type = type, f_eventId = evId, f_username = username, f_content = content,
                   f_field5 = field5\<rparr>)))))"

definition eventId :: "string \<Rightarrow> string" where
  "eventId payload =
     (case gp_readField payload 0 of None \<Rightarrow> [] | Some (o1, type) \<Rightarrow>
     (case gp_readField payload o1 of None \<Rightarrow> [] | Some (o2, ident) \<Rightarrow> ident))"

section \<open>The helpers agree with the serializer's\<close>

lemma gp_remainingAtLeast_eq: "gp_remainingAtLeast = remainingAtLeast"
  by (intro ext) (simp add: gp_remainingAtLeast_def remainingAtLeast_def)

lemma gp_readU32BE_eq: "gp_readU32BE = readU32BE"
  by (intro ext) (simp add: gp_readU32BE_def readU32BE_def gp_remainingAtLeast_eq)

lemma gp_readField_eq: "gp_readField = readLenPrefixed"
  unfolding gp_readField_def readLenPrefixed_def gp_readU32BE_eq gp_remainingAtLeast_eq ..

lemma gp_appendField_put: "gp_appendField out v = out @ put_str v"
  by (simp add: gp_appendField_def gp_appendU32BE_def put_str_def put_u32_def u32_byte_def)

definition encodeFields :: "fields \<Rightarrow> string" where
  "encodeFields f = encode (f_type f) (f_eventId f) (f_username f) (f_content f) (f_field5 f)"

definition fields_short :: "fields \<Rightarrow> bool" where
  "fields_short f \<longleftrightarrow> short (f_type f) \<and> short (f_eventId f) \<and> short (f_username f) \<and>
     short (f_content f) \<and> short (f_field5 f)"

lemma encode_put:
  "encode t e u c x = put_str t @ put_str e @ put_str u @ put_str c @ put_str x"
  by (simp add: encode_def gp_appendField_put)

lemma decode_encode:
  assumes "fields_short f"
  shows "decode (encodeFields f) = Some f"
proof -
  let ?b = "encodeFields f"
  let ?t5 = "[] :: string"
  let ?t4 = "put_str (f_field5 f) @ ?t5"
  let ?t3 = "put_str (f_content f) @ ?t4"
  let ?t2 = "put_str (f_username f) @ ?t3"
  let ?t1 = "put_str (f_eventId f) @ ?t2"
  have b: "drop 0 ?b = put_str (f_type f) @ ?t1" by (simp add: encodeFields_def encode_put)
  have sh: "short (f_type f)" "short (f_eventId f)" "short (f_username f)" "short (f_content f)"
    "short (f_field5 f)" using assms by (simp_all add: fields_short_def)
  obtain o1 where r1: "readLenPrefixed ?b 0 = Some (o1, f_type f)" "o1 \<le> length ?b" "drop o1 ?b = ?t1"
    by (rule strr.rd_put [OF le0 b sh(1)])
  obtain o2 where r2: "readLenPrefixed ?b o1 = Some (o2, f_eventId f)" "o2 \<le> length ?b" "drop o2 ?b = ?t2"
    by (rule strr.rd_put [OF r1(2,3) sh(2)])
  obtain o3 where r3: "readLenPrefixed ?b o2 = Some (o3, f_username f)" "o3 \<le> length ?b" "drop o3 ?b = ?t3"
    by (rule strr.rd_put [OF r2(2,3) sh(3)])
  obtain o4 where r4: "readLenPrefixed ?b o3 = Some (o4, f_content f)" "o4 \<le> length ?b" "drop o4 ?b = ?t4"
    by (rule strr.rd_put [OF r3(2,3) sh(4)])
  obtain o5 where r5: "readLenPrefixed ?b o4 = Some (o5, f_field5 f)" "o5 \<le> length ?b" "drop o5 ?b = []"
    by (rule strr.rd_put [OF r4(2,3) sh(5)])
  show ?thesis
    using r1(1) r2(1) r3(1) r4(1) r5 by (simp add: decode_def gp_readField_eq)
qed

lemma decode_sound:
  assumes "decode b = Some f"
  shows "fields_short f \<and> encodeFields f = b"
proof -
  from assms obtain o1 t o2 e o3 u o4 c o5 x where
    rs: "readLenPrefixed b 0 = Some (o1, t)" "readLenPrefixed b o1 = Some (o2, e)"
      "readLenPrefixed b o2 = Some (o3, u)" "readLenPrefixed b o3 = Some (o4, c)"
      "readLenPrefixed b o4 = Some (o5, x)" and "o5 = length b"
      "f = \<lparr>f_type = t, f_eventId = e, f_username = u, f_content = c, f_field5 = x\<rparr>"
    by (simp add: decode_def gp_readField_eq split: if_splits option.splits prod.splits)
  note s1 = strr.rd_sound [OF rs(1) le0]
  note s2 = strr.rd_sound [OF rs(2) s1(2)]
  note s3 = strr.rd_sound [OF rs(3) s2(2)]
  note s4 = strr.rd_sound [OF rs(4) s3(2)]
  note s5 = strr.rd_sound [OF rs(5) s4(2)]
  have "drop 0 b = put_str t @ put_str e @ put_str u @ put_str c @ put_str x @ drop o5 b"
    by (simp only: s1(3) s2(3) s3(3) s4(3) s5(3))
  then have "b = encodeFields f"
    using \<open>o5 = _\<close> \<open>f = _\<close> by (simp add: encodeFields_def encode_put)
  moreover have "fields_short f"
    using s1(1) s2(1) s3(1) s4(1) s5(1) \<open>f = _\<close> by (simp add: fields_short_def)
  ultimately show ?thesis by simp
qed

lemma eventId_decode: "decode b = Some f \<Longrightarrow> eventId b = f_eventId f"
  by (simp add: decode_def eventId_def split: option.splits prod.splits if_splits) fastforce

lemma eventId_encode:
  assumes "short t" "short e" "short u" "short c" "short x"
  shows "eventId (encode t e u c x) = e"
proof -
  let ?f = "\<lparr>f_type = t, f_eventId = e, f_username = u, f_content = c, f_field5 = x\<rparr>"
  have "decode (encodeFields ?f) = Some ?f"
    using assms by (intro decode_encode) (simp add: fields_short_def)
  then show ?thesis using eventId_decode by (fastforce simp: encodeFields_def)
qed

text \<open>The gossip payload format is a faithful code of its five fields, whatever bytes they hold
  (the separator characters of the text formats included): a body decodes to given fields exactly
  when it is their encoding, trailing bytes being refused.\<close>

theorem gossip_payload_roundtrip:
  "decode b = Some f \<longleftrightarrow> fields_short f \<and> b = encodeFields f"
  by (auto simp: decode_encode dest: decode_sound)

end
