(* ===== verification/Models.thy ===== *)
theory Models
  imports Packets
begin

text \<open>
  The domain classes of src/utils/models: \<open>User\<close>, \<open>Room\<close>, \<open>Message\<close> and \<open>ClientEndpoint\<close>, with their
  text formats \<open>user(name|email|type)\<close>, \<open>room(id|name|type|privacy)\<close>, \<open>room;room;...\<close> and
  \<open>endpoint(node|host|port)\<close>. A thrown \<open>std::invalid_argument\<close> is the left summand of the
  result. A \<open>Room\<close> carries neither its creation time nor its creator here: both are only
  printed by \<open>operator<<\<close>. Room ids are unbounded integers; the parser of the text format still
  enforces the 32-bit range of \<open>std::stoi\<close>.

  The lemmas show each format read back what it prints, under the conditions the format needs: no
  field may contain the separator of the level it is written at.
\<close>

section \<open>Users\<close>

datatype userType = ADMIN | USER | GUEST

record user =
  u_username :: string
  u_email :: string
  u_type :: userType

definition userTypeToStringMap :: "(userType \<times> string) list" where
  "userTypeToStringMap = [(ADMIN, ''ADMIN''), (USER, ''USER''), (GUEST, ''GUEST'')]"

definition typeToString :: "userType \<Rightarrow> string" where
  "typeToString t = (case map_of userTypeToStringMap t of Some s \<Rightarrow> s | None \<Rightarrow> ''GUEST'')"

definition stringToType :: "string \<Rightarrow> userType" where
  "stringToType s =
     (case find (\<lambda>(key, value). value = s) userTypeToStringMap of Some (key, _) \<Rightarrow> key | None \<Rightarrow> GUEST)"

text \<open>\<open>operator==\<close> compares e-mail addresses only.\<close>

definition user_eq :: "user \<Rightarrow> user \<Rightarrow> bool" where
  "user_eq a b \<longleftrightarrow> u_email a = u_email b"

text \<open>\<open>std::setw(7) << std::setfill('0')\<close> of the draw, which is between 0 and 9999.\<close>

definition pad7 :: "nat \<Rightarrow> string" where
  "pad7 n = (let s = nat_to_string n in replicate (7 - length s) (CHR ''0'') @ s)"

definition anonymousUser :: "nat \<Rightarrow> user" where
  "anonymousUser draw =
     (let genUsername = ''anon'' @ pad7 (draw mod 10000)
      in \<lparr>u_username = genUsername, u_email = genUsername @ ''@local'', u_type = GUEST\<rparr>)"

definition user_serialize :: "user \<Rightarrow> string" where
  "user_serialize u =
     ''user('' @ u_username u @ ''|'' @ u_email u @ ''|'' @ typeToString (u_type u) @ '')''"

definition user_deserialize :: "string \<Rightarrow> exn + user" where
  "user_deserialize s =
     (let prefix = ''user('' in
      if length s < length prefix + 1 \<or> \<not> starts_with prefix s \<or> last s \<noteq> CHR '')''
      then Inl (InvalidArgument ''Invalid serialized user'')
      else let body = substr s (length prefix) (length s - length prefix - 1) in
        (case find_char (CHR ''|'') body of
           None \<Rightarrow> Inl (InvalidArgument ''Invalid serialized user'')
         | Some first \<Rightarrow>
             (case find_from (CHR ''|'') (first + 1) body of
                None \<Rightarrow> Inl (InvalidArgument ''Invalid serialized user'')
              | Some second \<Rightarrow>
                  Inr \<lparr>u_username = substr body 0 first,
                       u_email = substr body (first + 1) (second - first - 1),
                       u_type = stringToType (drop (second + 1) body)\<rparr>)))"

section \<open>Rooms\<close>

datatype privacy = PUBLIC | PRIVATE

datatype roomType =
    RESEARCH_AND_DEVELOPMENT | PRODUCTION | QA | DEVOPS | SECURITY | DESIGN | MARKETING | HR
  | FINANCE | LEGAL | CUSTOMER_SUPPORT | OTHER | LOBBY_TYPE

record room =
  ro_id :: int
  ro_name :: string
  ro_type :: roomType
  ro_privacy :: privacy

definition typeMap :: "(roomType \<times> string) list" where
  "typeMap =
    [(RESEARCH_AND_DEVELOPMENT, ''R&D''), (PRODUCTION, ''Production''), (QA, ''QA''),
     (DEVOPS, ''DevOps''), (SECURITY, ''Security''), (DESIGN, ''Design''),
     (MARKETING, ''Marketing''), (HR, ''HR''), (FINANCE, ''Finance''), (LEGAL, ''Legal''),
     (CUSTOMER_SUPPORT, ''Customer Support''), (OTHER, ''Other''), (LOBBY_TYPE, ''Lobby'')]"

definition privacyMap :: "(privacy \<times> string) list" where
  "privacyMap = [(PUBLIC, ''PUBLIC''), (PRIVATE, ''PRIVATE'')]"

definition mkRoom :: "int \<Rightarrow> string \<Rightarrow> roomType \<Rightarrow> privacy \<Rightarrow> room" where
  "mkRoom ident name type privacy = \<lparr>ro_id = ident, ro_name = name, ro_type = type, ro_privacy = privacy\<rparr>"

definition roomTypeToString :: "roomType \<Rightarrow> string" where
  "roomTypeToString t = (case map_of typeMap t of Some s \<Rightarrow> s | None \<Rightarrow> ''Other'')"

definition privacyToString :: "privacy \<Rightarrow> string" where
  "privacyToString p = (case map_of privacyMap p of Some s \<Rightarrow> s | None \<Rightarrow> ''PUBLIC'')"

definition stringToRoomType :: "string \<Rightarrow> roomType" where
  "stringToRoomType s =
     (case find (\<lambda>(key, value). value = s) typeMap of Some (key, _) \<Rightarrow> key | None \<Rightarrow> OTHER)"

definition stringToPrivacy :: "string \<Rightarrow> privacy" where
  "stringToPrivacy s =
     (case find (\<lambda>(key, value). value = s) privacyMap of Some (key, _) \<Rightarrow> key | None \<Rightarrow> PUBLIC)"

text \<open>\<open>operator==\<close> compares ids only.\<close>

definition room_eq :: "room \<Rightarrow> room \<Rightarrow> bool" where
  "room_eq a b \<longleftrightarrow> ro_id a = ro_id b"

definition room_serialize :: "room \<Rightarrow> string" where
  "room_serialize r =
     ''room('' @ int_to_string (ro_id r) @ ''|'' @ ro_name r @ ''|'' @
     roomTypeToString (ro_type r) @ ''|'' @ privacyToString (ro_privacy r) @ '')''"

definition room_deserialize :: "string \<Rightarrow> exn + room" where
  "room_deserialize s =
     (let prefix = ''room('' in
      if length s < length prefix + 1 \<or> \<not> starts_with prefix s \<or> last s \<noteq> CHR '')''
      then Inl (InvalidArgument ''Invalid serialized room'')
      else let body = substr s (length prefix) (length s - length prefix - 1) in
        (case find_char (CHR ''|'') body of
           None \<Rightarrow> Inl (InvalidArgument ''Invalid serialized room'')
         | Some first \<Rightarrow>
        (case find_from (CHR ''|'') (first + 1) body of
           None \<Rightarrow> Inl (InvalidArgument ''Invalid serialized room'')
         | Some second \<Rightarrow>
        (case find_from (CHR ''|'') (second + 1) body of
           None \<Rightarrow> Inl (InvalidArgument ''Invalid serialized room'')
         | Some third \<Rightarrow>
             (case std_stoi (substr body 0 first) of
                None \<Rightarrow> Inl (InvalidArgument ''Invalid serialized room id'')
              | Some ident \<Rightarrow>
                  Inr (mkRoom ident
                    (substr body (first + 1) (second - first - 1))
                    (stringToRoomType (substr body (second + 1) (third - second - 1)))
                    (stringToPrivacy (drop (third + 1) body))))))))"

text \<open>The loop of \<open>serializeList\<close>: a separator before every room but the first.\<close>

definition serializeList :: "room list \<Rightarrow> string" where
  "serializeList rooms = join_with (CHR '';'') (map room_serialize rooms)"

text \<open>The loop of \<open>deserializeList\<close>: empty pieces and pieces that do not parse are skipped.\<close>

fun rooms_of_pieces :: "string list \<Rightarrow> room list" where
  "rooms_of_pieces [] = []"
| "rooms_of_pieces (piece # ps) =
     (if piece = [] then rooms_of_pieces ps
      else case room_deserialize piece of
        Inl _ \<Rightarrow> rooms_of_pieces ps
      | Inr r \<Rightarrow> r # rooms_of_pieces ps)"

definition deserializeList :: "string \<Rightarrow> room list" where
  "deserializeList s = (if s = [] then [] else rooms_of_pieces (split_on (CHR '';'') s))"

section \<open>Messages\<close>

record chat_message =
  m_from :: user
  m_to :: user
  m_content :: string
  m_timestamp :: int
  m_id :: string

text \<open>\<open>makeMessageId\<close>: node id, boot id, time and the next value of the process-wide counter.\<close>

definition makeMessageId :: "string \<Rightarrow> string \<Rightarrow> int \<Rightarrow> u64 \<Rightarrow> string \<times> u64" where
  "makeMessageId nodeId boot_id now seq =
     (nodeId @ ''-'' @ boot_id @ ''-'' @ int_to_string now @ ''-'' @ nat_to_string (unat (seq + 1)), seq + 1)"

definition msg_eq :: "chat_message \<Rightarrow> chat_message \<Rightarrow> bool" where
  "msg_eq a b \<longleftrightarrow> m_id a = m_id b \<and> m_timestamp a = m_timestamp b"

definition msg_less :: "chat_message \<Rightarrow> chat_message \<Rightarrow> bool" where
  "msg_less a b \<longleftrightarrow> m_timestamp a < m_timestamp b"

definition msg_less_eq :: "chat_message \<Rightarrow> chat_message \<Rightarrow> bool" where
  "msg_less_eq a b \<longleftrightarrow> msg_less a b \<or> msg_eq a b"

section \<open>Client endpoints\<close>

type_synonym SOCKET = u64

definition INVALID_SOCKET :: SOCKET where "INVALID_SOCKET = -1"

record clientEndpoint =
  ce_nodeId :: string
  ce_host :: string
  ce_port :: u16
  ce_socket :: SOCKET

definition isLiveClientEndpoint :: "clientEndpoint \<Rightarrow> bool" where
  "isLiveClientEndpoint e \<longleftrightarrow> ce_nodeId e \<noteq> [] \<and> ce_host e \<noteq> [] \<and> ce_port e \<noteq> 0"

definition endpoint_serialize :: "clientEndpoint \<Rightarrow> string" where
  "endpoint_serialize e =
     ''endpoint('' @ ce_nodeId e @ ''|'' @ ce_host e @ ''|'' @ nat_to_string (unat (ce_port e)) @ '')''"

definition endpoint_deserialize :: "string \<Rightarrow> exn + clientEndpoint" where
  "endpoint_deserialize s =
     (let prefix = ''endpoint('' in
      if length s < length prefix + 1 \<or> \<not> starts_with prefix s \<or> last s \<noteq> CHR '')''
      then Inl (InvalidArgument ''Invalid serialized client endpoint'')
      else let body = substr s (length prefix) (length s - length prefix - 1) in
        (case find_char (CHR ''|'') body of
           None \<Rightarrow> Inl (InvalidArgument ''Invalid serialized client endpoint'')
         | Some first \<Rightarrow>
        (case find_from (CHR ''|'') (first + 1) body of
           None \<Rightarrow> Inl (InvalidArgument ''Invalid serialized client endpoint'')
         | Some second \<Rightarrow>
             if find_from (CHR ''|'') (second + 1) body \<noteq> None
             then Inl (InvalidArgument ''Invalid serialized client endpoint'')
             else let nodeId = substr body 0 first;
                      host = substr body (first + 1) (second - first - 1);
                      portText = drop (second + 1) body
                  in if nodeId = [] \<or> host = []
                     then Inl (InvalidArgument ''Invalid serialized client endpoint'')
                     else (case std_stoul portText of
                         None \<Rightarrow> Inl (InvalidArgument ''Invalid serialized client endpoint port'')
                       | Some port \<Rightarrow>
                           if port = 0 \<or> port > 65535
                           then Inl (InvalidArgument ''Invalid serialized client endpoint port'')
                           else Inr \<lparr>ce_nodeId = nodeId, ce_host = host, ce_port = of_nat port,
                                     ce_socket = INVALID_SOCKET\<rparr>))))"

section \<open>Reading back what was printed\<close>

abbreviation bar_free :: "string \<Rightarrow> bool" where "bar_free s \<equiv> CHR ''|'' \<notin> set s"

lemma typeToString_inverse [simp]: "stringToType (typeToString t) = t"
  by (cases t) (simp_all add: stringToType_def typeToString_def userTypeToStringMap_def)

lemma roomTypeToString_inverse [simp]: "stringToRoomType (roomTypeToString t) = t"
  by (cases t) (simp_all add: stringToRoomType_def roomTypeToString_def typeMap_def)

lemma privacyToString_inverse [simp]: "stringToPrivacy (privacyToString p) = p"
  by (cases p) (simp_all add: stringToPrivacy_def privacyToString_def privacyMap_def)

lemma roomTypeToString_chars:
  "bar_free (roomTypeToString t)" "CHR '';'' \<notin> set (roomTypeToString t)"
  by (cases t; simp add: roomTypeToString_def typeMap_def)+

lemma privacyToString_chars:
  "bar_free (privacyToString p)" "CHR '';'' \<notin> set (privacyToString p)"
  by (cases p; simp add: privacyToString_def privacyMap_def)+

lemma int_to_string_clean: "\<not> is_digit c \<Longrightarrow> c \<noteq> CHR ''-'' \<Longrightarrow> c \<notin> set (int_to_string i)"
  using int_to_string_chars by blast

text \<open>Splitting a body at its first bars; the shape every reader of this theory relies on.\<close>

lemma find_from_append:
  assumes "bar_free b"
  shows "find_from (CHR ''|'') (Suc (length a)) (a @ CHR ''|'' # b @ CHR ''|'' # c) =
     Some (Suc (length a + length b))"
  using assms by (simp add: find_from_def)

lemma find_from_append2:
  assumes "bar_free c"
  shows "find_from (CHR ''|'') (Suc (Suc (length a + length b)))
     (a @ CHR ''|'' # b @ CHR ''|'' # c @ CHR ''|'' # d) = Some (Suc (Suc (length a + length b + length c)))"
proof -
  have "drop (Suc (Suc (length a + length b))) (a @ CHR ''|'' # b @ CHR ''|'' # c @ CHR ''|'' # d) =
    c @ CHR ''|'' # d" by simp
  then show ?thesis using assms by (simp add: find_from_def)
qed

lemma find_from_append_None:
  assumes "bar_free c"
  shows "find_from (CHR ''|'') (Suc (Suc (length a + length b))) (a @ CHR ''|'' # b @ CHR ''|'' # c) = None"
proof -
  have "drop (Suc (Suc (length a + length b))) (a @ CHR ''|'' # b @ CHR ''|'' # c) = c" by simp
  then show ?thesis using assms by (simp only: find_from_def) simp
qed

lemma starts_with_append [simp]: "starts_with p (p @ s)"
  by (simp add: starts_with_def)

text \<open>The wrapper \<open>prefix( ... )\<close> is accepted and its body extracted.\<close>

lemma wrapped_guard:
  "(length (p @ b @ [c]) < length p + 1 \<or> \<not> starts_with p (p @ b @ [c]) \<or> last (p @ b @ [c]) \<noteq> c) = False"
  by (simp add: starts_with_def)

lemma wrapped_body: "substr (p @ b @ [c]) (length p) (length (p @ b @ [c]) - length p - 1) = b"
  by (simp add: substr_def)

lemmas wrapped = wrapped_guard wrapped_body if_False Let_def

lemma user_deserialize_serialize:
  assumes "bar_free (u_username u)" and "bar_free (u_email u)"
  shows "user_deserialize (user_serialize u) = Inr u"
proof -
  define b where "b = u_username u @ CHR ''|'' # u_email u @ CHR ''|'' # typeToString (u_type u)"
  have s: "user_serialize u = ''user('' @ b @ [CHR '')'']" by (simp add: user_serialize_def b_def)
  have "find_char (CHR ''|'') b = Some (length (u_username u))" using assms(1) by (simp add: b_def)
  moreover have "find_from (CHR ''|'') (length (u_username u) + 1) b =
      Some (length (u_username u) + length (u_email u) + 1)"
    using find_from_append [OF assms(2), of "u_username u"] by (simp add: b_def)
  moreover have "substr b 0 (length (u_username u)) = u_username u"
    "substr b (length (u_username u) + 1) (length (u_email u)) = u_email u"
    "drop (length (u_username u) + length (u_email u) + 1 + 1) b = typeToString (u_type u)"
    by (simp_all add: b_def substr_def)
  ultimately show ?thesis by (simp only: s user_deserialize_def wrapped) simp
qed

lemma room_deserialize_serialize:
  assumes "bar_free (ro_name r)" and "- (2 ^ 31) \<le> ro_id r" and "ro_id r < 2 ^ 31"
  shows "room_deserialize (room_serialize r) = Inr r"
proof -
  define i t p where "i = int_to_string (ro_id r)" and "t = roomTypeToString (ro_type r)"
    and "p = privacyToString (ro_privacy r)"
  define b where "b = i @ CHR ''|'' # ro_name r @ CHR ''|'' # t @ CHR ''|'' # p"
  have s: "room_serialize r = ''room('' @ b @ [CHR '')'']"
    by (simp add: room_serialize_def b_def i_def t_def p_def)
  have i: "bar_free i" unfolding i_def by (rule int_to_string_clean) (simp_all add: is_digit_def)
  have t: "bar_free t" by (simp add: t_def roomTypeToString_chars)
  let ?f = "length i" let ?s = "length i + length (ro_name r) + 1"
  let ?t = "length i + length (ro_name r) + length t + 2"
  have "find_char (CHR ''|'') b = Some ?f" using i by (simp add: b_def)
  moreover have "find_from (CHR ''|'') (?f + 1) b = Some ?s"
    using find_from_append [OF assms(1), of i] by (simp add: b_def)
  moreover have "find_from (CHR ''|'') (?s + 1) b = Some ?t"
    using find_from_append2 [OF t, of i "ro_name r" p] by (simp add: b_def)
  moreover have "substr b 0 ?f = i" "substr b (?f + 1) (?s - ?f - 1) = ro_name r"
    "substr b (?s + 1) (?t - ?s - 1) = t" "drop (?t + 1) b = p"
    by (simp_all add: b_def substr_def numeral_3_eq_3)
  moreover have "std_stoi i = Some (ro_id r)" unfolding i_def using assms by (intro std_stoi_int) simp_all
  ultimately show ?thesis
    by (simp only: s room_deserialize_def wrapped option.case) (simp add: mkRoom_def t_def p_def)
qed

lemma endpoint_deserialize_serialize:
  assumes "bar_free (ce_nodeId e)" and "bar_free (ce_host e)" and "isLiveClientEndpoint e"
  shows "endpoint_deserialize (endpoint_serialize e) = Inr (e\<lparr>ce_socket := INVALID_SOCKET\<rparr>)"
proof -
  define n h p where "n = ce_nodeId e" and "h = ce_host e" and "p = nat_to_string (unat (ce_port e))"
  define b where "b = n @ CHR ''|'' # h @ CHR ''|'' # p"
  have s: "endpoint_serialize e = ''endpoint('' @ b @ [CHR '')'']"
    by (simp add: endpoint_serialize_def b_def n_def h_def p_def)
  have p: "bar_free p" unfolding p_def by (rule nat_to_string_no_sep) (simp add: is_digit_def)
  have u: "unat (ce_port e) < 65536" using unsigned_less [of "ce_port e"] by simp
  have ne: "n \<noteq> []" "h \<noteq> []" "unat (ce_port e) \<noteq> 0"
    using assms(3) by (simp_all add: isLiveClientEndpoint_def unat_eq_0 n_def h_def)
  let ?f = "length n" let ?s = "length n + length h + 1"
  have "find_char (CHR ''|'') b = Some ?f" using assms(1) by (simp add: b_def n_def)
  moreover have "find_from (CHR ''|'') (?f + 1) b = Some ?s"
    using find_from_append [of h n p] assms(2) by (simp add: b_def h_def)
  moreover have "find_from (CHR ''|'') (?s + 1) b = None"
    using find_from_append_None [OF p, of n h] by (simp add: b_def)
  moreover have "substr b 0 ?f = n" "substr b (?f + 1) (?s - ?f - 1) = h" "drop (?s + 1) b = p"
    by (simp_all add: b_def substr_def)
  moreover have "std_stoul p = Some (unat (ce_port e))"
    unfolding p_def using u by (intro std_stoul_nat) simp
  ultimately show ?thesis
    using u ne
    by (simp only: s endpoint_deserialize_def wrapped option.case) (simp add: n_def h_def)
qed

lemma room_serialize_not_Nil [simp]: "room_serialize r \<noteq> []"
  by (simp add: room_serialize_def)

lemma room_serialize_semi_free:
  "CHR '';'' \<notin> set (ro_name r) \<Longrightarrow> CHR '';'' \<notin> set (room_serialize r)"
  using int_to_string_clean [of "CHR '';''" "ro_id r"] roomTypeToString_chars privacyToString_chars
  by (auto simp: room_serialize_def is_digit_def)

text \<open>What a room must look like for the directory text to carry it.\<close>

definition listable :: "room \<Rightarrow> bool" where
  "listable r \<longleftrightarrow> bar_free (ro_name r) \<and> CHR '';'' \<notin> set (ro_name r) \<and>
     - (2 ^ 31) \<le> ro_id r \<and> ro_id r < 2 ^ 31"

lemma rooms_of_pieces_map:
  "\<forall>r\<in>set rs. listable r \<Longrightarrow> rooms_of_pieces (map room_serialize rs) = rs"
  by (induction rs) (auto simp: listable_def room_deserialize_serialize)

lemma deserializeList_serializeList:
  assumes "\<forall>r\<in>set rs. listable r"
  shows "deserializeList (serializeList rs) = rs"
proof (cases "rs = []")
  case True
  then show ?thesis by (simp add: serializeList_def deserializeList_def)
next
  case False
  have "split_on (CHR '';'') (serializeList rs) = map room_serialize rs"
    using False assms unfolding serializeList_def
    by (intro split_on_join) (auto simp: listable_def room_serialize_semi_free)
  moreover have "serializeList rs \<noteq> []" using False by (cases rs) (auto simp: serializeList_def)
  ultimately show ?thesis by (simp add: deserializeList_def rooms_of_pieces_map assms)
qed

end
