(* ===== verification/Config.thy ===== *)
theory Config
  imports Models
begin

text \<open>
  include/config/config.h: the process-wide settings and the command line. The inline variables of
  the namespace are the fields of one record; \<open>parsePort\<close>, \<open>parsePeers\<close>, \<open>removeNeighborServer\<close>,
  \<open>parseNeighborServers\<close> and \<open>parseArgs\<close> follow the source loop by loop. Writing to \<open>std::cerr\<close>
  is left out. The invariant \<open>config_ok\<close> says what the rest of the program reads from the settings:
  ports are not zero, the failover list has no duplicate and never contains the server itself.
\<close>

record ServerPoint =
  sp_host :: string
  sp_port :: u16

record config =
  SERVER_HOST :: string
  PORT :: u16
  WS_PORT :: u16
  PEER_PORT :: u16
  NODE_ID :: string
  PEERS :: "string list"
  NEIGHBOR_SERVERS :: "ServerPoint list"
  DB_PATH :: string
  TEST_MODE :: bool

definition default_config :: config where
  "default_config =
     \<lparr>SERVER_HOST = ''127.0.0.1'', PORT = 5555, WS_PORT = 8080, PEER_PORT = 5557,
      NODE_ID = ''node1'', PEERS = [], NEIGHBOR_SERVERS = [], DB_PATH = ''data/node-1.db'',
      TEST_MODE = False\<rparr>"

definition HEARTBEAT_INTERVAL :: int where "HEARTBEAT_INTERVAL = 5000"
definition HEARTBEAT_TIMEOUT :: int where "HEARTBEAT_TIMEOUT = 10000"

definition parsePort :: "string \<Rightarrow> u16 option" where
  "parsePort text =
     (case std_stoul text of
        None \<Rightarrow> None
      | Some value \<Rightarrow> if value = 0 \<or> value > 65535 then None else Some (of_nat value))"

definition parsePeers :: "string \<Rightarrow> config \<Rightarrow> config" where
  "parsePeers text c = c\<lparr>PEERS := filter (\<lambda>item. item \<noteq> []) (getlines (CHR '','') text)\<rparr>"

text \<open>The \<open>for\<close> / \<open>erase\<close> / \<open>break\<close> loop: the first match only.\<close>

fun erase_point :: "string \<Rightarrow> u16 \<Rightarrow> ServerPoint list \<Rightarrow> ServerPoint list" where
  "erase_point host port [] = []"
| "erase_point host port (p # ps) =
     (if sp_host p = host \<and> sp_port p = port then ps else p # erase_point host port ps)"

definition removeNeighborServer :: "string \<Rightarrow> u16 \<Rightarrow> config \<Rightarrow> config" where
  "removeNeighborServer host port c =
     c\<lparr>NEIGHBOR_SERVERS := erase_point host port (NEIGHBOR_SERVERS c)\<rparr>"

fun neighbor_items :: "string list \<Rightarrow> config \<Rightarrow> bool \<times> config" where
  "neighbor_items [] c = (True, c)"
| "neighbor_items (item # items) c =
     (if item = [] then neighbor_items items c
      else case rfind_char (CHR '':'') item of
        None \<Rightarrow> (False, c\<lparr>NEIGHBOR_SERVERS := []\<rparr>)
      | Some colon \<Rightarrow>
          if colon = 0 \<or> colon + 1 \<ge> length item then (False, c\<lparr>NEIGHBOR_SERVERS := []\<rparr>)
          else let host = substr item 0 colon in
            (case parsePort (drop (colon + 1) item) of
               None \<Rightarrow> (False, c\<lparr>NEIGHBOR_SERVERS := []\<rparr>)
             | Some port \<Rightarrow>
                 if host = SERVER_HOST c \<and> port = PORT c then neighbor_items items c
                 else let c' = removeNeighborServer host port c in
                   neighbor_items items
                     (c'\<lparr>NEIGHBOR_SERVERS :=
                        NEIGHBOR_SERVERS c' @ [\<lparr>sp_host = host, sp_port = port\<rparr>]\<rparr>)))"

definition parseNeighborServers :: "string \<Rightarrow> config \<Rightarrow> bool \<times> config" where
  "parseNeighborServers text c =
     neighbor_items (getlines (CHR '','') text) (c\<lparr>NEIGHBOR_SERVERS := []\<rparr>)"

text \<open>\<open>argv[1..]\<close> from left to right; an option with a value takes the next argument.\<close>

fun parseArgs :: "string list \<Rightarrow> config \<Rightarrow> bool \<times> config" where
  "parseArgs [] c = (True, c)"
| "parseArgs (arg # argv) c =
     (if arg = ''--help'' \<or> arg = ''-h'' then (False, c)
      else if arg = ''--node-id'' then
        (case argv of [] \<Rightarrow> (False, c) | v # argv' \<Rightarrow> parseArgs argv' (c\<lparr>NODE_ID := v\<rparr>))
      else if arg = ''--host'' then
        (case argv of [] \<Rightarrow> (False, c)
         | v # argv' \<Rightarrow> parseArgs argv' (removeNeighborServer v (PORT c) (c\<lparr>SERVER_HOST := v\<rparr>)))
      else if arg = ''--port'' then
        (case argv of [] \<Rightarrow> (False, c)
         | v # argv' \<Rightarrow>
             (case parsePort v of None \<Rightarrow> (False, c)
              | Some p \<Rightarrow> parseArgs argv' (removeNeighborServer (SERVER_HOST c) p (c\<lparr>PORT := p\<rparr>))))
      else if arg = ''--ws-port'' then
        (case argv of [] \<Rightarrow> (False, c)
         | v # argv' \<Rightarrow>
             (case parsePort v of None \<Rightarrow> (False, c) | Some p \<Rightarrow> parseArgs argv' (c\<lparr>WS_PORT := p\<rparr>)))
      else if arg = ''--peer-port'' then
        (case argv of [] \<Rightarrow> (False, c)
         | v # argv' \<Rightarrow>
             (case parsePort v of None \<Rightarrow> (False, c) | Some p \<Rightarrow> parseArgs argv' (c\<lparr>PEER_PORT := p\<rparr>)))
      else if arg = ''--peers'' then
        (case argv of [] \<Rightarrow> (False, c) | v # argv' \<Rightarrow> parseArgs argv' (parsePeers v c))
      else if arg = ''--servers'' then
        (case argv of [] \<Rightarrow> (False, c)
         | v # argv' \<Rightarrow>
             (case parseNeighborServers v c of
                (ok, c') \<Rightarrow> if ok then parseArgs argv' c' else (False, c')))
      else if arg = ''--db'' then
        (case argv of [] \<Rightarrow> (False, c) | v # argv' \<Rightarrow> parseArgs argv' (c\<lparr>DB_PATH := v\<rparr>))
      else if arg = ''--test'' then parseArgs argv (c\<lparr>TEST_MODE := True\<rparr>)
      else (False, c))"

declare parseArgs.simps(2) [simp del]

section \<open>Ports\<close>

lemma parsePort_nonzero: "parsePort s = Some p \<Longrightarrow> p \<noteq> 0"
proof -
  have "(of_nat v :: u16) \<noteq> 0" if "v \<noteq> 0" "v \<le> 65535" for v
    using that nat_dvd_not_less [of v 65536] by (simp add: word_of_nat_eq_0_iff)
  then show "parsePort s = Some p \<Longrightarrow> p \<noteq> 0"
    by (auto simp: parsePort_def not_less split: option.splits if_splits)
qed

lemma parsePort_print: "p \<noteq> 0 \<Longrightarrow> parsePort (nat_to_string (unat p)) = Some p"
proof -
  assume "p \<noteq> 0"
  moreover have "unat p < 65536" using unsigned_less [of p] by simp
  moreover from this have "std_stoul (nat_to_string (unat p)) = Some (unat p)"
    by (intro std_stoul_nat) simp
  ultimately show ?thesis by (simp add: parsePort_def unat_eq_0)
qed

section \<open>The settings invariant\<close>

definition points_ok :: "string \<Rightarrow> u16 \<Rightarrow> ServerPoint list \<Rightarrow> bool" where
  "points_ok host port ps \<longleftrightarrow> distinct ps \<and> \<lparr>sp_host = host, sp_port = port\<rparr> \<notin> set ps \<and>
     (\<forall>p\<in>set ps. sp_host p \<noteq> [] \<and> sp_port p \<noteq> 0)"

definition config_ok :: "config \<Rightarrow> bool" where
  "config_ok c \<longleftrightarrow> PORT c \<noteq> 0 \<and> WS_PORT c \<noteq> 0 \<and> PEER_PORT c \<noteq> 0 \<and> [] \<notin> set (PEERS c) \<and>
     points_ok (SERVER_HOST c) (PORT c) (NEIGHBOR_SERVERS c)"

lemma erase_point_remove1: "erase_point h p ps = remove1 \<lparr>sp_host = h, sp_port = p\<rparr> ps"
  by (induction ps) auto

lemma removeNeighborServer_simps [simp]:
  "NEIGHBOR_SERVERS (removeNeighborServer h p c) = remove1 \<lparr>sp_host = h, sp_port = p\<rparr> (NEIGHBOR_SERVERS c)"
  "PORT (removeNeighborServer h p c) = PORT c" "WS_PORT (removeNeighborServer h p c) = WS_PORT c"
  "PEER_PORT (removeNeighborServer h p c) = PEER_PORT c" "PEERS (removeNeighborServer h p c) = PEERS c"
  "SERVER_HOST (removeNeighborServer h p c) = SERVER_HOST c"
  by (simp_all add: removeNeighborServer_def erase_point_remove1)

lemma points_ok_Nil [simp]: "points_ok h p []"
  by (simp add: points_ok_def)

lemma points_ok_move:
  "points_ok h p ps \<Longrightarrow> points_ok h' p' (remove1 \<lparr>sp_host = h', sp_port = p'\<rparr> ps)"
  by (auto simp: points_ok_def dest: notin_set_remove1)

lemma points_ok_push:
  assumes "points_ok h p ps" and "h' \<noteq> []" and "p' \<noteq> 0" and "\<not> (h' = h \<and> p' = p)"
  shows "points_ok h p (remove1 \<lparr>sp_host = h', sp_port = p'\<rparr> ps @ [\<lparr>sp_host = h', sp_port = p'\<rparr>])"
  using assms by (auto simp: points_ok_def dest: notin_set_remove1)

lemma config_ok_default: "config_ok default_config"
  by (simp add: config_ok_def default_config_def)

lemma config_ok_neighbor_items: "config_ok c \<Longrightarrow> config_ok (snd (neighbor_items items c))"
proof (induction items c rule: neighbor_items.induct)
  case (2 item items c)
  show ?case
  proof (cases "item = []")
    case True
    then show ?thesis using 2 by simp
  next
    case False
    have clear: "config_ok (c\<lparr>NEIGHBOR_SERVERS := []\<rparr>)"
      using "2.prems" by (simp add: config_ok_def)
    have push: "config_ok (c\<lparr>NEIGHBOR_SERVERS :=
        remove1 \<lparr>sp_host = h, sp_port = p\<rparr> (NEIGHBOR_SERVERS c) @ [\<lparr>sp_host = h, sp_port = p\<rparr>]\<rparr>)"
      if "h \<noteq> []" "p \<noteq> 0" "\<not> (h = SERVER_HOST c \<and> p = PORT c)" for h p
      using "2.prems" points_ok_push that by (simp add: config_ok_def)
    have upd: "removeNeighborServer h p c\<lparr>NEIGHBOR_SERVERS := ps\<rparr> = c\<lparr>NEIGHBOR_SERVERS := ps\<rparr>" for h p ps
      by (simp add: removeNeighborServer_def)
    show ?thesis
      using False clear "2.IH" "2.prems" push parsePort_nonzero
      by (auto simp: Let_def upd substr_def split: option.split)
  qed
qed simp

lemma config_ok_parseNeighborServers:
  assumes "config_ok c" shows "config_ok (snd (parseNeighborServers text c))"
proof -
  have "config_ok (c\<lparr>NEIGHBOR_SERVERS := []\<rparr>)" using assms by (simp add: config_ok_def)
  then show ?thesis by (simp add: parseNeighborServers_def config_ok_neighbor_items)
qed

lemma config_ok_updates:
  assumes "config_ok c"
  shows "config_ok (c\<lparr>NODE_ID := s\<rparr>)" "config_ok (c\<lparr>DB_PATH := s\<rparr>)" "config_ok (c\<lparr>TEST_MODE := b\<rparr>)"
    "config_ok (parsePeers s c)"
    "p \<noteq> 0 \<Longrightarrow> config_ok (c\<lparr>WS_PORT := p\<rparr>)" "p \<noteq> 0 \<Longrightarrow> config_ok (c\<lparr>PEER_PORT := p\<rparr>)"
    "config_ok (removeNeighborServer s (PORT c) (c\<lparr>SERVER_HOST := s\<rparr>))"
    "p \<noteq> 0 \<Longrightarrow> config_ok (removeNeighborServer (SERVER_HOST c) p (c\<lparr>PORT := p\<rparr>))"
  using assms by (auto simp: config_ok_def parsePeers_def intro: points_ok_move)

text \<open>One rule per construct of the option loop.\<close>

abbreviation result_ok :: "bool \<times> config \<Rightarrow> bool" where "result_ok r \<equiv> config_ok (snd r)"

lemma result_ok_intros:
  "config_ok c \<Longrightarrow> result_ok (b, c)"
  "(q \<Longrightarrow> result_ok x) \<Longrightarrow> (\<not> q \<Longrightarrow> result_ok y) \<Longrightarrow> result_ok (if q then x else y)"
  "result_ok x \<Longrightarrow> (\<And>v vs. argv = v # vs \<Longrightarrow> result_ok (f v vs)) \<Longrightarrow>
   result_ok (case argv of [] \<Rightarrow> x | v # vs \<Rightarrow> f v vs)"
  "result_ok x \<Longrightarrow> (\<And>p. p \<noteq> 0 \<Longrightarrow> result_ok (g p)) \<Longrightarrow>
   result_ok (case parsePort s of None \<Rightarrow> x | Some p \<Rightarrow> g p)"
  "config_ok c \<Longrightarrow> (\<And>ok c'. config_ok c' \<Longrightarrow> result_ok (h ok c')) \<Longrightarrow>
   result_ok (case parseNeighborServers s c of (ok, c') \<Rightarrow> h ok c')"
  using config_ok_parseNeighborServers [of c s]
  by (auto split: list.split option.split prod.split dest: parsePort_nonzero)

lemma config_ok_parseArgs: "config_ok c \<Longrightarrow> config_ok (snd (parseArgs argv c))"
proof (induction argv arbitrary: c rule: length_induct)
  case (1 argv)
  have IH: "result_ok (parseArgs as d)" if "length as < length argv" "config_ok d" for as d
    using 1 that by blast
  show ?case
  proof (cases argv)
    case Nil
    then show ?thesis using 1 by simp
  next
    case (Cons arg as)
    show ?thesis
      unfolding Cons parseArgs.simps
      by (intro result_ok_intros IH config_ok_updates 1; simp add: Cons "1.prems")
  qed
qed

end
