(* ===== verification/Format_Theorems.thy ===== *)
theory Format_Theorems
  imports Socket_IO Gossip_Payload Config
begin

text \<open>
  What the wire format, the text formats and the command line promise, as statements about the code's
  own functions.
\<close>

section \<open>Packets on a socket\<close>

text \<open>The read loop every connection handler runs: \<open>readPacket\<close> until it fails, here \<open>k\<close> times.\<close>

primrec readPackets :: "nat \<Rightarrow> chunks \<Rightarrow> (packet list \<times> chunks) option" where
  "readPackets 0 cs = Some ([], cs)"
| "readPackets (Suc k) cs =
     (case readPacket cs of
        None \<Rightarrow> None
      | Some (p, cs1) \<Rightarrow>
          (case readPackets k cs1 of None \<Rightarrow> None | Some (ps, cs2) \<Rightarrow> Some (p # ps, cs2)))"

lemma readPacket_frame:
  assumes "stream cs" and "sendable p" and "concat cs = serialize p @ rest"
  shows "\<exists>cs'. readPacket cs = Some (p, cs') \<and> stream cs' \<and> concat cs' = rest"
  using readPacket_get_frame [OF assms(1)] frames.get_put [OF assms(2), of rest] assms(3) by simp

text \<open>C30: a frame is decoded to a packet exactly when it is that packet's serialization: nothing is
  lost or invented on the wire, and every accepted frame is the canonical one.\<close>

theorem packet_wire_format:
  "deserialize b = Some p \<longleftrightarrow> sendable p \<and> b = serialize p"
  by (auto simp: deserialize_put dest: deserialize_sound)

text \<open>C7: packets written one after the other are read back in order from the other end of the
  connection, however the network splits the byte stream into chunks, and the bytes after them are
  left for the next read.\<close>

theorem packets_survive_fragmentation:
  assumes "stream cs" and "\<forall>p\<in>set ps. sendable p" and "concat cs = concat (map serialize ps) @ rest"
  shows "\<exists>cs'. readPackets (length ps) cs = Some (ps, cs') \<and> stream cs' \<and> concat cs' = rest"
  using assms
proof (induction ps arbitrary: cs)
  case (Cons p ps)
  then obtain cs1 where "readPacket cs = Some (p, cs1)" "stream cs1" "concat cs1 = concat (map serialize ps) @ rest"
    using readPacket_frame [of cs p "concat (map serialize ps) @ rest"] by auto
  then show ?case using Cons.IH [of cs1] Cons.prems by auto
qed simp

lemma emptyPacket_sendable: "sendable emptyPacket"
  by (simp add: sendable_def length_serializePayload emptyPacket_def MAX_PAYLOAD_BYTES_def isValidPacketType_iff)

theorem packets_survive_fragmentation_witness:
  "\<exists>cs'. readPackets (length [emptyPacket, emptyPacket])
      (map (\<lambda>c. [c]) (serialize emptyPacket @ serialize emptyPacket)) = Some ([emptyPacket, emptyPacket], cs') \<and>
    stream cs' \<and> concat cs' = []"
proof (rule packets_survive_fragmentation)
  have "concat (map (\<lambda>c. [c]) s) = s" for s :: string by (induction s) auto
  then show "concat (map (\<lambda>c. [c]) (serialize emptyPacket @ serialize emptyPacket)) =
      concat (map serialize [emptyPacket, emptyPacket]) @ []" by (simp only: list.map concat.simps append_Nil2)
qed (auto simp: emptyPacket_sendable)

section \<open>The command line\<close>

text \<open>C40: whatever the arguments, and also when parsing stops at an error, the settings are usable: no
  port is zero, peer addresses are not empty, and the failover list has no duplicates, no empty
  host and never the server itself.\<close>

theorem command_line_settings_ok:
  "config_ok (snd (parseArgs argv default_config))"
  by (intro config_ok_parseArgs config_ok_default)

text \<open>The browser port cannot be set to zero on the command line, although the settings file
  documents zero as the way to ask for an ephemeral port.\<close>

theorem ws_port_zero_refused:
  "parseArgs [''--ws-port'', ''0''] c = (False, c)"
  by (simp add: parseArgs.simps parsePort_def std_stoul_def parse_unsigned_def scan_number_def Let_def
      is_space_def is_digit_def digits_val_def)

end
