(* ===== verification/Database.thy ===== *)
theory Database
  imports Config
begin

text \<open>
  src/auth/authentication.cpp and src/server/database_manager.cpp.

  The tables of init.sql are lists of row records in rowid order. Each file of src/database/queries
  is one definition named \<open>sql_...\<close>: a \<open>SELECT\<close> maps the database to the text rows
  \<open>sqlite3_column_text\<close> delivers, a changing statement maps it to either the message of an
  \<open>SQLITE_CONSTRAINT\<close> failure or the number of changed rows and the new database. \<open>query\<close> and
  \<open>execute\<close> run them under the exceptions of the C++ code. SQLite is not part of the program; what
  is used of it is its documented behaviour: uniqueness, foreign keys (an \<open>OR IGNORE\<close> or
  \<open>OR REPLACE\<close> clause does not suppress them), \<open>AUTOINCREMENT\<close>, \<open>sqlite3_changes\<close>. The field
  \<open>db_faults\<close> is what SQLite answers to the next statements, in order: \<open>Some e\<close> for a disk or
  lock failure with message \<open>e\<close>, which may strike between the statements of one script, and
  \<open>None\<close> for a statement it executes; past its end every statement is executed. Argon2
  is a parameter.

  The invariant \<open>db_ok\<close> collects the constraints of the schema and the two seed rooms, and every
  operation keeps it, also when it throws; only a rename that a disk failure cuts in two does not.
\<close>

section \<open>Passwords\<close>

datatype argon2_rc = ARGON2_OK | ARGON2_VERIFY_MISMATCH | ARGON2_OTHER

record argon2 =
  argon2id_hash_encoded :: "string \<Rightarrow> string \<Rightarrow> string + string"
  argon2id_verify :: "string \<Rightarrow> string \<Rightarrow> argon2_rc"

definition kSaltLen :: nat where "kSaltLen = 16"

text \<open>The bytes before the first NUL, as a C string holds them.\<close>

definition c_str :: "string \<Rightarrow> string" where
  "c_str s = takeWhile (\<lambda>c. c \<noteq> CHR 0x00) s"

definition hashPassword :: "argon2 \<Rightarrow> string \<Rightarrow> string \<Rightarrow> exn + string" where
  "hashPassword A salt password =
     (case argon2id_hash_encoded A password salt of
        Inl msg \<Rightarrow> Inl (RuntimeError msg)
      | Inr encoded \<Rightarrow> Inr (c_str encoded))"

definition checkPassword :: "argon2 \<Rightarrow> string \<Rightarrow> string \<Rightarrow> bool" where
  "checkPassword A password hash =
     (let rc = argon2id_verify A (c_str hash) password in
      if rc = ARGON2_OK then True
      else if rc = ARGON2_VERIFY_MISMATCH then False
      else hash = password)"

section \<open>Tables\<close>

record user_row =
  ur_username :: string
  ur_email :: string
  ur_password :: string
  ur_type :: string

record room_row =
  rr_id :: int
  rr_name :: string
  rr_type :: string
  rr_privacy :: string

record message_row =
  mr_id :: string
  mr_room :: int
  mr_username :: string
  mr_email :: string
  mr_content :: string
  mr_created :: int
  mr_origin :: string

record membership_row =
  ms_username :: string
  ms_room :: int
  ms_node :: string

record online_row =
  on_username :: string
  on_node :: string

record allow_row =
  al_room :: int
  al_email :: string
  al_creator :: bool

record db =
  t_users :: "user_row list"
  t_rooms :: "room_row list"
  t_room_seq :: int
  t_messages :: "message_row list"
  t_membership :: "membership_row list"
  t_online :: "online_row list"
  t_allow :: "allow_row list"
  fk_on :: bool
  db_faults :: "string option list"

type_synonym sql_select = "db \<Rightarrow> string list list"
type_synonym sql_stmt = "db \<Rightarrow> string + nat \<times> db"

definition FK_FAILED :: string where "FK_FAILED = ''FOREIGN KEY constraint failed''"

definition user_type_check :: "string \<Rightarrow> bool" where
  "user_type_check t \<longleftrightarrow> t \<in> set [''ADMIN'', ''USER'', ''GUEST'']"

definition room_type_check :: "string \<Rightarrow> bool" where
  "room_type_check t \<longleftrightarrow> t \<in> set [''R&D'', ''Production'', ''QA'', ''DevOps'', ''Security'', ''Design'',
     ''Marketing'', ''HR'', ''Finance'', ''Legal'', ''Customer Support'', ''Other'', ''Lobby'']"

definition privacy_check :: "string \<Rightarrow> bool" where
  "privacy_check p \<longleftrightarrow> p \<in> set [''PUBLIC'', ''PRIVATE'']"

section \<open>Statements\<close>

definition sql_get_user :: "string \<Rightarrow> sql_select" where
  "sql_get_user u d =
     map (\<lambda>r. [ur_username r, ur_email r, ur_type r]) (filter (\<lambda>r. ur_username r = u) (t_users d))"

definition sql_user_exists :: "string \<Rightarrow> sql_select" where
  "sql_user_exists u d = take 1 (map (\<lambda>r. [''1'']) (filter (\<lambda>r. ur_username r = u) (t_users d)))"

definition sql_login_user :: "string \<Rightarrow> sql_select" where
  "sql_login_user u d =
     map (\<lambda>r. [ur_username r, ur_email r, ur_type r, ur_password r])
       (filter (\<lambda>r. ur_username r = u) (t_users d))"

text \<open>The message of the failed constraint is replaced by the caller.\<close>

definition sql_create_user :: "string \<Rightarrow> string \<Rightarrow> string \<Rightarrow> string \<Rightarrow> sql_stmt" where
  "sql_create_user u e p t d =
     (if (\<exists>r\<in>set (t_users d). ur_username r = u \<or> ur_email r = e) \<or> \<not> user_type_check t
      then Inl ''constraint failed: users''
      else Inr (1, d\<lparr>t_users := t_users d @
             [\<lparr>ur_username = u, ur_email = e, ur_password = p, ur_type = t\<rparr>]\<rparr>))"

definition sql_update_user_password :: "string \<Rightarrow> string \<Rightarrow> sql_stmt" where
  "sql_update_user_password p u d =
     Inr (length (filter (\<lambda>r. ur_username r = u) (t_users d)),
       d\<lparr>t_users := map (\<lambda>r. if ur_username r = u then r\<lparr>ur_password := p\<rparr> else r) (t_users d)\<rparr>)"

text \<open>update_user.sql holds four statements.\<close>

definition sql_rename_users :: "string \<Rightarrow> string \<Rightarrow> sql_stmt" where
  "sql_rename_users new old d =
     (let hit = filter (\<lambda>r. ur_username r = old) (t_users d) in
      if hit \<noteq> [] \<and> new \<noteq> old \<and> (\<exists>r\<in>set (t_users d). ur_username r = new)
      then Inl ''UNIQUE constraint failed: users.username''
      else if hit \<noteq> [] \<and> new \<noteq> old \<and> fk_on d \<and> (\<exists>m\<in>set (t_membership d). ms_username m = old)
      then Inl FK_FAILED
      else Inr (length hit,
        d\<lparr>t_users := map (\<lambda>r. if ur_username r = old then r\<lparr>ur_username := new\<rparr> else r) (t_users d)\<rparr>))"

definition sql_rename_membership :: "string \<Rightarrow> string \<Rightarrow> sql_stmt" where
  "sql_rename_membership new old d =
     (let hit = filter (\<lambda>m. ms_username m = old) (t_membership d) in
      if new \<noteq> old \<and> (\<exists>m\<in>set hit. \<exists>k\<in>set (t_membership d). ms_username k = new \<and> ms_room k = ms_room m)
      then Inl ''UNIQUE constraint failed: membership.username, membership.room_id''
      else if hit \<noteq> [] \<and> fk_on d \<and> \<not> (\<exists>r\<in>set (t_users d). ur_username r = new)
      then Inl FK_FAILED
      else Inr (length hit,
        d\<lparr>t_membership :=
            map (\<lambda>m. if ms_username m = old then m\<lparr>ms_username := new\<rparr> else m) (t_membership d)\<rparr>))"

definition sql_rename_online :: "string \<Rightarrow> string \<Rightarrow> sql_stmt" where
  "sql_rename_online new old d =
     (let hit = filter (\<lambda>r. on_username r = old) (t_online d) in
      if hit \<noteq> [] \<and> new \<noteq> old \<and> (\<exists>r\<in>set (t_online d). on_username r = new)
      then Inl ''UNIQUE constraint failed: online_users.username''
      else Inr (length hit,
        d\<lparr>t_online := map (\<lambda>r. if on_username r = old then r\<lparr>on_username := new\<rparr> else r) (t_online d)\<rparr>))"

definition sql_rename_messages :: "string \<Rightarrow> string \<Rightarrow> sql_stmt" where
  "sql_rename_messages new old d =
     Inr (length (filter (\<lambda>m. mr_username m = old) (t_messages d)),
       d\<lparr>t_messages := map (\<lambda>m. if mr_username m = old then m\<lparr>mr_username := new\<rparr> else m) (t_messages d)\<rparr>)"

definition sql_update_user :: "string \<Rightarrow> string \<Rightarrow> sql_stmt list" where
  "sql_update_user new old =
     [sql_rename_users new old, sql_rename_membership new old, sql_rename_online new old,
      sql_rename_messages new old]"

definition has_room :: "db \<Rightarrow> int \<Rightarrow> bool" where
  "has_room d i \<longleftrightarrow> i \<in> rr_id ` set (t_rooms d)"

definition has_email :: "db \<Rightarrow> string \<Rightarrow> bool" where
  "has_email d e \<longleftrightarrow> e \<in> ur_email ` set (t_users d)"

definition has_username :: "db \<Rightarrow> string \<Rightarrow> bool" where
  "has_username d u \<longleftrightarrow> u \<in> ur_username ` set (t_users d)"

definition sql_save_message :: "message_row \<Rightarrow> sql_stmt" where
  "sql_save_message m d =
     (if \<exists>r\<in>set (t_messages d). mr_id r = mr_id m then Inr (0, d)
      else if fk_on d \<and> \<not> (has_room d (mr_room m) \<and> has_email d (mr_email m)) then Inl FK_FAILED
      else Inr (1, d\<lparr>t_messages := t_messages d @ [m]\<rparr>))"

text \<open>\<open>COALESCE(u.user_type, 'GUEST')\<close> over the left join.\<close>

definition joined_type :: "db \<Rightarrow> string \<Rightarrow> string" where
  "joined_type d e =
     (case find (\<lambda>r. ur_email r = e) (t_users d) of Some r \<Rightarrow> ur_type r | None \<Rightarrow> ''GUEST'')"

definition sql_load_history :: "int \<Rightarrow> sql_select" where
  "sql_load_history room d =
     map (\<lambda>m. [mr_id m, mr_username m, mr_content m, int_to_string (mr_created m), mr_email m,
               joined_type d (mr_email m)])
       (take 100 (sort_key (\<lambda>m. - mr_created m) (filter (\<lambda>m. mr_room m = room) (t_messages d))))"

definition sql_set_membership :: "string \<Rightarrow> int \<Rightarrow> string \<Rightarrow> sql_stmt" where
  "sql_set_membership u i n d =
     (if fk_on d \<and> \<not> (has_username d u \<and> has_room d i) then Inl FK_FAILED
      else Inr (1, d\<lparr>t_membership :=
        filter (\<lambda>m. \<not> (ms_username m = u \<and> ms_room m = i)) (t_membership d) @
        [\<lparr>ms_username = u, ms_room = i, ms_node = n\<rparr>]\<rparr>))"

definition sql_clear_membership :: "string \<Rightarrow> int \<Rightarrow> sql_stmt" where
  "sql_clear_membership u i d =
     (let gone = (\<lambda>m. ms_username m = u \<and> ms_room m = i) in
      Inr (length (filter gone (t_membership d)),
        d\<lparr>t_membership := filter (\<lambda>m. \<not> gone m) (t_membership d)\<rparr>))"

definition sql_clear_all_membership :: "string \<Rightarrow> sql_stmt" where
  "sql_clear_all_membership u d =
     Inr (length (filter (\<lambda>m. ms_username m = u) (t_membership d)),
       d\<lparr>t_membership := filter (\<lambda>m. ms_username m \<noteq> u) (t_membership d)\<rparr>)"

definition sql_move_membership :: "string \<Rightarrow> string \<Rightarrow> sql_stmt" where
  "sql_move_membership n u d =
     Inr (length (filter (\<lambda>m. ms_username m = u) (t_membership d)),
       d\<lparr>t_membership := map (\<lambda>m. if ms_username m = u then m\<lparr>ms_node := n\<rparr> else m) (t_membership d)\<rparr>)"

definition sql_membership_node :: "string \<Rightarrow> int \<Rightarrow> sql_select" where
  "sql_membership_node u i d =
     take 1 (map (\<lambda>m. [ms_node m]) (filter (\<lambda>m. ms_username m = u \<and> ms_room m = i) (t_membership d)))"

definition sql_is_user_online :: "string \<Rightarrow> sql_select" where
  "sql_is_user_online u d = take 1 (map (\<lambda>r. [''1'']) (filter (\<lambda>r. on_username r = u) (t_online d)))"

definition sql_get_online_node :: "string \<Rightarrow> sql_select" where
  "sql_get_online_node u d =
     take 1 (map (\<lambda>r. [on_node r]) (filter (\<lambda>r. on_username r = u) (t_online d)))"

definition sql_set_online :: "string \<Rightarrow> string \<Rightarrow> sql_stmt" where
  "sql_set_online u n d =
     Inr (1, d\<lparr>t_online := filter (\<lambda>r. on_username r \<noteq> u) (t_online d) @
               [\<lparr>on_username = u, on_node = n\<rparr>]\<rparr>)"

definition sql_clear_online :: "string \<Rightarrow> sql_stmt" where
  "sql_clear_online u d =
     Inr (length (filter (\<lambda>r. on_username r = u) (t_online d)),
       d\<lparr>t_online := filter (\<lambda>r. on_username r \<noteq> u) (t_online d)\<rparr>)"

definition sql_clear_node_presence :: "string \<Rightarrow> sql_stmt" where
  "sql_clear_node_presence n d =
     Inr (length (filter (\<lambda>r. on_node r = n) (t_online d)),
       d\<lparr>t_online := filter (\<lambda>r. on_node r \<noteq> n) (t_online d)\<rparr>)"

text \<open>\<open>sqlite_sequence\<close> gives the next id of the \<open>AUTOINCREMENT\<close> column.\<close>

definition sql_create_room :: "string \<Rightarrow> string \<Rightarrow> string \<Rightarrow> sql_stmt" where
  "sql_create_room name type privacy d =
     (if (\<exists>r\<in>set (t_rooms d). rr_name r = name) \<or> \<not> room_type_check type \<or> \<not> privacy_check privacy
      then Inl ''constraint failed: rooms''
      else let i = t_room_seq d + 1 in
        Inr (1, d\<lparr>t_rooms := t_rooms d @
               [\<lparr>rr_id = i, rr_name = name, rr_type = type, rr_privacy = privacy\<rparr>],
               t_room_seq := i\<rparr>))"

definition room_cells :: "room_row \<Rightarrow> string list" where
  "room_cells r = [int_to_string (rr_id r), rr_name r, rr_type r, rr_privacy r]"

definition sql_get_room :: "int \<Rightarrow> sql_select" where
  "sql_get_room i d = map room_cells (filter (\<lambda>r. rr_id r = i) (t_rooms d))"

definition sql_list_rooms :: sql_select where
  "sql_list_rooms d = map room_cells (t_rooms d)"

text \<open>delete_room.sql holds four statements.\<close>

definition sql_delete_room :: "int \<Rightarrow> sql_stmt list" where
  "sql_delete_room i =
     [\<lambda>d. Inr (length (filter (\<lambda>a. al_room a = i) (t_allow d)),
        d\<lparr>t_allow := filter (\<lambda>a. al_room a \<noteq> i) (t_allow d)\<rparr>),
      \<lambda>d. Inr (length (filter (\<lambda>m. ms_room m = i) (t_membership d)),
        d\<lparr>t_membership := filter (\<lambda>m. ms_room m \<noteq> i) (t_membership d)\<rparr>),
      \<lambda>d. Inr (length (filter (\<lambda>m. mr_room m = i) (t_messages d)),
        d\<lparr>t_messages := filter (\<lambda>m. mr_room m \<noteq> i) (t_messages d)\<rparr>),
      \<lambda>d. if fk_on d \<and> has_room d i \<and>
              (i \<in> al_room ` set (t_allow d) \<or> i \<in> ms_room ` set (t_membership d) \<or>
               i \<in> mr_room ` set (t_messages d))
          then Inl FK_FAILED
          else Inr (length (filter (\<lambda>r. rr_id r = i) (t_rooms d)),
            d\<lparr>t_rooms := filter (\<lambda>r. rr_id r \<noteq> i) (t_rooms d)\<rparr>)]"

definition sql_get_allow_list :: "int \<Rightarrow> sql_select" where
  "sql_get_allow_list i d = map (\<lambda>a. [al_email a]) (filter (\<lambda>a. al_room a = i) (t_allow d))"

definition sql_is_allowed :: "int \<Rightarrow> string \<Rightarrow> sql_select" where
  "sql_is_allowed i e d =
     map (\<lambda>a. [''1'']) (filter (\<lambda>a. al_room a = i \<and> al_email a = e) (t_allow d))"

definition sql_is_allow_list_creator :: "int \<Rightarrow> string \<Rightarrow> sql_select" where
  "sql_is_allow_list_creator i e d =
     map (\<lambda>a. [''1'']) (filter (\<lambda>a. al_room a = i \<and> al_email a = e \<and> al_creator a) (t_allow d))"

definition sql_add_user_allow_list :: "int \<Rightarrow> string \<Rightarrow> bool \<Rightarrow> sql_stmt" where
  "sql_add_user_allow_list i e c d =
     (if \<exists>a\<in>set (t_allow d). al_room a = i \<and> al_email a = e then Inr (0, d)
      else if fk_on d \<and> \<not> (has_room d i \<and> has_email d e) then Inl FK_FAILED
      else Inr (1, d\<lparr>t_allow := t_allow d @ [\<lparr>al_room = i, al_email = e, al_creator = c\<rparr>]\<rparr>))"

definition sql_remove_user_allow_list :: "int \<Rightarrow> string \<Rightarrow> sql_stmt" where
  "sql_remove_user_allow_list i e d =
     (let gone = (\<lambda>a. al_room a = i \<and> al_email a = e) in
      Inr (length (filter gone (t_allow d)), d\<lparr>t_allow := filter (\<lambda>a. \<not> gone a) (t_allow d)\<rparr>))"

section \<open>Text without NUL bytes\<close>

abbreviation nul_free :: "string \<Rightarrow> bool" where "nul_free s \<equiv> CHR 0x00 \<notin> set s"

lemma c_str_id [simp]: "nul_free s \<Longrightarrow> c_str s = s"
  unfolding c_str_def by (rule takeWhile_eq_all_conv [THEN iffD2]) auto

lemma c_str_nul_free [simp]: "nul_free (c_str s)"
  unfolding c_str_def by (auto dest: set_takeWhileD)

lemma int_to_string_nul_free [simp]: "nul_free (int_to_string i)"
  by (rule int_to_string_clean) (simp_all add: is_digit_def)

end
