(* ===== verification/Database_Manager.thy ===== *)
theory Database_Manager
  imports Database
begin

text \<open>
  The operations of src/server/database_manager.cpp over the statements of \<open>Database\<close>, and the
  invariant of the stored data. An operation is a computation over \<open>db\<close> that may throw.
\<close>

section \<open>Running statements\<close>

text \<open>What becomes of the next statement: \<open>Some e\<close> when SQLite cannot execute it.\<close>

definition statement_outcome :: "(db, string option) mon" where
  "statement_outcome = (\<lambda>d.
     case db_faults d of [] \<Rightarrow> (Inr None, d) | f # fs \<Rightarrow> (Inr f, d\<lparr>db_faults := fs\<rparr>))"

lemma statement_outcome_ready [simp]: "db_faults d = [] \<Longrightarrow> statement_outcome d = (Inr None, d)"
  by (simp add: statement_outcome_def)

lemma statement_outcome_next [simp]: "db_faults d = f # fs \<Longrightarrow> statement_outcome d = (Inr f, d\<lparr>db_faults := fs\<rparr>)"
  by (simp add: statement_outcome_def)

text \<open>\<open>sqlite3_exec\<close> of a \<open>PRAGMA foreign_keys\<close> switch.\<close>

definition exec_foreign_keys :: "bool \<Rightarrow> (db, unit) mon" where
  "exec_foreign_keys b =
     bindM statement_outcome (\<lambda>f. case f of
        Some e \<Rightarrow> throwM (RuntimeError (''Failed to execute SQL statement: '' @ e))
      | None \<Rightarrow> modifyM (\<lambda>d. d\<lparr>fk_on := b\<rparr>))"

definition query :: "sql_select \<Rightarrow> (db, string list list) mon" where
  "query sel =
     bindM statement_outcome (\<lambda>f. case f of
        Some e \<Rightarrow> throwM (RuntimeError (''Failed to step SQL: '' @ e))
      | None \<Rightarrow> getsM (\<lambda>d. map (map c_str) (sel d)))"

text \<open>One statement, then the loop of \<open>execute\<close>: the result is the change count of the last one, and
  an error leaves the effects of the statements before it.\<close>

definition step_stmt :: "sql_stmt \<Rightarrow> (db, nat) mon" where
  "step_stmt st =
     bindM statement_outcome (\<lambda>f. case f of
       Some e \<Rightarrow> throwM (RuntimeError (''Failed to step SQL: '' @ e))
     | None \<Rightarrow> (\<lambda>d.
         case st d of Inl msg \<Rightarrow> (Inl (ConstraintError msg), d) | Inr (n, d') \<Rightarrow> (Inr n, d')))"

lemma step_stmt_ready:
  "db_faults d = [] \<Longrightarrow>
    step_stmt st d = (case st d of Inl msg \<Rightarrow> (Inl (ConstraintError msg), d) | Inr (n, d') \<Rightarrow> (Inr n, d'))"
  by (simp add: step_stmt_def bindM_run)

fun execute_from :: "nat \<Rightarrow> sql_stmt list \<Rightarrow> (db, nat) mon" where
  "execute_from changes [] = returnM changes"
| "execute_from changes (st # sts) = bindM (step_stmt st) (\<lambda>n. execute_from n sts)"

definition execute :: "sql_stmt list \<Rightarrow> (db, nat) mon" where
  "execute sts = execute_from 0 sts"

definition run_sql :: "sql_stmt list \<Rightarrow> (db, unit) mon" where
  "run_sql sts = thenM (execute sts) (returnM ())"

section \<open>Rows\<close>

definition liftE :: "exn + 'a \<Rightarrow> ('s, 'a) mon" where
  "liftE r = (case r of Inl e \<Rightarrow> throwM e | Inr a \<Rightarrow> returnM a)"

definition userFromRow :: "string list \<Rightarrow> exn + user" where
  "userFromRow row =
     (if length row < 3 then Inl (RuntimeError ''users row is missing columns'')
      else Inr \<lparr>u_username = row ! 0, u_email = row ! 1, u_type = stringToType (row ! 2)\<rparr>)"

definition roomFromRow :: "string list \<Rightarrow> exn + room" where
  "roomFromRow row =
     (if length row < 4 then Inl (RuntimeError ''rooms row is missing columns'')
      else case std_stoi (row ! 0) of
        None \<Rightarrow> Inl (RuntimeError ''invalid rooms.id value'')
      | Some i \<Rightarrow> Inr (mkRoom i (row ! 1) (stringToRoomType (row ! 2)) (stringToPrivacy (row ! 3))))"

definition messageFromRow :: "string list \<Rightarrow> exn + chat_message" where
  "messageFromRow row =
     (if length row < 6 then Inl (RuntimeError ''messages row is missing columns'')
      else case std_stoll (row ! 3) of
        None \<Rightarrow> Inl (RuntimeError ''invalid messages.created_at value'')
      | Some t \<Rightarrow>
          Inr \<lparr>m_from = \<lparr>u_username = row ! 1, u_email = row ! 4, u_type = stringToType (row ! 5)\<rparr>,
               m_to = \<lparr>u_username = [], u_email = [], u_type = GUEST\<rparr>,
               m_content = row ! 2, m_timestamp = t, m_id = row ! 0\<rparr>)"

text \<open>\<open>for (row : rows) out.push_back(parse(row))\<close>: the first row that throws ends the loop.\<close>

fun mapE :: "('a \<Rightarrow> exn + 'b) \<Rightarrow> 'a list \<Rightarrow> exn + 'b list" where
  "mapE f [] = Inr []"
| "mapE f (x # xs) =
     (case f x of
        Inl e \<Rightarrow> Inl e
      | Inr y \<Rightarrow> (case mapE f xs of Inl e \<Rightarrow> Inl e | Inr ys \<Rightarrow> Inr (y # ys)))"

section \<open>Users\<close>

definition getUser :: "string \<Rightarrow> (db, user option) mon" where
  "getUser username =
     bindM (query (sql_get_user username)) (\<lambda>rows.
       if rows = [] then returnM None
       else bindM (liftE (userFromRow (hd rows))) (\<lambda>u. returnM (Some u)))"

definition userExists :: "string \<Rightarrow> (db, bool) mon" where
  "userExists username =
     bindM (query (sql_user_exists username)) (\<lambda>rows. returnM (rows \<noteq> []))"

definition createUser :: "string \<Rightarrow> string \<Rightarrow> string \<Rightarrow> (db, user) mon" where
  "createUser username passwordHash email =
     thenM
       (catchM (run_sql [sql_create_user username email passwordHash (typeToString USER)])
         (\<lambda>e. case e of
            ConstraintError _ \<Rightarrow> throwM (ConstraintError ''User already exists'')
          | _ \<Rightarrow> throwM e))
       (returnM \<lparr>u_username = username, u_email = email, u_type = USER\<rparr>)"

definition updateUser ::
  "argon2 \<Rightarrow> string \<Rightarrow> string \<Rightarrow> string \<Rightarrow> string \<Rightarrow> string \<Rightarrow> (db, user) mon" where
  "updateUser A salt current desired newPassword email =
     bindM (getUser current) (\<lambda>existing.
     case existing of
       None \<Rightarrow> throwM (RuntimeError ''User not found'')
     | Some ex \<Rightarrow>
       if u_email ex \<noteq> email then throwM (RuntimeError ''Email does not match profile'')
       else if desired = [] then throwM (RuntimeError ''Username is required'')
       else
         bindM (if desired \<noteq> current then userExists desired else returnM False) (\<lambda>taken.
         if taken then throwM (ConstraintError ''Username already taken'')
         else
           thenM (whenM (newPassword \<noteq> [])
             (bindM (liftE (hashPassword A salt newPassword)) (\<lambda>passwordHash.
                run_sql [sql_update_user_password passwordHash current])))
          (thenM (whenM (desired \<noteq> current)
             (thenM (exec_foreign_keys False)
             (thenM
               (catchM (run_sql (sql_update_user desired current))
                 (\<lambda>e. thenM (exec_foreign_keys True) (throwM e)))
               (exec_foreign_keys True))))
          (bindM (getUser desired) (\<lambda>updated.
             case updated of
               None \<Rightarrow> throwM (RuntimeError ''User missing after update'')
             | Some u \<Rightarrow> returnM u)))))"

definition loginUser :: "argon2 \<Rightarrow> string \<Rightarrow> string \<Rightarrow> (db, string + user) mon" where
  "loginUser A username password =
     bindM (query (sql_login_user username)) (\<lambda>rows.
       if rows = [] \<or> length (hd rows) < 4 then returnM (Inl ''Invalid username or password'')
       else if \<not> checkPassword A password (hd rows ! 3) then returnM (Inl ''Invalid username or password'')
       else bindM (liftE (userFromRow (hd rows))) (\<lambda>u. returnM (Inr u)))"

section \<open>Messages\<close>

definition saveMessage :: "string \<Rightarrow> chat_message \<Rightarrow> int \<Rightarrow> (db, bool) mon" where
  "saveMessage nodeId msg roomId =
     bindM (execute [sql_save_message
       \<lparr>mr_id = m_id msg, mr_room = roomId, mr_username = u_username (m_from msg),
        mr_email = u_email (m_from msg), mr_content = m_content msg, mr_created = m_timestamp msg,
        mr_origin = nodeId\<rparr>])
     (\<lambda>changes. returnM (changes > 0))"

definition loadHistory :: "int \<Rightarrow> (db, chat_message list) mon" where
  "loadHistory roomId =
     bindM (query (sql_load_history roomId)) (\<lambda>rows. liftE (mapE messageFromRow rows))"

section \<open>Membership and presence\<close>

definition setMembership :: "string \<Rightarrow> int \<Rightarrow> string \<Rightarrow> (db, unit) mon" where
  "setMembership username roomId nodeId = run_sql [sql_set_membership username roomId nodeId]"

definition clearMembership :: "string \<Rightarrow> int \<Rightarrow> (db, unit) mon" where
  "clearMembership username roomId = run_sql [sql_clear_membership username roomId]"

definition isUserOnline :: "string \<Rightarrow> (db, bool) mon" where
  "isUserOnline username =
     bindM (query (sql_is_user_online username)) (\<lambda>rows. returnM (rows \<noteq> []))"

definition first_cell :: "string list list \<Rightarrow> string option" where
  "first_cell rows = (if rows = [] \<or> hd rows = [] then None else Some (hd (hd rows)))"

definition onlineNode :: "string \<Rightarrow> (db, string option) mon" where
  "onlineNode username =
     bindM (query (sql_get_online_node username)) (\<lambda>rows. returnM (first_cell rows))"

definition setOnline :: "string \<Rightarrow> string \<Rightarrow> (db, unit) mon" where
  "setOnline username nodeId = run_sql [sql_set_online username nodeId]"

definition clearOnline :: "string \<Rightarrow> (db, unit) mon" where
  "clearOnline username = run_sql [sql_clear_online username]"

definition clearNodePresence :: "string \<Rightarrow> (db, unit) mon" where
  "clearNodePresence nodeId = run_sql [sql_clear_node_presence nodeId]"

definition canClaimPresence :: "string \<Rightarrow> bool \<Rightarrow> (db, bool) mon" where
  "canClaimPresence username ownerIsLive =
     bindM (onlineNode username) (\<lambda>n. returnM (if n = None then False else \<not> ownerIsLive))"

definition moveMembership :: "string \<Rightarrow> string \<Rightarrow> (db, unit) mon" where
  "moveMembership username nodeId = run_sql [sql_move_membership nodeId username]"

definition membershipNode :: "string \<Rightarrow> int \<Rightarrow> (db, string option) mon" where
  "membershipNode username roomId =
     bindM (query (sql_membership_node username roomId)) (\<lambda>rows. returnM (first_cell rows))"

definition clearAllMembership :: "string \<Rightarrow> (db, unit) mon" where
  "clearAllMembership username = run_sql [sql_clear_all_membership username]"

section \<open>Allow lists and rooms\<close>

definition getAllowList :: "int \<Rightarrow> (db, string list) mon" where
  "getAllowList roomId =
     bindM (query (sql_get_allow_list roomId)) (\<lambda>rows. returnM (map hd (filter (\<lambda>r. r \<noteq> []) rows)))"

definition isAllowed :: "int \<Rightarrow> string \<Rightarrow> (db, bool) mon" where
  "isAllowed roomId email =
     bindM (query (sql_is_allowed roomId email)) (\<lambda>rows. returnM (rows \<noteq> []))"

definition isAllowListCreator :: "int \<Rightarrow> string \<Rightarrow> (db, bool) mon" where
  "isAllowListCreator roomId email =
     bindM (query (sql_is_allow_list_creator roomId email)) (\<lambda>rows. returnM (rows \<noteq> []))"

definition addToAllowList :: "int \<Rightarrow> string \<Rightarrow> bool \<Rightarrow> (db, unit) mon" where
  "addToAllowList roomId email creator = run_sql [sql_add_user_allow_list roomId email creator]"

definition removeFromAllowList :: "int \<Rightarrow> string \<Rightarrow> (db, unit) mon" where
  "removeFromAllowList roomId email = run_sql [sql_remove_user_allow_list roomId email]"

text \<open>\<open>createRoom\<close> steps the statement itself, so a failure has its own message. Room ids are integers
  without bound; the source narrows \<open>sqlite3_last_insert_rowid\<close> to \<open>int\<close>, which is the same for the
  first 2147483647 rooms.\<close>

definition insert_room :: "string \<Rightarrow> roomType \<Rightarrow> privacy \<Rightarrow> (db, room) mon" where
  "insert_room name type privacy =
     bindM statement_outcome (\<lambda>f. case f of
       Some e \<Rightarrow> throwM (RuntimeError (''Failed to create room: '' @ e))
     | None \<Rightarrow> (\<lambda>d.
         case sql_create_room name (roomTypeToString type) (privacyToString privacy) d of
            Inl _ \<Rightarrow> (Inl (ConstraintError ''Room already exists''), d)
          | Inr (_, d') \<Rightarrow> (Inr (mkRoom (t_room_seq d') name type privacy), d')))"

definition db_createRoom :: "string \<Rightarrow> roomType \<Rightarrow> privacy \<Rightarrow> string \<Rightarrow> (db, room) mon" where
  "db_createRoom name type privacy creatorEmail =
     bindM (insert_room name type privacy) (\<lambda>created.
       thenM (whenM (creatorEmail \<noteq> []) (addToAllowList (ro_id created) creatorEmail True))
         (returnM created))"

definition db_getRoom :: "int \<Rightarrow> (db, room) mon" where
  "db_getRoom i =
     bindM (query (sql_get_room i)) (\<lambda>rows.
       if rows = [] then throwM (RuntimeError ''Room not found'') else liftE (roomFromRow (hd rows)))"

definition db_listRooms :: "(db, room list) mon" where
  "db_listRooms = bindM (query sql_list_rooms) (\<lambda>rows. liftE (mapE roomFromRow rows))"

definition ping :: "(db, bool) mon" where
  "ping = catchM (thenM (query (\<lambda>_. [[''1'']])) (returnM True)) (\<lambda>_. returnM False)"

definition db_deleteRoom :: "int \<Rightarrow> (db, unit) mon" where
  "db_deleteRoom i =
     (if i < 3 then throwM (RuntimeError ''Cannot delete default rooms'')
      else bindM (execute (sql_delete_room i)) (\<lambda>changes.
        if changes = 0 then throwM (ConstraintError ''Room not found'') else returnM ()))"

section \<open>Opening the database\<close>

text \<open>The \<open>INSERT OR IGNORE\<close> statements of init.sql; a new file starts from empty tables.\<close>

definition empty_db :: db where
  "empty_db = \<lparr>t_users = [], t_rooms = [], t_room_seq = 0, t_messages = [], t_membership = [],
     t_online = [], t_allow = [], fk_on = False, db_faults = []\<rparr>"

definition seed_user :: "user_row \<Rightarrow> db \<Rightarrow> db" where
  "seed_user r d =
     (if (\<exists>x\<in>set (t_users d). ur_username x = ur_username r \<or> ur_email x = ur_email r) then d
      else d\<lparr>t_users := t_users d @ [r]\<rparr>)"

definition seed_room :: "room_row \<Rightarrow> db \<Rightarrow> db" where
  "seed_room r d =
     (if (\<exists>x\<in>set (t_rooms d). rr_id x = rr_id r \<or> rr_name x = rr_name r) then d
      else d\<lparr>t_rooms := t_rooms d @ [r], t_room_seq := max (t_room_seq d) (rr_id r)\<rparr>)"

definition lobby_row :: room_row where
  "lobby_row = \<lparr>rr_id = 1, rr_name = ''Lobby'', rr_type = ''Lobby'', rr_privacy = ''PUBLIC''\<rparr>"

definition general_row :: room_row where
  "general_row = \<lparr>rr_id = 2, rr_name = ''General'', rr_type = ''Other'', rr_privacy = ''PUBLIC''\<rparr>"

definition sql_init :: "db \<Rightarrow> db" where
  "sql_init d =
     seed_room general_row (seed_room lobby_row
       (seed_user \<lparr>ur_username = ''user'', ur_email = ''user@example.com'', ur_password =
         ''$argon2id$v=19$m=65536,t=2,p=1$YzNhRDrpnSIUHNq8i8F+TA$mfEvIQ4VZ9CS8cTIkloWsvMrUn07lezdSe0JsVRlOoA'',
         ur_type = ''USER''\<rparr>
       (seed_user \<lparr>ur_username = ''admin'', ur_email = ''admin@example.com'', ur_password =
         ''$argon2id$v=19$m=65536,t=2,p=1$Y1830LYD3RttWtQDzyPXsQ$IyxgOT8rTFYjURNB7+ujAqXEmnNmuPpuuEZ7q9lI1sI'',
         ur_type = ''ADMIN''\<rparr> d)))"

text \<open>The constructor, on the stored tables \<open>d\<close>; \<open>open_error\<close> is the message of a failed
  \<open>sqlite3_open\<close>.\<close>

definition open_database :: "string option \<Rightarrow> (db, unit) mon" where
  "open_database open_error =
     (case open_error of
        Some e \<Rightarrow> throwM (RuntimeError (''Failed to open database: '' @ e))
      | None \<Rightarrow> thenM (exec_foreign_keys True) (modifyM sql_init))"

end
