(* ===== verification/Machine.thy ===== *)
theory Machine
  imports Prelude
begin

text \<open>
  A component seen from outside: a state, the operations its callers may invoke (named by a datatype)
  and when the environment allows them. \<open>reach\<close> is the set of states some history leads to. The
  locale \<open>machine\<close> is the contract of a component whose operations all keep an invariant, also when
  they throw; \<open>total_machine\<close> adds that none throws. Clients use the consequences for whole
  histories. The database and the server node are interpretations.
\<close>

inductive reach :: "('e \<Rightarrow> 's \<Rightarrow> bool) \<Rightarrow> ('e \<Rightarrow> ('s, unit) mon) \<Rightarrow> 's \<Rightarrow> 's \<Rightarrow> bool"
  for enabled exec s0 where
  reach_start: "reach enabled exec s0 s0"
| reach_step: "reach enabled exec s0 s \<Longrightarrow> enabled e s \<Longrightarrow> exec e s = (r, s') \<Longrightarrow> reach enabled exec s0 s'"

inductive_cases reach_E: "reach enabled exec s0 s"

text \<open>A history: the operations one after the other, an exception of one not stopping the next.\<close>

fun run_all :: "('e \<Rightarrow> ('s, unit) mon) \<Rightarrow> 'e list \<Rightarrow> 's \<Rightarrow> 's" where
  "run_all exec [] s = s"
| "run_all exec (e # es) s = run_all exec es (snd (exec e s))"

fun all_enabled :: "('e \<Rightarrow> 's \<Rightarrow> bool) \<Rightarrow> ('e \<Rightarrow> ('s, unit) mon) \<Rightarrow> 'e list \<Rightarrow> 's \<Rightarrow> bool" where
  "all_enabled enabled exec [] s = True"
| "all_enabled enabled exec (e # es) s = (enabled e s \<and> all_enabled enabled exec es (snd (exec e s)))"

lemma reach_trans: "reach en ex s0 s \<Longrightarrow> reach en ex s t \<Longrightarrow> reach en ex s0 t"
  by (rotate_tac 1) (induction rule: reach.induct, auto intro: reach_step)

lemma run_all_reach: "all_enabled en ex es s \<Longrightarrow> reach en ex s (run_all ex es s)"
proof (induction es arbitrary: s)
  case (Cons e es)
  then have "reach en ex s (snd (ex e s))"
    by (auto intro: reach_step [OF reach_start] simp: prod_eq_iff)
  then show ?case using Cons reach_trans by fastforce
qed (simp add: reach_start)

locale machine =
  fixes enabled :: "'e \<Rightarrow> 's \<Rightarrow> bool" and exec :: "'e \<Rightarrow> ('s, unit) mon" and inv :: "'s \<Rightarrow> bool"
  assumes exec_keeps: "inv s \<Longrightarrow> enabled e s \<Longrightarrow> inv (snd (exec e s))"
begin

lemma reach_inv: "reach enabled exec s0 s \<Longrightarrow> inv s0 \<Longrightarrow> inv s"
proof (induction rule: reach.induct)
  case (reach_step s e r s')
  then show ?case using exec_keeps [of s e] by simp
qed

lemma run_all_inv: "all_enabled enabled exec es s \<Longrightarrow> inv s \<Longrightarrow> inv (run_all exec es s)"
  by (rule reach_inv [OF run_all_reach])

end

locale total_machine = machine +
  assumes exec_total: "inv s \<Longrightarrow> enabled e s \<Longrightarrow> \<exists>s'. exec e s = (Inr (), s')"
begin

lemma reach_total: "reach enabled exec s0 s \<Longrightarrow> inv s0 \<Longrightarrow> enabled e s \<Longrightarrow> \<exists>s'. exec e s = (Inr (), s') \<and> inv s'"
proof -
  assume r: "reach enabled exec s0 s" and i: "inv s0" and en: "enabled e s"
  have s: "inv s" using r i by (rule reach_inv)
  show "\<exists>s'. exec e s = (Inr (), s') \<and> inv s'" using exec_total [OF s en] exec_keeps [OF s en] by auto
qed

end

end
