(* ===== verification/Database_Invariant.thy ===== *)
theory Database_Invariant
  imports Database_Manager Machine
begin

text \<open>
  The constraints of init.sql as an invariant of the stored data, and that every operation of
  \<open>DatabaseManager\<close> keeps it on every path. The collection \<open>db_keeps\<close> holds one rule per operation.
\<close>

named_theorems db_keeps \<open>operations of the database manager keep the invariant\<close>

definition users_ok :: "user_row list \<Rightarrow> bool" where
  "users_ok us \<longleftrightarrow> distinct (map ur_username us) \<and> distinct (map ur_email us) \<and>
     (\<forall>r\<in>set us. user_type_check (ur_type r))"

definition rooms_ok :: "int \<Rightarrow> room_row list \<Rightarrow> bool" where
  "rooms_ok seq rs \<longleftrightarrow> distinct (map rr_id rs) \<and> distinct (map rr_name rs) \<and>
     (\<forall>r\<in>set rs. room_type_check (rr_type r) \<and> privacy_check (rr_privacy r) \<and> 0 < rr_id r \<and> rr_id r \<le> seq) \<and>
     lobby_row \<in> set rs \<and> general_row \<in> set rs"

definition messages_ok :: "db \<Rightarrow> message_row list \<Rightarrow> bool" where
  "messages_ok d ms \<longleftrightarrow> distinct (map mr_id ms) \<and>
     (\<forall>m\<in>set ms. has_room d (mr_room m) \<and> has_email d (mr_email m))"

definition membership_ok :: "db \<Rightarrow> membership_row list \<Rightarrow> bool" where
  "membership_ok d ms \<longleftrightarrow> distinct (map (\<lambda>m. (ms_username m, ms_room m)) ms) \<and>
     (\<forall>m\<in>set ms. has_username d (ms_username m) \<and> has_room d (ms_room m))"

definition online_ok :: "online_row list \<Rightarrow> bool" where
  "online_ok rs \<longleftrightarrow> distinct (map on_username rs)"

definition allow_ok :: "db \<Rightarrow> allow_row list \<Rightarrow> bool" where
  "allow_ok d as \<longleftrightarrow> distinct (map (\<lambda>a. (al_room a, al_email a)) as) \<and>
     (\<forall>a\<in>set as. has_room d (al_room a) \<and> has_email d (al_email a))"

definition db_wf :: "db \<Rightarrow> bool" where
  "db_wf d \<longleftrightarrow> users_ok (t_users d) \<and> rooms_ok (t_room_seq d) (t_rooms d) \<and>
     messages_ok d (t_messages d) \<and> membership_ok d (t_membership d) \<and>
     online_ok (t_online d) \<and> allow_ok d (t_allow d)"

definition db_ok :: "db \<Rightarrow> bool" where
  "db_ok d \<longleftrightarrow> db_wf d \<and> fk_on d"

section \<open>General facts\<close>

lemma has_cong [simp]:
  "has_room (d\<lparr>t_users := us\<rparr>) i = has_room d i"
  "has_room (d\<lparr>t_messages := ms\<rparr>) i = has_room d i"
  "has_room (d\<lparr>t_membership := mb\<rparr>) i = has_room d i"
  "has_room (d\<lparr>t_online := on\<rparr>) i = has_room d i"
  "has_room (d\<lparr>t_allow := al\<rparr>) i = has_room d i"
  "has_room (d\<lparr>fk_on := b\<rparr>) i = has_room d i"
  "has_room (d\<lparr>db_faults := fs\<rparr>) i = has_room d i"
  "has_room (d\<lparr>t_room_seq := q\<rparr>) i = has_room d i"
  "has_email (d\<lparr>t_rooms := rs\<rparr>) e = has_email d e"
  "has_email (d\<lparr>t_room_seq := q\<rparr>) e = has_email d e"
  "has_email (d\<lparr>t_messages := ms\<rparr>) e = has_email d e"
  "has_email (d\<lparr>t_membership := mb\<rparr>) e = has_email d e"
  "has_email (d\<lparr>t_online := on\<rparr>) e = has_email d e"
  "has_email (d\<lparr>t_allow := al\<rparr>) e = has_email d e"
  "has_email (d\<lparr>fk_on := b\<rparr>) e = has_email d e"
  "has_email (d\<lparr>db_faults := fs\<rparr>) e = has_email d e"
  "has_username (d\<lparr>t_rooms := rs\<rparr>) u = has_username d u"
  "has_username (d\<lparr>t_room_seq := q\<rparr>) u = has_username d u"
  "has_username (d\<lparr>t_messages := ms\<rparr>) u = has_username d u"
  "has_username (d\<lparr>t_membership := mb\<rparr>) u = has_username d u"
  "has_username (d\<lparr>t_online := on\<rparr>) u = has_username d u"
  "has_username (d\<lparr>t_allow := al\<rparr>) u = has_username d u"
  "has_username (d\<lparr>fk_on := b\<rparr>) u = has_username d u"
  "has_username (d\<lparr>db_faults := fs\<rparr>) u = has_username d u"
  by (simp_all add: has_room_def has_email_def has_username_def)

lemma ok_filter:
  "users_ok us \<Longrightarrow> users_ok (filter P us)"
  "online_ok on \<Longrightarrow> online_ok (filter Q on)"
  "messages_ok d ms \<Longrightarrow> messages_ok d (filter R ms)"
  "membership_ok d mb \<Longrightarrow> membership_ok d (filter S mb)"
  "allow_ok d al \<Longrightarrow> allow_ok d (filter T al)"
  by (auto simp: users_ok_def online_ok_def messages_ok_def membership_ok_def allow_ok_def
      distinct_map_filter)

lemma image_same: "(\<And>x. f (g x) = f x) \<Longrightarrow> f ` g ` A = f ` A"
  by (simp add: image_image)

lemma users_ok_map:
  assumes "\<And>r. ur_username (f r) = ur_username r" and "\<And>r. ur_email (f r) = ur_email r"
    and "\<And>r. ur_type (f r) = ur_type r" and "users_ok us"
  shows "users_ok (map f us)"
  using assms by (simp add: users_ok_def comp_def)

lemma membership_ok_map:
  assumes "\<And>m. ms_username (f m) = ms_username m" and "\<And>m. ms_room (f m) = ms_room m"
    and "membership_ok d ms"
  shows "membership_ok d (map f ms)"
  using assms by (simp add: membership_ok_def comp_def)

lemma messages_ok_map:
  assumes "\<And>m. mr_id (f m) = mr_id m" and "\<And>m. mr_room (f m) = mr_room m"
    and "\<And>m. mr_email (f m) = mr_email m" and "messages_ok d ms"
  shows "messages_ok d (map f ms)"
  using assms by (simp add: messages_ok_def comp_def)

lemma ok_mono:
  assumes "\<And>i. has_room d i \<Longrightarrow> has_room d' i" and "\<And>e. has_email d e \<Longrightarrow> has_email d' e"
    and "\<And>u. has_username d u \<Longrightarrow> has_username d' u"
  shows "messages_ok d ms \<Longrightarrow> messages_ok d' ms" "membership_ok d mb \<Longrightarrow> membership_ok d' mb"
    "allow_ok d al \<Longrightarrow> allow_ok d' al"
  using assms by (auto simp: messages_ok_def membership_ok_def allow_ok_def)

lemma ok_cong [simp]:
  "messages_ok (d\<lparr>t_messages := ms'\<rparr>) ms = messages_ok d ms"
  "messages_ok (d\<lparr>t_membership := mb'\<rparr>) ms = messages_ok d ms"
  "messages_ok (d\<lparr>t_online := on'\<rparr>) ms = messages_ok d ms"
  "messages_ok (d\<lparr>t_allow := al'\<rparr>) ms = messages_ok d ms"
  "messages_ok (d\<lparr>fk_on := b\<rparr>) ms = messages_ok d ms"
  "messages_ok (d\<lparr>db_faults := fs\<rparr>) ms = messages_ok d ms"
  "membership_ok (d\<lparr>t_messages := ms'\<rparr>) mb = membership_ok d mb"
  "membership_ok (d\<lparr>t_membership := mb'\<rparr>) mb = membership_ok d mb"
  "membership_ok (d\<lparr>t_online := on'\<rparr>) mb = membership_ok d mb"
  "membership_ok (d\<lparr>t_allow := al'\<rparr>) mb = membership_ok d mb"
  "membership_ok (d\<lparr>fk_on := b\<rparr>) mb = membership_ok d mb"
  "membership_ok (d\<lparr>db_faults := fs\<rparr>) mb = membership_ok d mb"
  "allow_ok (d\<lparr>t_messages := ms'\<rparr>) al = allow_ok d al"
  "allow_ok (d\<lparr>t_membership := mb'\<rparr>) al = allow_ok d al"
  "allow_ok (d\<lparr>t_online := on'\<rparr>) al = allow_ok d al"
  "allow_ok (d\<lparr>t_allow := al'\<rparr>) al = allow_ok d al"
  "allow_ok (d\<lparr>fk_on := b\<rparr>) al = allow_ok d al"
  "allow_ok (d\<lparr>db_faults := fs\<rparr>) al = allow_ok d al"
  by (simp_all add: messages_ok_def membership_ok_def allow_ok_def)

lemma db_wf_fk [simp]: "db_wf (d\<lparr>fk_on := b\<rparr>) = db_wf d"
  by (simp add: db_wf_def)

lemma db_ok_faults [simp]: "db_wf (d\<lparr>db_faults := fs\<rparr>) = db_wf d" "db_ok (d\<lparr>db_faults := fs\<rparr>) = db_ok d"
  by (simp_all add: db_wf_def db_ok_def)

text \<open>The invariant while every statement is executed.\<close>

definition db_calm :: "db \<Rightarrow> bool" where
  "db_calm d \<longleftrightarrow> db_ok d \<and> db_faults d = []"

lemma keeps_outcome [keeps_intros]: "keeps db_ok statement_outcome" "keeps db_calm statement_outcome"
  by (simp_all add: keeps_def statement_outcome_def db_calm_def split: list.split)

lemma keeps_step_stmt:
  assumes o: "keeps I statement_outcome" and st: "\<And>d n d'. I d \<Longrightarrow> st d = Inr (n, d') \<Longrightarrow> I d'"
  shows "keeps I (step_stmt st)"
proof -
  have "keeps I (\<lambda>d. case st d of Inl msg \<Rightarrow> (Inl (ConstraintError msg), d) | Inr (n, d') \<Rightarrow> (Inr n, d'))"
    using st by (fastforce simp: keeps_def split: sum.split)
  then show ?thesis unfolding step_stmt_def by (intro keeps_intros o)
qed

lemmas keeps_step_ok = keeps_step_stmt [OF keeps_outcome(1)]

lemma keeps_execute: "(\<And>st. st \<in> set sts \<Longrightarrow> keeps I (step_stmt st)) \<Longrightarrow> keeps I (execute sts)"
proof -
  have "(\<forall>st\<in>set sts. keeps I (step_stmt st)) \<Longrightarrow> keeps I (execute_from k sts)" for k
    by (induction sts arbitrary: k) (auto intro: keeps_intros)
  then show "(\<And>st. st \<in> set sts \<Longrightarrow> keeps I (step_stmt st)) \<Longrightarrow> keeps I (execute sts)"
    by (simp add: execute_def)
qed

lemma keeps_run_sql: "(\<And>st. st \<in> set sts \<Longrightarrow> keeps I (step_stmt st)) \<Longrightarrow> keeps I (run_sql sts)"
  unfolding run_sql_def by (intro keeps_intros keeps_execute)

lemma keeps_query [keeps_intros]: "keeps I statement_outcome \<Longrightarrow> keeps I (query sel)"
  unfolding query_def by (intro keeps_intros)

lemma keeps_liftE [keeps_intros]: "keeps I (liftE r)"
  by (auto simp: liftE_def intro!: keeps_intros split: sum.split)

text \<open>Statements that touch one table.\<close>

lemma create_user_keeps:
  assumes ok: "db_ok d" and s: "sql_create_user u e p t d = Inr (n, d')"
  shows "db_ok d'"
proof -
  note wf = ok [unfolded db_ok_def db_wf_def]
  let ?r = "\<lparr>ur_username = u, ur_email = e, ur_password = p, ur_type = t\<rparr>"
  have d': "d' = d\<lparr>t_users := t_users d @ [?r]\<rparr>" and new: "user_type_check t"
    "\<forall>r\<in>set (t_users d). ur_username r \<noteq> u \<and> ur_email r \<noteq> e"
    using s by (auto simp: sql_create_user_def split: if_splits)
  have "users_ok (t_users d')" using wf new by (auto simp: users_ok_def d')
  moreover have "messages_ok d' (t_messages d)" "membership_ok d' (t_membership d)" "allow_ok d' (t_allow d)"
    using wf by (auto simp: d' has_email_def has_username_def intro: ok_mono [of d])
  ultimately show ?thesis using wf by (simp add: db_ok_def db_wf_def d')
qed

lemma update_password_keeps:
  assumes ok: "db_ok d" and s: "sql_update_user_password p u d = Inr (n, d')"
  shows "db_ok d'"
proof -
  note wf = ok [unfolded db_ok_def db_wf_def]
  let ?f = "\<lambda>r. if ur_username r = u then r\<lparr>ur_password := p\<rparr> else r"
  have d': "d' = d\<lparr>t_users := map ?f (t_users d)\<rparr>" using s by (simp add: sql_update_user_password_def)
  have eq: "ur_username (?f r) = ur_username r" "ur_email (?f r) = ur_email r" "ur_type (?f r) = ur_type r" for r
    by simp_all
  have "users_ok (map ?f (t_users d))" using wf by (intro users_ok_map eq) simp
  then have "users_ok (t_users d')" by (simp add: d')
  moreover have "has_email d' x = has_email d x" "has_username d' x = has_username d x" for x
    using image_same [of ur_email ?f "set (t_users d)", OF eq(2)]
      image_same [of ur_username ?f "set (t_users d)", OF eq(1)]
    by (simp_all add: d' has_email_def has_username_def)
  ultimately show ?thesis
    using wf by (auto simp: db_ok_def db_wf_def d' intro: ok_mono [of d])
qed

lemma set_membership_keeps:
  assumes ok: "db_ok d" and s: "sql_set_membership u i nd d = Inr (n, d')"
  shows "db_ok d'"
proof -
  note wf = ok [unfolded db_ok_def db_wf_def]
  have "membership_ok d (filter (\<lambda>m. \<not> (ms_username m = u \<and> ms_room m = i)) (t_membership d))"
    using wf ok_filter by blast
  then show ?thesis
    using s wf by (auto simp: sql_set_membership_def db_ok_def db_wf_def membership_ok_def split: if_splits)
qed

lemma move_membership_keeps:
  assumes ok: "db_ok d" and s: "sql_move_membership nd u d = Inr (n, d')"
  shows "db_ok d'"
proof -
  note wf = ok [unfolded db_ok_def db_wf_def]
  let ?f = "\<lambda>m. if ms_username m = u then m\<lparr>ms_node := nd\<rparr> else m"
  have "ms_username (?f m) = ms_username m" "ms_room (?f m) = ms_room m" for m by simp_all
  then have "membership_ok d (map ?f (t_membership d))" using wf by (intro membership_ok_map) simp_all
  then show ?thesis using s wf by (auto simp: sql_move_membership_def db_ok_def db_wf_def)
qed

lemma set_online_keeps:
  assumes ok: "db_ok d" and s: "sql_set_online u nd d = Inr (n, d')"
  shows "db_ok d'"
proof -
  note wf = ok [unfolded db_ok_def db_wf_def]
  have "online_ok (filter (\<lambda>r. on_username r \<noteq> u) (t_online d))" using wf ok_filter by blast
  then show ?thesis using s wf by (auto simp: sql_set_online_def db_ok_def db_wf_def online_ok_def)
qed

lemma create_room_keeps:
  assumes ok: "db_ok d" and s: "sql_create_room nm rt pv d = Inr (n, d')"
  shows "db_ok d'"
proof -
  note wf = ok [unfolded db_ok_def db_wf_def]
  let ?i = "t_room_seq d + 1"
  let ?r = "\<lparr>rr_id = ?i, rr_name = nm, rr_type = rt, rr_privacy = pv\<rparr>"
  have d': "d' = d\<lparr>t_rooms := t_rooms d @ [?r], t_room_seq := ?i\<rparr>"
    and new: "room_type_check rt" "privacy_check pv" "\<forall>r\<in>set (t_rooms d). rr_name r \<noteq> nm"
    using s by (auto simp: sql_create_room_def Let_def split: if_splits)
  have "0 \<le> t_room_seq d" and seq: "\<forall>r\<in>set (t_rooms d). rr_id r \<le> t_room_seq d"
    using wf by (auto simp: rooms_ok_def lobby_row_def dest!: bspec)
  then have "rooms_ok ?i (t_rooms d @ [?r])"
    using wf new by (auto simp: rooms_ok_def)
  moreover have "messages_ok d' (t_messages d)" "membership_ok d' (t_membership d)" "allow_ok d' (t_allow d)"
    using wf by (auto simp: d' has_room_def intro: ok_mono [of d])
  ultimately show ?thesis using wf by (simp add: db_ok_def db_wf_def d')
qed

lemma stmt_keeps:
  assumes "db_ok d"
  shows "sql_create_user u e p t d = Inr (n, d') \<Longrightarrow> db_ok d'"
    and "sql_update_user_password p u d = Inr (n, d') \<Longrightarrow> db_ok d'"
    and "sql_save_message m d = Inr (n, d') \<Longrightarrow> db_ok d'"
    and "sql_set_membership u i nd d = Inr (n, d') \<Longrightarrow> db_ok d'"
    and "sql_clear_membership u i d = Inr (n, d') \<Longrightarrow> db_ok d'"
    and "sql_clear_all_membership u d = Inr (n, d') \<Longrightarrow> db_ok d'"
    and "sql_move_membership nd u d = Inr (n, d') \<Longrightarrow> db_ok d'"
    and "sql_set_online u nd d = Inr (n, d') \<Longrightarrow> db_ok d'"
    and "sql_clear_online u d = Inr (n, d') \<Longrightarrow> db_ok d'"
    and "sql_clear_node_presence nd d = Inr (n, d') \<Longrightarrow> db_ok d'"
    and "sql_create_room nm rt pv d = Inr (n, d') \<Longrightarrow> db_ok d'"
    and "sql_add_user_allow_list i e c d = Inr (n, d') \<Longrightarrow> db_ok d'"
    and "sql_remove_user_allow_list i e d = Inr (n, d') \<Longrightarrow> db_ok d'"
proof -
  note wf = assms [unfolded db_ok_def db_wf_def]
  show "db_ok d'" if "sql_create_user u e p t d = Inr (n, d')"
    using assms that by (rule create_user_keeps)
  show "db_ok d'" if "sql_update_user_password p u d = Inr (n, d')"
    using assms that by (rule update_password_keeps)
  show "db_ok d'" if "sql_save_message m d = Inr (n, d')"
    using that wf
    by (auto simp: sql_save_message_def db_ok_def db_wf_def messages_ok_def split: if_splits) metis
  show "db_ok d'" if "sql_set_membership u i nd d = Inr (n, d')"
    using assms that by (rule set_membership_keeps)
  show "db_ok d'" if "sql_clear_membership u i d = Inr (n, d')"
    using that wf by (auto simp: sql_clear_membership_def db_ok_def db_wf_def Let_def intro!: ok_filter)
  show "db_ok d'" if "sql_clear_all_membership u d = Inr (n, d')"
    using that wf by (auto simp: sql_clear_all_membership_def db_ok_def db_wf_def intro!: ok_filter)
  show "db_ok d'" if "sql_move_membership nd u d = Inr (n, d')"
    using assms that by (rule move_membership_keeps)
  show "db_ok d'" if "sql_set_online u nd d = Inr (n, d')"
    using assms that by (rule set_online_keeps)
  show "db_ok d'" if "sql_clear_online u d = Inr (n, d')"
    using that wf by (auto simp: sql_clear_online_def db_ok_def db_wf_def intro!: ok_filter)
  show "db_ok d'" if "sql_clear_node_presence nd d = Inr (n, d')"
    using that wf by (auto simp: sql_clear_node_presence_def db_ok_def db_wf_def intro!: ok_filter)
  show "db_ok d'" if "sql_create_room nm rt pv d = Inr (n, d')"
    using assms that by (rule create_room_keeps)
  show "db_ok d'" if "sql_add_user_allow_list i e c d = Inr (n, d')"
    using that wf by (auto simp: sql_add_user_allow_list_def db_ok_def db_wf_def allow_ok_def split: if_splits)
  show "db_ok d'" if "sql_remove_user_allow_list i e d = Inr (n, d')"
    using that wf by (auto simp: sql_remove_user_allow_list_def db_ok_def db_wf_def Let_def intro!: ok_filter)
qed

section \<open>Deleting a room\<close>

lemma rooms_ok_delete: "rooms_ok q rs \<Longrightarrow> 3 \<le> i \<Longrightarrow> rooms_ok q (filter (\<lambda>r. rr_id r \<noteq> i) rs)"
  by (auto simp: rooms_ok_def distinct_map_filter lobby_row_def general_row_def)

lemma delete_room_keeps:
  assumes "3 \<le> i" and "st \<in> set (sql_delete_room i)"
  shows "keeps db_ok (step_stmt st)"
proof (rule keeps_step_ok)
  fix d n d'
  assume ok: "db_ok d" and s: "st d = Inr (n, d')"
  note wf = ok [unfolded db_ok_def db_wf_def]
  consider "d' = d\<lparr>t_allow := filter (\<lambda>a. al_room a \<noteq> i) (t_allow d)\<rparr>"
    | "d' = d\<lparr>t_membership := filter (\<lambda>m. ms_room m \<noteq> i) (t_membership d)\<rparr>"
    | "d' = d\<lparr>t_messages := filter (\<lambda>m. mr_room m \<noteq> i) (t_messages d)\<rparr>"
    | "d' = d\<lparr>t_rooms := filter (\<lambda>r. rr_id r \<noteq> i) (t_rooms d)\<rparr>"
      "\<not> has_room d i \<or> i \<notin> al_room ` set (t_allow d) \<and> i \<notin> ms_room ` set (t_membership d) \<and>
         i \<notin> mr_room ` set (t_messages d)"
    using assms(2) s wf by (auto simp: sql_delete_room_def split: if_splits)
  then show "db_ok d'"
  proof cases
    case 4
    have "has_room d j \<Longrightarrow> j \<noteq> i \<Longrightarrow> has_room d' j" for j by (auto simp: 4(1) has_room_def)
    then have "messages_ok d' (t_messages d)" "membership_ok d' (t_membership d)" "allow_ok d' (t_allow d)"
      using wf 4(2)
      by (auto simp: messages_ok_def membership_ok_def allow_ok_def 4(1) image_iff) metis+
    then show ?thesis using wf rooms_ok_delete [OF _ assms(1)] by (simp add: db_ok_def db_wf_def 4(1))
  qed (use wf in \<open>simp_all add: db_ok_def db_wf_def ok_filter\<close>)
qed

section \<open>Renaming a user\<close>

abbreviation rename_user_row :: "string \<Rightarrow> string \<Rightarrow> user_row \<Rightarrow> user_row" where
  "rename_user_row new old r \<equiv> if ur_username r = old then r\<lparr>ur_username := new\<rparr> else r"

abbreviation rename_member :: "string \<Rightarrow> string \<Rightarrow> membership_row \<Rightarrow> membership_row" where
  "rename_member new old m \<equiv> if ms_username m = old then m\<lparr>ms_username := new\<rparr> else m"

definition renamed :: "string \<Rightarrow> string \<Rightarrow> db \<Rightarrow> db" where
  "renamed new old d =
     d\<lparr>t_users := map (rename_user_row new old) (t_users d),
       t_membership := map (rename_member new old) (t_membership d)\<rparr>"

lemma distinct_rename:
  assumes "distinct (map f xs)" and "\<And>x. x \<in> set xs \<Longrightarrow> P x \<Longrightarrow> f (g x) \<notin> f ` set xs"
    and "\<And>x y. x \<in> set xs \<Longrightarrow> y \<in> set xs \<Longrightarrow> P x \<Longrightarrow> P y \<Longrightarrow> f (g x) = f (g y) \<Longrightarrow> f x = f y"
  shows "distinct (map f (map (\<lambda>x. if P x then g x else x) xs))"
proof -
  have "distinct xs" "inj_on f (set xs)" using assms(1) by (auto simp: distinct_map)
  moreover have "inj_on (\<lambda>x. f (if P x then g x else x)) (set xs)"
  proof (rule inj_onI)
    fix x y
    assume xy: "x \<in> set xs" "y \<in> set xs" and e: "f (if P x then g x else x) = f (if P y then g y else y)"
    have no: "f (g z) \<noteq> f w" if "z \<in> set xs" "w \<in> set xs" "P z" for z w using assms(2) that by blast
    have "f x = f y"
      using e no [OF xy] no [OF xy(2,1)] assms(3) [OF xy] by (cases "P x"; cases "P y") auto
    then show "x = y" using \<open>inj_on f (set xs)\<close> xy by (auto dest: inj_onD)
  qed
  ultimately show ?thesis by (simp add: distinct_map comp_def)
qed

lemma renamed_wf:
  assumes "db_wf d" and new: "\<not> has_username d new"
  shows "db_wf (renamed new old d)"
proof -
  note wf = assms(1) [unfolded db_wf_def]
  let ?d = "renamed new old d"
  have names: "ur_username r = ur_username s" if "ur_username r = old" "ur_username s = old" for r s :: user_row
    using that by simp
  have "distinct (map ur_username (map (rename_user_row new old) (t_users d)))"
    using wf new by (intro distinct_rename) (auto simp: users_ok_def has_username_def)
  moreover have "map ur_email (map (rename_user_row new old) us) = map ur_email us" for us by simp
  ultimately have users: "users_ok (t_users ?d)"
    using wf by (simp add: users_ok_def renamed_def del: map_map) auto
  have room: "has_room ?d i = has_room d i" for i by (simp add: renamed_def has_room_def)
  have email: "has_email ?d e = has_email d e" for e
    using image_same [of ur_email "rename_user_row new old" "set (t_users d)"]
    by (simp add: renamed_def has_email_def)
  have user: "has_username ?d (if u = old then new else u)" if has: "has_username d u" for u
  proof -
    obtain r where r: "r \<in> set (t_users d)" "u = ur_username r" using has by (auto simp: has_username_def)
    then have "rename_user_row new old r \<in> set (t_users ?d)" by (force simp: renamed_def)
    then have "ur_username (rename_user_row new old r) \<in> ur_username ` set (t_users ?d)" by (rule imageI)
    then show ?thesis using r by (auto simp: has_username_def)
  qed
  have "distinct (map (\<lambda>m. (ms_username m, ms_room m)) (map (rename_member new old) (t_membership d)))"
    using wf new by (intro distinct_rename) (auto simp: membership_ok_def has_username_def)
  moreover have "has_username ?d (ms_username m) \<and> has_room ?d (ms_room m)"
    if m: "m \<in> set (map (rename_member new old) (t_membership d))" for m
  proof -
    obtain k where k: "k \<in> set (t_membership d)" "m = rename_member new old k" using m by auto
    then show ?thesis using wf user [of "ms_username k"] room by (auto simp: membership_ok_def)
  qed
  ultimately have "membership_ok ?d (t_membership ?d)"
    unfolding membership_ok_def by (simp add: renamed_def del: map_map)
  then show ?thesis
    using wf users room email
    by (auto simp: db_wf_def renamed_def messages_ok_def allow_ok_def)
qed

lemma renamed_same:
  assumes "db_wf d" and "\<not> has_username d old"
  shows "renamed new old d = d"
proof -
  have "map (rename_user_row new old) (t_users d) = t_users d"
    using assms(2) by (intro map_idI) (auto simp: has_username_def)
  moreover have "map (rename_member new old) (t_membership d) = t_membership d"
    using assms by (intro map_idI) (auto simp: db_wf_def membership_ok_def)
  ultimately show ?thesis by (simp add: renamed_def)
qed

lemma rename_first_two:
  assumes "db_wf d" and "\<not> fk_on d" and "new \<noteq> old"
  shows "(\<exists>e. sql_rename_users new old d = Inl e) \<or>
    db_wf (renamed new old d) \<and> (\<exists>n d1 m. sql_rename_users new old d = Inr (n, d1) \<and> db_faults d1 = db_faults d \<and>
      sql_rename_membership new old d1 = Inr (m, renamed new old d))"
proof -
  let ?d1 = "d\<lparr>t_users := map (rename_user_row new old) (t_users d)\<rparr>"
  let ?hit = "filter (\<lambda>r. ur_username r = old) (t_users d)"
  consider "?hit \<noteq> []" "has_username d new" | "?hit = []" | "\<not> has_username d new" by blast
  then show ?thesis
  proof cases
    case 1
    then show ?thesis using assms(3) by (auto simp: sql_rename_users_def Let_def has_username_def)
  next
    case 2
    then have no: "\<not> has_username d old" by (auto simp: has_username_def filter_empty_conv)
    have "filter (\<lambda>m. ms_username m = old) (t_membership d) = []"
      using assms(1) no by (auto simp: filter_empty_conv db_wf_def membership_ok_def)
    then have "sql_rename_membership new old ?d1 = Inr (0, renamed new old d)"
      by (simp add: sql_rename_membership_def renamed_def)
    moreover have "sql_rename_users new old d = Inr (0, ?d1)" using 2 by (simp add: sql_rename_users_def)
    ultimately show ?thesis using assms(1) renamed_same [OF assms(1) no] by auto
  next
    case 3
    have "\<not> (\<exists>m\<in>set (t_membership d). ms_username m = new)"
      using assms(1) 3 by (auto simp: db_wf_def membership_ok_def)
    then have "\<exists>m. sql_rename_membership new old ?d1 = Inr (m, renamed new old d)"
      using assms(2) by (auto simp: sql_rename_membership_def renamed_def Let_def)
    moreover have "\<exists>n. sql_rename_users new old d = Inr (n, ?d1)"
      using 3 assms(2) by (auto simp: sql_rename_users_def Let_def has_username_def)
    ultimately show ?thesis using renamed_wf [OF assms(1) 3] by auto
  qed
qed

text \<open>What the rest of the renaming may assume and must leave.\<close>

definition renaming :: "db \<Rightarrow> bool" where
  "renaming d \<longleftrightarrow> db_wf d \<and> db_faults d = []"

lemma keeps_outcome_renaming: "keeps renaming statement_outcome"
  by (simp add: keeps_def renaming_def)

lemma keeps_rename_online: "new \<noteq> old \<Longrightarrow> keeps renaming (step_stmt (sql_rename_online new old))"
proof (rule keeps_step_stmt [OF keeps_outcome_renaming])
  fix d n d'
  assume ne: "new \<noteq> old" and r: "renaming d" and s: "sql_rename_online new old d = Inr (n, d')"
  let ?f = "\<lambda>r. if on_username r = old then r\<lparr>on_username := new\<rparr> else r"
  have d': "d' = d\<lparr>t_online := map ?f (t_online d)\<rparr>"
    using s by (auto simp: sql_rename_online_def Let_def split: if_splits)
  have ok: "distinct (map on_username (t_online d))" using r by (simp add: renaming_def db_wf_def online_ok_def)
  have fresh: "\<forall>x\<in>set (t_online d). on_username x = old \<longrightarrow> new \<notin> on_username ` set (t_online d)"
    using s ne by (auto simp: sql_rename_online_def Let_def filter_empty_conv split: if_splits)
  have "distinct (map on_username (map ?f (t_online d)))"
    using ok fresh by (intro distinct_rename) auto
  then show "renaming d'" using r by (simp add: renaming_def db_wf_def online_ok_def d' del: map_map)
qed

lemma keeps_rename_messages: "keeps renaming (step_stmt (sql_rename_messages new old))"
proof (rule keeps_step_stmt [OF keeps_outcome_renaming])
  fix d n d'
  assume r: "renaming d" and s: "sql_rename_messages new old d = Inr (n, d')"
  let ?f = "\<lambda>m. if mr_username m = old then m\<lparr>mr_username := new\<rparr> else m"
  have d': "d' = d\<lparr>t_messages := map ?f (t_messages d)\<rparr>" using s by (simp add: sql_rename_messages_def)
  have same: "mr_id (?f m) = mr_id m" "mr_room (?f m) = mr_room m" "mr_email (?f m) = mr_email m" for m
    by simp_all
  have "messages_ok d (map ?f (t_messages d))"
    using r same by (intro messages_ok_map same) (simp add: renaming_def db_wf_def)
  then show "renaming d'" using r by (simp add: renaming_def db_wf_def d')
qed

lemma rename_sequence:
  assumes "renaming d" and "\<not> fk_on d" and "new \<noteq> old"
  shows "renaming (snd (execute (sql_update_user new old) d))"
proof -
  let ?tail = "\<lambda>n. execute_from n [sql_rename_online new old, sql_rename_messages new old]"
  have tail: "keeps renaming (?tail n)" for n
    using assms(3) keeps_rename_online keeps_rename_messages by (auto intro!: keeps_intros)
  have d: "db_wf d" "db_faults d = []" using assms(1) by (simp_all add: renaming_def)
  consider e where "sql_rename_users new old d = Inl e"
    | n d1 m where "db_wf (renamed new old d)" "sql_rename_users new old d = Inr (n, d1)"
      "db_faults d1 = []" "sql_rename_membership new old d1 = Inr (m, renamed new old d)"
    using rename_first_two [OF d(1) assms(2,3)] d(2) by auto
  then show ?thesis
  proof cases
    case 1
    then show ?thesis using assms(1) d by (simp add: execute_def sql_update_user_def step_stmt_ready bindM_run)
  next
    case 2
    have "execute (sql_update_user new old) d = ?tail m (renamed new old d)"
      using 2 d by (simp add: execute_def sql_update_user_def step_stmt_ready bindM_run)
    moreover have "renaming (renamed new old d)"
      using 2(1) d(2) by (simp add: renaming_def renamed_def)
    ultimately show ?thesis using tail keepsD by metis
  qed
qed

lemma keeps_rename_block:
  assumes "new \<noteq> old"
  shows "keeps db_calm
    (thenM (exec_foreign_keys False)
      (thenM (catchM (run_sql (sql_update_user new old)) (\<lambda>e. thenM (exec_foreign_keys True) (throwM e)))
        (exec_foreign_keys True)))"
proof (rule keepsI)
  fix d
  assume calm: "db_calm d"
  let ?off = "d\<lparr>fk_on := False\<rparr>"
  obtain r d' where x: "execute (sql_update_user new old) ?off = (r, d')" by fastforce
  have "renaming ?off" using calm by (simp add: renaming_def db_calm_def db_ok_def)
  then have "renaming d'" using rename_sequence [of ?off new old] assms x by simp
  then have "db_ok (d'\<lparr>fk_on := True\<rparr>)" "db_faults d' = []" "db_faults d = []"
    using calm by (simp_all add: renaming_def db_ok_def db_calm_def)
  then show "db_calm (snd (thenM (exec_foreign_keys False)
      (thenM (catchM (run_sql (sql_update_user new old)) (\<lambda>e. thenM (exec_foreign_keys True) (throwM e)))
        (exec_foreign_keys True)) d))"
    using x by (cases r) (simp_all add: exec_foreign_keys_def mon_simps run_sql_def db_calm_def)
qed

section \<open>Every operation keeps the invariant\<close>

lemmas step_stmt_keeps = stmt_keeps [THEN keeps_step_ok]

lemma keeps_single: "keeps I (step_stmt st) \<Longrightarrow> keeps I (run_sql [st])" "keeps I (step_stmt st) \<Longrightarrow> keeps I (execute [st])"
  by (auto intro: keeps_run_sql keeps_execute)

lemma keeps_writes [db_keeps]:
  "keeps db_ok (setMembership u i n)" "keeps db_ok (clearMembership u i)" "keeps db_ok (setOnline u n)"
  "keeps db_ok (clearOnline u)" "keeps db_ok (clearNodePresence n)" "keeps db_ok (moveMembership u n)"
  "keeps db_ok (clearAllMembership u)" "keeps db_ok (addToAllowList i e c)"
  "keeps db_ok (removeFromAllowList i e)"
  unfolding setMembership_def clearMembership_def setOnline_def clearOnline_def clearNodePresence_def
    moveMembership_def clearAllMembership_def addToAllowList_def removeFromAllowList_def
  by (intro keeps_single step_stmt_keeps; assumption)+

lemma keeps_reads [db_keeps]:
  "keeps db_ok (getUser u)" "keeps db_ok (userExists u)" "keeps db_ok (loginUser A u p)"
  "keeps db_ok (loadHistory i)" "keeps db_ok (isUserOnline u)" "keeps db_ok (onlineNode u)"
  "keeps db_ok (canClaimPresence u b)" "keeps db_ok (membershipNode u i)" "keeps db_ok (getAllowList i)"
  "keeps db_ok (isAllowed i e)" "keeps db_ok (isAllowListCreator i e)" "keeps db_ok (db_getRoom i)"
  "keeps db_ok db_listRooms" "keeps db_ok ping"
  unfolding getUser_def userExists_def loginUser_def loadHistory_def isUserOnline_def canClaimPresence_def
    onlineNode_def membershipNode_def getAllowList_def isAllowed_def isAllowListCreator_def db_getRoom_def
    db_listRooms_def ping_def
  by (intro keeps_intros)+

lemma keeps_createUser [db_keeps]: "keeps db_ok (createUser u h e)"
  unfolding createUser_def by (intro keeps_intros keeps_single step_stmt_keeps)

text \<open>\<open>updateUser\<close> keeps the invariant when it only changes the password, whatever SQLite does, and
  when every statement of a rename is executed.\<close>

lemma keeps_password_only [db_keeps]: "keeps db_ok (updateUser A salt cur cur pw e)"
  unfolding updateUser_def by (intro keeps_intros db_keeps keeps_single step_stmt_keeps) simp_all

lemma password_calm: "sql_update_user_password p u d = Inr (n, d') \<Longrightarrow> db_calm d \<Longrightarrow> db_calm d'"
  using stmt_keeps(2) by (auto simp: db_calm_def sql_update_user_password_def)

lemma keeps_updateUser: "keeps db_calm (updateUser A salt cur des pw e)"
  unfolding updateUser_def getUser_def userExists_def
  by (intro keeps_intros keeps_rename_block keeps_single keeps_step_stmt) (auto intro: password_calm)

lemma keeps_saveMessage [db_keeps]: "keeps db_ok (saveMessage n m i)"
  unfolding saveMessage_def by (intro keeps_intros keeps_single step_stmt_keeps)

lemma keeps_db_createRoom [db_keeps]: "keeps db_ok (db_createRoom nm t p e)"
proof -
  have "keeps db_ok (insert_room nm t p)"
    unfolding insert_room_def using stmt_keeps(11)
    by (intro keeps_intros keepsI) (fastforce split: sum.split prod.split)
  then show ?thesis unfolding db_createRoom_def by (intro keeps_intros db_keeps)
qed

lemma keeps_db_deleteRoom [db_keeps]: "keeps db_ok (db_deleteRoom i)"
  unfolding db_deleteRoom_def by (intro keeps_intros keeps_execute delete_room_keeps) auto

section \<open>The database as a component\<close>

text \<open>The operations that change the stored data, and their histories. \<open>Disk fs\<close> is the
  environment's move: it decides what SQLite will answer to the next statements. A rename is run when
  no failure lies ahead of it; every other operation may meet failures anywhere.\<close>

datatype db_op =
    Disk "string option list"
  | CreateUser string string string
  | UpdateUser argon2 string string string string string
  | SaveMessage string chat_message int
  | SetMembership string int string
  | ClearMembership string int
  | MoveMembership string string
  | ClearAllMembership string
  | SetOnline string string
  | ClearOnline string
  | ClearNodePresence string
  | CreateRoom string roomType privacy string
  | DeleteRoom int
  | AddToAllowList int string bool
  | RemoveFromAllowList int string

fun db_exec :: "db_op \<Rightarrow> (db, unit) mon" where
  "db_exec (Disk fs) = modifyM (\<lambda>d. d\<lparr>db_faults := fs\<rparr>)"
| "db_exec (CreateUser u h e) = ignoreM (createUser u h e)"
| "db_exec (UpdateUser A salt cur new pw e) = ignoreM (updateUser A salt cur new pw e)"
| "db_exec (SaveMessage nd m i) = ignoreM (saveMessage nd m i)"
| "db_exec (SetMembership u i nd) = setMembership u i nd"
| "db_exec (ClearMembership u i) = clearMembership u i"
| "db_exec (MoveMembership u nd) = moveMembership u nd"
| "db_exec (ClearAllMembership u) = clearAllMembership u"
| "db_exec (SetOnline u nd) = setOnline u nd"
| "db_exec (ClearOnline u) = clearOnline u"
| "db_exec (ClearNodePresence nd) = clearNodePresence nd"
| "db_exec (CreateRoom nm t p e) = ignoreM (db_createRoom nm t p e)"
| "db_exec (DeleteRoom i) = db_deleteRoom i"
| "db_exec (AddToAllowList i e c) = addToAllowList i e c"
| "db_exec (RemoveFromAllowList i e) = removeFromAllowList i e"

fun db_enabled :: "db_op \<Rightarrow> db \<Rightarrow> bool" where
  "db_enabled (UpdateUser A salt cur new pw e) d \<longleftrightarrow> new = cur \<or> db_faults d = []"
| "db_enabled e d \<longleftrightarrow> True"

lemma db_exec_keeps:
  assumes "db_ok d" and "db_enabled e d"
  shows "db_ok (snd (db_exec e d))"
proof -
  have other: "keeps db_ok (db_exec e)" if "\<forall>A salt cur new pw m. e = UpdateUser A salt cur new pw m \<longrightarrow> new = cur"
  proof (cases e)
    case (UpdateUser A salt cur new pw m)
    then have "new = cur" using that by blast
    then show ?thesis using UpdateUser by (simp only: db_exec.simps) (intro keeps_ignoreM db_keeps)
  next
    case (Disk fs)
    then show ?thesis by (simp only: db_exec.simps) (rule keeps_modifyM, simp)
  qed (simp only: db_exec.simps; intro keeps_ignoreM db_keeps)+
  show ?thesis
  proof (cases "\<forall>A salt cur new pw m. e = UpdateUser A salt cur new pw m \<longrightarrow> new = cur")
    case True
    then show ?thesis using keepsD [OF other] assms(1) by blast
  next
    case False
    then obtain A salt cur new pw m where e: "e = UpdateUser A salt cur new pw m" "new \<noteq> cur" by blast
    then have "db_calm d" using assms by (simp add: db_calm_def)
    then show ?thesis using keepsD [OF keeps_ignoreM [OF keeps_updateUser]] e by (simp add: db_calm_def)
  qed
qed

interpretation database: machine db_enabled db_exec db_ok
  by unfold_locales (rule db_exec_keeps)

end
