(* ===== verification/Node.thy ===== *)
theory Node
  imports Serializer Gossip_Payload Database_Invariant
begin

text \<open>
  The state of one server process, and the classes the other managers stand on: \<open>ClientSession\<close>
  (src/server/client_session.cpp) and the session table and socket writes of \<open>ConnectionManager\<close>
  (src/server/connection_manager.cpp).

  The singletons of the program become one record, built up class by class. Unordered maps and sets
  are association lists and duplicate-free lists in insertion order; iteration follows that order
  (C++ leaves it open). The environment supplies the two clocks, the numbers drawn from
  \<open>std::random_device\<close> and the sockets on which a write fails; \<open>n_sent\<close> is the log of packets written
  completely, \<open>n_closedFds\<close> of sockets closed. A session is named by its socket. Each operation
  runs to its end before the next: the mutexes of the code make the single steps atomic, and the
  interleaving of two operations is not part of this model. Log output is left out.
\<close>

section \<open>State\<close>

record clientSession =
  cs_socket :: SOCKET
  cs_user :: user
  cs_room :: room
  cs_closed :: bool
  cs_authenticated :: bool
  cs_lastHeartbeat :: int

text \<open>How a packet left: in the length-prefixed TCP frame or in a binary WebSocket frame.\<close>

datatype wire = Tcp packet | Web packet

fun wire_packet :: "wire \<Rightarrow> packet" where
  "wire_packet (Tcp p) = p"
| "wire_packet (Web p) = p"

record environment =
  n_cfg :: config
  n_db :: db
  n_now :: int
  n_steady :: int
  n_draws :: "nat list"
  n_broken :: "SOCKET list"
  n_sent :: "(SOCKET \<times> wire) list"
  n_closedFds :: "SOCKET list"

record room_manager = environment +
  knownRooms :: "(string \<times> room) list"
  members :: "(string \<times> SOCKET list) list"

record connection_manager = room_manager +
  sessions :: "(SOCKET \<times> clientSession) list"
  webSockets :: "SOCKET list"
  listening :: bool
  gossip_wired :: bool

record gossip_manager = connection_manager +
  g_stopped :: bool
  outboundAddrs :: "(SOCKET \<times> string) list"
  clientPeers :: "(string \<times> clientEndpoint) list"
  seenEvents :: "string list"
  recentEventIds :: "string list"
  eventLog :: "(string \<times> packet) list"
  openPeerSockets :: "SOCKET list"

text \<open>The two process-wide event counters.\<close>

record node = gossip_manager +
  nextPresenceSeq :: u64
  dropLogoutSeq :: u64

section \<open>Helpers\<close>

text \<open>\<open>std::unordered_set::insert\<close>.\<close>

definition set_insert :: "'a \<Rightarrow> 'a list \<Rightarrow> 'a list" where
  "set_insert x xs = (if x \<in> set xs then xs else xs @ [x])"

definition dbM :: "(db, 'a) mon \<Rightarrow> (node, 'a) mon" where
  "dbM m = zoomM n_db (\<lambda>d n. n\<lparr>n_db := d\<rparr>) m"

definition nodeId :: "node \<Rightarrow> string" where
  "nodeId n = NODE_ID (n_cfg n)"

text \<open>One number of \<open>std::random_device\<close>.\<close>

definition drawM :: "(node, nat) mon" where
  "drawM = (\<lambda>n. (Inr (case n_draws n of [] \<Rightarrow> 0 | x # _ \<Rightarrow> x), n\<lparr>n_draws := tl (n_draws n)\<rparr>))"

definition anonymousUserM :: "(node, user) mon" where
  "anonymousUserM = bindM drawM (\<lambda>r. returnM (anonymousUser r))"

text \<open>The \<open>Packet\<close> constructor stamps the current time.\<close>

definition packetM ::
  "string \<Rightarrow> string \<Rightarrow> packetType \<Rightarrow> string \<Rightarrow> string \<Rightarrow> u32 \<Rightarrow> (node, packet) mon" where
  "packetM sender receiver type room message code =
     getsM (\<lambda>n. mkPacket (of_int (n_now n)) sender receiver type room message code)"

section \<open>Sessions\<close>

definition LOBBY :: room where "LOBBY = mkRoom 1 ''Lobby'' LOBBY_TYPE PUBLIC"
definition GENERAL :: room where "GENERAL = mkRoom 2 ''General'' OTHER PUBLIC"

definition mkSession :: "SOCKET \<Rightarrow> user \<Rightarrow> room \<Rightarrow> int \<Rightarrow> clientSession" where
  "mkSession socket user room now =
     \<lparr>cs_socket = socket, cs_user = user, cs_room = room, cs_closed = False,
      cs_authenticated = False, cs_lastHeartbeat = now\<rparr>"

text \<open>The session a live reference points to. References are only followed for sockets in the table.\<close>

definition session_of :: "node \<Rightarrow> SOCKET \<Rightarrow> clientSession" where
  "session_of n fd =
     (case map_of (sessions n) fd of
        Some s \<Rightarrow> s
      | None \<Rightarrow> mkSession fd (anonymousUser 0) LOBBY 0)"

definition sessionM :: "SOCKET \<Rightarrow> (node, clientSession) mon" where
  "sessionM fd = getsM (\<lambda>n. session_of n fd)"

definition upd_session :: "SOCKET \<Rightarrow> (clientSession \<Rightarrow> clientSession) \<Rightarrow> (node, unit) mon" where
  "upd_session fd f = modifyM (\<lambda>n. n\<lparr>sessions := AList.map_entry fd f (sessions n)\<rparr>)"

definition setUser :: "SOCKET \<Rightarrow> user \<Rightarrow> (node, unit) mon" where
  "setUser fd u = upd_session fd (\<lambda>s. s\<lparr>cs_user := u\<rparr>)"

definition setRoom :: "SOCKET \<Rightarrow> room \<Rightarrow> (node, unit) mon" where
  "setRoom fd r = upd_session fd (\<lambda>s. s\<lparr>cs_room := r\<rparr>)"

definition setAuthenticated :: "SOCKET \<Rightarrow> bool \<Rightarrow> (node, unit) mon" where
  "setAuthenticated fd b = upd_session fd (\<lambda>s. s\<lparr>cs_authenticated := b\<rparr>)"

definition touch :: "SOCKET \<Rightarrow> (node, unit) mon" where
  "touch fd = bindM (getsM n_steady) (\<lambda>t. upd_session fd (\<lambda>s. s\<lparr>cs_lastHeartbeat := t\<rparr>))"

definition isAlive :: "int \<Rightarrow> clientSession \<Rightarrow> bool" where
  "isAlive now s \<longleftrightarrow> now - cs_lastHeartbeat s < HEARTBEAT_TIMEOUT"

section \<open>Writing to sockets\<close>

text \<open>\<open>socket_io::writePacket\<close>: nothing is sent when the packet does not fit a frame.\<close>

definition writeM :: "SOCKET \<Rightarrow> wire \<Rightarrow> (node, bool) mon" where
  "writeM fd w = (\<lambda>n.
     if serialize (wire_packet w) = [] \<or> fd \<in> set (n_broken n) then (Inr False, n)
     else (Inr True, n\<lparr>n_sent := n_sent n @ [(fd, w)]\<rparr>))"

definition closeFd :: "SOCKET \<Rightarrow> (node, unit) mon" where
  "closeFd fd = modifyM (\<lambda>n. n\<lparr>n_closedFds := n_closedFds n @ [fd]\<rparr>)"

definition sendPacket :: "SOCKET \<Rightarrow> packet \<Rightarrow> (node, bool) mon" where
  "sendPacket fd packet =
     bindM (getsM (\<lambda>n. (map_of (sessions n) fd, fd \<in> set (webSockets n)))) (\<lambda>(session, webSocket).
       case session of
         None \<Rightarrow> returnM False
       | Some s \<Rightarrow>
           if cs_closed s then returnM False
           else writeM fd (if webSocket then Web packet else Tcp packet))"

definition markClosed :: "SOCKET \<Rightarrow> (node, bool) mon" where
  "markClosed fd =
     bindM (sessionM fd) (\<lambda>s.
       if cs_closed s then returnM False
       else thenM (upd_session fd (\<lambda>s. s\<lparr>cs_closed := True\<rparr>)) (returnM True))"

definition closeClient :: "SOCKET \<Rightarrow> (node, unit) mon" where
  "closeClient fd =
     bindM (getsM (\<lambda>n. map_of (sessions n) fd)) (\<lambda>session.
       case session of
         None \<Rightarrow> returnM ()
       | Some _ \<Rightarrow> bindM (markClosed fd) (\<lambda>first. whenM first (closeFd fd)))"

definition addSession :: "SOCKET \<Rightarrow> clientSession \<Rightarrow> (node, unit) mon" where
  "addSession fd s = modifyM (\<lambda>n. n\<lparr>sessions := AList.update fd s (sessions n)\<rparr>)"

definition markWebSocket :: "SOCKET \<Rightarrow> (node, unit) mon" where
  "markWebSocket fd = modifyM (\<lambda>n. n\<lparr>webSockets := set_insert fd (webSockets n)\<rparr>)"

definition hasSession :: "user \<Rightarrow> (node, bool) mon" where
  "hasSession u =
     getsM (\<lambda>n. \<exists>(fd, s)\<in>set (sessions n). cs_authenticated s \<and> user_eq (cs_user s) u)"

definition pushServerDirectory :: "string \<Rightarrow> SOCKET \<Rightarrow> (node, unit) mon" where
  "pushServerDirectory body only =
     bindM (packetM ''server'' ''*'' SERVER_DIRECTORY '''' body 0) (\<lambda>packet.
       if only \<noteq> INVALID_SOCKET then thenM (sendPacket only packet) (returnM ())
       else bindM (getsM sessions) (\<lambda>ss.
         forM ss (\<lambda>(fd, s). whenM (\<not> cs_closed s) (thenM (sendPacket fd packet) (returnM ())))))"

end
