(* ===== verification/Room_Manager.thy ===== *)
theory Room_Manager
  imports Node
begin

text \<open>
  src/server/room_manager.cpp: which rooms exist, which sockets are in them, moving a session from
  room to room with the membership row in the database, and sending to a room. A failed database
  write takes \<open>joinRoom\<close> back to the previous room.
\<close>

definition room_manager_start :: "(node, unit) mon" where
  "room_manager_start =
     bindM (dbM db_listRooms) (\<lambda>defaultRooms.
       forM defaultRooms (\<lambda>room. modifyM (\<lambda>n.
         if map_of (knownRooms n) (ro_name room) = None
         then n\<lparr>knownRooms := knownRooms n @ [(ro_name room, room)]\<rparr> else n)))"

definition getRoom :: "string \<Rightarrow> (node, room option) mon" where
  "getRoom name =
     getsM (\<lambda>n. map_of (knownRooms n) (if name = [] then ro_name LOBBY else name))"

definition members_of :: "node \<Rightarrow> string \<Rightarrow> SOCKET list" where
  "members_of n room = (case map_of (members n) room of Some fds \<Rightarrow> fds | None \<Rightarrow> [])"

definition removeSocketLocked :: "SOCKET \<Rightarrow> string \<Rightarrow> (node, unit) mon" where
  "removeSocketLocked fd roomName = modifyM (\<lambda>n.
     case map_of (members n) roomName of
       None \<Rightarrow> n
     | Some fds \<Rightarrow>
         let rest = removeAll fd fds in
         if rest = [] then n\<lparr>members := AList.delete roomName (members n)\<rparr>
         else n\<lparr>members := AList.update roomName rest (members n)\<rparr>)"

text \<open>\<open>members[roomName].insert(socket)\<close>\<close>

definition insertSocket :: "SOCKET \<Rightarrow> string \<Rightarrow> (node, unit) mon" where
  "insertSocket fd roomName = modifyM (\<lambda>n.
     n\<lparr>members := AList.update roomName (set_insert fd (members_of n roomName)) (members n)\<rparr>)"

definition joinRoom :: "string \<Rightarrow> SOCKET \<Rightarrow> (node, bool) mon" where
  "joinRoom roomName fd =
     bindM (sessionM fd) (\<lambda>session.
     bindM (getsM nodeId) (\<lambda>node.
     let name = (if roomName = [] then ro_name LOBBY else roomName);
         previousRoomId = ro_id (cs_room session);
         previousRoom = ro_name (cs_room session);
         username = u_username (cs_user session)
     in
     bindM (getsM (\<lambda>n. map_of (knownRooms n) name)) (\<lambda>roomIt.
     case roomIt of
       None \<Rightarrow> returnM False
     | Some room \<Rightarrow>
         thenM (removeSocketLocked fd previousRoom)
        (thenM (setRoom fd room)
        (thenM (insertSocket fd name)
        (if cs_authenticated session then
           catchM
             (thenM (whenM (previousRoomId \<noteq> ro_id room) (dbM (clearMembership username previousRoomId)))
             (thenM (dbM (setMembership username (ro_id room) node))
               (returnM True)))
             (\<lambda>_.
               thenM (removeSocketLocked fd name)
              (bindM (getsM (\<lambda>n. map_of (knownRooms n) previousRoom)) (\<lambda>prevIt.
                 case prevIt of
                   Some prev \<Rightarrow>
                     thenM (setRoom fd prev) (thenM (insertSocket fd previousRoom) (returnM False))
                 | None \<Rightarrow>
                     thenM (setRoom fd LOBBY) (thenM (insertSocket fd (ro_name LOBBY)) (returnM False)))))
         else returnM True))))))"

text \<open>\<open>leaveAll\<close> is also called for a session that has just left the table, hence the session value.\<close>

definition leaveAll :: "SOCKET \<Rightarrow> clientSession \<Rightarrow> (node, unit) mon" where
  "leaveAll fd session =
     thenM (removeSocketLocked fd (ro_name (cs_room session)))
    (thenM (setRoom fd LOBBY)
      (whenM (cs_authenticated session \<and> u_username (cs_user session) \<noteq> [])
        (catchM (dbM (clearAllMembership (u_username (cs_user session)))) (\<lambda>_. returnM ()))))"

text \<open>The send loop of \<open>broadcast\<close>.\<close>

fun sendAll :: "SOCKET list \<Rightarrow> packet \<Rightarrow> SOCKET \<Rightarrow> (node, bool) mon" where
  "sendAll [] packet skip = returnM True"
| "sendAll (fd # fds) packet skip =
     (if fd = skip then sendAll fds packet skip
      else bindM (sendPacket fd packet) (\<lambda>ok.
        bindM (sendAll fds packet skip) (\<lambda>rest. returnM (ok \<and> rest))))"

definition broadcast :: "room \<Rightarrow> packet \<Rightarrow> SOCKET \<Rightarrow> (node, bool) mon" where
  "broadcast room packet skip =
     bindM (getsM (\<lambda>n. members_of n (ro_name room))) (\<lambda>fds. sendAll fds packet skip)"

definition rm_createRoom :: "room \<Rightarrow> string \<Rightarrow> (node, bool) mon" where
  "rm_createRoom room creatorEmail =
     bindM (getsM (\<lambda>n. map_of (knownRooms n) (ro_name room))) (\<lambda>found.
       if found \<noteq> None then returnM False
       else catchM
         (bindM (dbM (db_createRoom (ro_name room) (ro_type room) (ro_privacy room) creatorEmail)) (\<lambda>created.
            thenM (modifyM (\<lambda>n. n\<lparr>knownRooms := knownRooms n @ [(ro_name created, created)]\<rparr>))
              (returnM True)))
         (\<lambda>_. returnM False))"

definition rm_listRooms :: "(node, room list) mon" where
  "rm_listRooms = getsM (\<lambda>n. map snd (knownRooms n))"

text \<open>The loop that moves one evicted session to the Lobby.\<close>

definition moveToLobby :: "int \<Rightarrow> SOCKET \<Rightarrow> (node, unit) mon" where
  "moveToLobby deletedRoomId fd =
     bindM (getsM (\<lambda>n. map_of (sessions n) fd)) (\<lambda>it.
     case it of
       None \<Rightarrow> returnM ()
     | Some session \<Rightarrow>
         thenM (setRoom fd LOBBY)
           (whenM (cs_authenticated session \<and> u_username (cs_user session) \<noteq> [])
             (catchM
               (bindM (getsM nodeId) (\<lambda>node.
                 thenM (dbM (clearMembership (u_username (cs_user session)) deletedRoomId))
                   (dbM (setMembership (u_username (cs_user session)) (ro_id LOBBY) node))))
               (\<lambda>_. returnM ()))))"

definition sendTo :: "SOCKET \<Rightarrow> packet \<Rightarrow> (node, unit) mon" where
  "sendTo fd packet = thenM (sendPacket fd packet) (returnM ())"

definition rm_deleteRoom :: "string \<Rightarrow> (node, bool) mon" where
  "rm_deleteRoom roomName =
     (if roomName = ro_name LOBBY \<or> roomName = ro_name GENERAL then returnM False
      else bindM (getsM (\<lambda>n. map_of (knownRooms n) roomName)) (\<lambda>roomIt.
      case roomIt of
        None \<Rightarrow> returnM False
      | Some room \<Rightarrow>
          bindM (getsM (\<lambda>n. members_of n roomName)) (\<lambda>sockets.
            thenM (modifyM (\<lambda>n. n\<lparr>members := AList.delete roomName (members n),
                                  knownRooms := AList.delete roomName (knownRooms n)\<rparr>))
           (thenM (forM sockets (\<lambda>fd. insertSocket fd (ro_name LOBBY)))
            (bindM
               (catchM (thenM (dbM (db_deleteRoom (ro_id room))) (returnM True)) (\<lambda>_. returnM False))
               (\<lambda>deleted.
                 if \<not> deleted then returnM False
                 else
                   thenM (forM sockets (moveToLobby (ro_id room)))
                  (bindM rm_listRooms (\<lambda>rooms.
                   bindM (packetM ''server'' ''*'' ROOM_LIST (ro_name LOBBY) (serializeList rooms) 0) (\<lambda>lobbyPush.
                     thenM (forM sockets (\<lambda>fd. sendTo fd lobbyPush)) (returnM True))))))))))"

fun broadcastRooms :: "room list \<Rightarrow> packet \<Rightarrow> SOCKET \<Rightarrow> (node, bool) mon" where
  "broadcastRooms [] packet skip = returnM True"
| "broadcastRooms (room # rooms) packet skip =
     bindM (broadcast room packet skip) (\<lambda>ok.
       bindM (broadcastRooms rooms packet skip) (\<lambda>rest. returnM (ok \<and> rest)))"

definition broadcastAll :: "packet \<Rightarrow> SOCKET \<Rightarrow> (node, bool) mon" where
  "broadcastAll packet skip =
     bindM (getsM (\<lambda>n. List.map_filter (\<lambda>(roomName, _). map_of (knownRooms n) roomName) (members n)))
       (\<lambda>rooms. broadcastRooms rooms packet skip)"

end
