(* ===== verification/Gossip_Manager.thy ===== *)
theory Gossip_Manager
  imports Room_Manager
begin

text \<open>
  src/server/gossip_manager.cpp: the peers of this node, the bounded log of recent events, applying
  an event to the local database and sessions, spreading an event, and one step per packet of a
  peer connection. The threads of the class become operations: one round of the dial loop, one
  round of the anti-entropy loop, one accepted peer, one peer connection fed with the packets it
  reads. \<open>socket_io::connectTo\<close> is a parameter that gives the socket for an address, or
  \<open>INVALID_SOCKET\<close>.
\<close>

definition MAX_EVENT_LOG :: nat where "MAX_EVENT_LOG = 256"

section \<open>Peers\<close>

definition getClientPeers :: "node \<Rightarrow> (string \<times> clientEndpoint) list" where
  "getClientPeers n = filter (\<lambda>(_, e). isLiveClientEndpoint e) (clientPeers n)"

definition peerSocketsLocked :: "node \<Rightarrow> SOCKET list" where
  "peerSocketsLocked n = filter (\<lambda>fd. fd \<noteq> INVALID_SOCKET) (map (\<lambda>(_, e). ce_socket e) (clientPeers n))"

fun directory_text :: "(string \<times> clientEndpoint) list \<Rightarrow> string \<Rightarrow> string" where
  "directory_text [] out = out"
| "directory_text ((_, e) # es) out =
     (if \<not> isLiveClientEndpoint e then directory_text es out
      else directory_text es ((if out \<noteq> [] then out @ '';'' else out) @ endpoint_serialize e))"

definition buildServerDirectory :: "node \<Rightarrow> string" where
  "buildServerDirectory n = directory_text (clientPeers n) []"

definition notifyServerDirectoryChanged :: "(node, unit) mon" where
  "notifyServerDirectoryChanged =
     bindM (getsM buildServerDirectory) (\<lambda>body. pushServerDirectory body INVALID_SOCKET)"

definition parseHostPort :: "string \<Rightarrow> (string \<times> u16) option" where
  "parseHostPort addr =
     (case rfind_char (CHR '':'') addr of
        None \<Rightarrow> None
      | Some colon \<Rightarrow>
          if colon = 0 \<or> colon + 1 \<ge> length addr then None
          else (case std_stoul (drop (colon + 1) addr) of
            None \<Rightarrow> None
          | Some p \<Rightarrow> if p = 0 \<or> p > 65535 then None else Some (substr addr 0 colon, of_nat p)))"

definition eventIdFromPacket :: "packet \<Rightarrow> string" where
  "eventIdFromPacket packet = eventId (p_message packet)"

definition registerPeer :: "SOCKET \<Rightarrow> string \<Rightarrow> string \<Rightarrow> u16 \<Rightarrow> (node, bool) mon" where
  "registerPeer fd node host port =
     bindM (getsM (\<lambda>n. (nodeId n, map_of (clientPeers n) node))) (\<lambda>(self, existing).
       if node = [] \<or> node = self then returnM False
       else if existing \<noteq> None then returnM False
       else thenM
         (modifyM (\<lambda>n. n\<lparr>clientPeers := AList.update node
            \<lparr>ce_nodeId = node, ce_host = host, ce_port = port, ce_socket = fd\<rparr> (clientPeers n)\<rparr>))
         (returnM True))"

text \<open>The erase loop of \<open>removePeer\<close>: \<open>removedLive\<close> is that of the last entry erased.\<close>

fun erase_socket :: "SOCKET \<Rightarrow> (string \<times> clientEndpoint) list \<Rightarrow> bool \<Rightarrow> (string \<times> clientEndpoint) list \<times> bool" where
  "erase_socket fd [] removedLive = ([], removedLive)"
| "erase_socket fd ((k, e) # es) removedLive =
     (if ce_socket e = fd then erase_socket fd es (isLiveClientEndpoint e)
      else case erase_socket fd es removedLive of (rest, live) \<Rightarrow> ((k, e) # rest, live))"

definition removePeer :: "SOCKET \<Rightarrow> (node, unit) mon" where
  "removePeer fd =
     bindM (getsM (\<lambda>n. erase_socket fd (clientPeers n) False)) (\<lambda>(rest, removedLive).
       thenM (modifyM (\<lambda>n. n\<lparr>clientPeers := rest, outboundAddrs := AList.delete fd (outboundAddrs n)\<rparr>))
         (whenM removedLive notifyServerDirectoryChanged))"

definition isNodeLive :: "string \<Rightarrow> node \<Rightarrow> bool" where
  "isNodeLive node n =
     (case map_of (clientPeers n) node of None \<Rightarrow> False | Some e \<Rightarrow> ce_socket e \<noteq> INVALID_SOCKET)"

definition gossipSend :: "SOCKET \<Rightarrow> packet \<Rightarrow> (node, bool) mon" where
  "gossipSend fd packet = writeM fd (Tcp packet)"

definition gossipSend_all :: "SOCKET list \<Rightarrow> packet \<Rightarrow> (node, unit) mon" where
  "gossipSend_all fds packet = forM fds (\<lambda>fd. thenM (gossipSend fd packet) (returnM ()))"

section \<open>The event log\<close>

text \<open>The eviction loop of \<open>rememberEventLocked\<close>.\<close>

fun evict :: "string list \<Rightarrow> (string \<times> packet) list \<Rightarrow> string list \<Rightarrow>
    string list \<times> (string \<times> packet) list \<times> string list" where
  "evict [] elog seen = ([], elog, seen)"
| "evict (old # ids) elog seen =
     (if length (old # ids) > MAX_EVENT_LOG
      then evict ids (AList.delete old elog) (removeAll old seen)
      else (old # ids, elog, seen))"

definition rememberEventLocked :: "string \<Rightarrow> packet \<Rightarrow> node \<Rightarrow> node" where
  "rememberEventLocked ident event n =
     (case evict (recentEventIds n @ [ident]) (AList.update ident event (eventLog n)) (seenEvents n) of
        (ids, elog, seen) \<Rightarrow> n\<lparr>recentEventIds := ids, eventLog := elog, seenEvents := seen\<rparr>)"

text \<open>\<open>if (!seenEvents.insert(id).second) ...; rememberEventLocked(id, event);\<close> \<open>True\<close> when the id is new.\<close>

definition noteEvent :: "string \<Rightarrow> packet \<Rightarrow> (node, bool) mon" where
  "noteEvent ident event = (\<lambda>n.
     if ident \<in> set (seenEvents n) then (Inr False, n)
     else (Inr True, rememberEventLocked ident event (n\<lparr>seenEvents := seenEvents n @ [ident]\<rparr>)))"

fun digest_text :: "string list \<Rightarrow> string \<Rightarrow> string" where
  "digest_text [] out = out"
| "digest_text (i # ids) out = digest_text ids ((if out \<noteq> [] then out @ ''|'' else out) @ i)"

definition buildDigestLocked :: "node \<Rightarrow> string" where
  "buildDigestLocked n = digest_text (recentEventIds n) []"

section \<open>Applying events\<close>

definition applyLogin :: "string \<Rightarrow> string \<Rightarrow> (node, bool) mon" where
  "applyLogin username content =
     (if username = [] \<or> content = [] then returnM False
      else bindM (dbM (onlineNode username)) (\<lambda>current.
        if current \<noteq> None \<and> current \<noteq> Some content then returnM True
        else thenM (dbM (setOnline username content)) (returnM True)))"

text \<open>A local session of a user who reconnected elsewhere falls back to an anonymous one.\<close>

definition demoteSession :: "string \<Rightarrow> SOCKET \<Rightarrow> (node, unit) mon" where
  "demoteSession username fd =
     bindM (sessionM fd) (\<lambda>session.
       whenM (cs_authenticated session \<and> u_username (cs_user session) = username)
         (thenM (setAuthenticated fd False)
         (thenM (bindM (sessionM fd) (\<lambda>s. leaveAll fd s))
         (thenM (bindM anonymousUserM (\<lambda>u. setUser fd u))
         (thenM (joinRoom (ro_name LOBBY) fd) (returnM ()))))))"

definition applyReconnect :: "string \<Rightarrow> string \<Rightarrow> (node, bool) mon" where
  "applyReconnect username content =
     (if username = [] \<or> content = [] then returnM False
      else thenM (dbM (setOnline username content))
          (thenM (dbM (moveMembership username content))
          (bindM (getsM (\<lambda>n. (nodeId n, map fst (sessions n)))) (\<lambda>(self, fds).
           thenM (whenM (content \<noteq> self) (forM fds (demoteSession username)))
             (returnM True)))))"

definition applyLogout :: "string \<Rightarrow> (node, bool) mon" where
  "applyLogout username =
     (if username = [] then returnM False
      else thenM (dbM (clearOnline username))
          (thenM (dbM (clearAllMembership username)) (returnM True)))"

definition applyUserCreated :: "string \<Rightarrow> string \<Rightarrow> string \<Rightarrow> (node, bool) mon" where
  "applyUserCreated username content email =
     (if username = [] \<or> content = [] \<or> email = [] then returnM False
      else bindM (dbM (userExists username)) (\<lambda>exists.
        if exists then returnM True
        else catchM (thenM (dbM (createUser username content email)) (returnM True)) (\<lambda>_. returnM False)))"

definition pushRoomList :: "SOCKET \<Rightarrow> (node, unit) mon" where
  "pushRoomList skip =
     bindM rm_listRooms (\<lambda>rooms.
     bindM (packetM ''server'' ''*'' ROOM_LIST '''' (serializeList rooms) 0) (\<lambda>push.
       thenM (broadcastAll push skip) (returnM ())))"

definition applyRoomCreated :: "string \<Rightarrow> string \<Rightarrow> string \<Rightarrow> string \<Rightarrow> (node, bool) mon" where
  "applyRoomCreated roomName username content ts =
     (if roomName = [] then returnM False
      else
        bindM (if username \<noteq> [] then dbM (getUser username) else returnM None) (\<lambda>creator.
        let creatorEmail = (case creator of Some u \<Rightarrow> u_email u | None \<Rightarrow> []) in
        bindM (getRoom roomName) (\<lambda>existing.
        bindM
          (case existing of
             None \<Rightarrow> rm_createRoom (mkRoom 0 roomName (stringToRoomType content) (stringToPrivacy ts)) creatorEmail
           | Some room \<Rightarrow>
               if creatorEmail \<noteq> []
               then catchM (thenM (dbM (addToAllowList (ro_id room) creatorEmail True)) (returnM True))
                      (\<lambda>_. returnM True)
               else returnM True)
          (\<lambda>ok.
            if \<not> ok then returnM False
            else thenM (pushRoomList INVALID_SOCKET) (returnM True)))))"

definition applyAclAdd :: "string \<Rightarrow> string \<Rightarrow> string \<Rightarrow> (node, bool) mon" where
  "applyAclAdd roomName username content =
     (if username = [] \<or> roomName = [] then returnM False
      else bindM (getRoom roomName) (\<lambda>room.
        case room of
          None \<Rightarrow> returnM False
        | Some r \<Rightarrow>
            bindM (dbM (getUser username)) (\<lambda>user.
            case user of
              None \<Rightarrow> returnM False
            | Some u \<Rightarrow>
                catchM (thenM (dbM (addToAllowList (ro_id r) (u_email u) (content = ''1''))) (returnM True))
                  (\<lambda>_. returnM False))))"

definition applyRoomDeleted :: "string \<Rightarrow> (node, bool) mon" where
  "applyRoomDeleted roomName =
     (if roomName = [] then returnM False
      else if roomName = ro_name LOBBY \<or> roomName = ro_name GENERAL then returnM False
      else
        bindM (getRoom roomName) (\<lambda>room.
        bindM (if room \<noteq> None then rm_deleteRoom roomName else returnM True) (\<lambda>ok.
          if \<not> ok then returnM False
          else thenM (pushRoomList INVALID_SOCKET) (returnM True))))"

definition pushLobbyTo :: "SOCKET \<Rightarrow> (node, unit) mon" where
  "pushLobbyTo fd =
     bindM rm_listRooms (\<lambda>rooms.
     bindM (packetM ''server'' ''*'' ROOM_LIST (ro_name LOBBY) (serializeList rooms) 0) (\<lambda>push.
       sendTo fd push))"

definition kickSession :: "string \<Rightarrow> string \<Rightarrow> SOCKET \<Rightarrow> (node, unit) mon" where
  "kickSession username roomName fd =
     bindM (sessionM fd) (\<lambda>session.
       whenM (cs_authenticated session \<and> u_username (cs_user session) = username \<and>
              ro_name (cs_room session) = roomName)
         (thenM (joinRoom (ro_name LOBBY) fd) (pushLobbyTo fd)))"

definition applyRoomKick :: "string \<Rightarrow> string \<Rightarrow> (node, bool) mon" where
  "applyRoomKick roomName username =
     (if username = [] \<or> roomName = [] then returnM False
      else
        bindM (getRoom roomName) (\<lambda>room.
        bindM (dbM (getUser username)) (\<lambda>user.
        thenM
          (case room of
             None \<Rightarrow> returnM ()
           | Some r \<Rightarrow>
               (case user of
                  None \<Rightarrow> returnM ()
                | Some u \<Rightarrow> catchM (dbM (removeFromAllowList (ro_id r) (u_email u))) (\<lambda>_. returnM ())))
        (bindM (getsM (\<lambda>n. map fst (sessions n))) (\<lambda>fds.
           thenM (forM fds (kickSession username roomName)) (returnM True))))))"

definition applyRoomJoin :: "string \<Rightarrow> string \<Rightarrow> string \<Rightarrow> string \<Rightarrow> (node, bool) mon" where
  "applyRoomJoin eventRoom username node prevRoom =
     (let newRoom = (if eventRoom = [] then ''Lobby'' else eventRoom) in
      if username = [] \<or> node = [] then returnM False
      else
        bindM (getRoom newRoom) (\<lambda>new.
        case new of
          None \<Rightarrow> returnM False
        | Some newR \<Rightarrow>
            thenM (whenM (prevRoom \<noteq> [] \<and> prevRoom \<noteq> newRoom)
              (bindM (getRoom prevRoom) (\<lambda>prev.
                 case prev of
                   None \<Rightarrow> returnM ()
                 | Some p \<Rightarrow> dbM (clearMembership username (ro_id p)))))
           (bindM (dbM (getUser username)) (\<lambda>user.
              if user = None then returnM True
              else thenM (dbM (setMembership username (ro_id newR) node)) (returnM True)))))"

definition applyRoomLeave :: "string \<Rightarrow> string \<Rightarrow> string \<Rightarrow> (node, bool) mon" where
  "applyRoomLeave eventRoom username ts =
     (let roomName = (if eventRoom \<noteq> [] then eventRoom else ts) in
      if username = [] \<or> roomName = [] then returnM False
      else
        bindM (getRoom roomName) (\<lambda>room.
        case room of
          None \<Rightarrow> returnM False
        | Some r \<Rightarrow> thenM (dbM (clearMembership username (ro_id r))) (returnM True)))"

definition applyMessage :: "string \<Rightarrow> string \<Rightarrow> string \<Rightarrow> string \<Rightarrow> string \<Rightarrow> (node, bool) mon" where
  "applyMessage eventRoom ident username content ts =
     (case std_stoll ts of
        None \<Rightarrow> returnM False
      | Some created \<Rightarrow>
          let roomName = (if eventRoom = [] then ''Lobby'' else eventRoom) in
          bindM (getRoom roomName) (\<lambda>room.
          case room of
            None \<Rightarrow> returnM False
          | Some r \<Rightarrow>
              bindM (dbM (getUser username)) (\<lambda>sender.
              case sender of
                None \<Rightarrow> returnM False
              | Some from_user \<Rightarrow>
                  bindM anonymousUserM (\<lambda>to_user.
                  bindM (getsM nodeId) (\<lambda>node.
                  bindM
                    (catchM
                      (bindM
                        (dbM (saveMessage node
                           \<lparr>m_from = from_user, m_to = to_user, m_content = content,
                            m_timestamp = created, m_id = ident\<rparr> (ro_id r)))
                        (\<lambda>ins. returnM (Some ins)))
                      (\<lambda>_. returnM None))
                    (\<lambda>inserted.
                      case inserted of
                        None \<Rightarrow> returnM False
                      | Some ins \<Rightarrow>
                          thenM (whenM ins
                            (bindM (packetM username '''' MESSAGE roomName content 0) (\<lambda>push.
                              thenM (broadcast r (push\<lparr>p_timestamp := of_int created\<rparr>) INVALID_SOCKET)
                                (returnM ()))))
                          (returnM True)))))))"

definition applyEvent :: "packet \<Rightarrow> (node, bool) mon" where
  "applyEvent event =
     (case decode (p_message event) of
        None \<Rightarrow> returnM False
      | Some f \<Rightarrow>
          let type = f_type f; username = f_username f; content = f_content f; ts = f_field5 f in
          if type = ''LOGIN'' then applyLogin username content
          else if type = ''RECONNECT'' then applyReconnect username content
          else if type = ''LOGOUT'' then applyLogout username
          else if type = ''USER_CREATED'' then applyUserCreated username content ts
          else if type = ''ROOM_CREATED'' then applyRoomCreated (p_room event) username content ts
          else if type = ''ROOM_ACL_ADD'' then applyAclAdd (p_room event) username content
          else if type = ''ROOM_DELETED'' then applyRoomDeleted (p_room event)
          else if type = ''ROOM_KICK'' then applyRoomKick (p_room event) username
          else if type = ''ROOM_JOIN'' then applyRoomJoin (p_room event) username content ts
          else if type = ''ROOM_LEAVE'' then applyRoomLeave (p_room event) username ts
          else if type \<noteq> ''MESSAGE'' then returnM True
          else applyMessage (p_room event) (f_eventId f) username content ts)"

section \<open>Spreading events\<close>

definition gossipRumor :: "packet \<Rightarrow> (node, unit) mon" where
  "gossipRumor event =
     (let ident = eventIdFromPacket event in
      if ident = [] then returnM ()
      else
        bindM (getsM nodeId) (\<lambda>self.
        let out = event\<lparr>p_type := GOSSIP_EVENT,
                        p_sender := (if p_sender event = [] then self else p_sender event),
                        p_receiver := (if p_receiver event = [] then ''*'' else p_receiver event)\<rparr> in
        bindM (noteEvent ident out) (\<lambda>fresh.
          whenM fresh
            (thenM (applyEvent out)
              (bindM (getsM peerSocketsLocked) (\<lambda>fds. gossipSend_all fds out))))))"

section \<open>A peer connection\<close>

definition peerHello :: "SOCKET \<Rightarrow> packet \<Rightarrow> (node, bool) mon" where
  "peerHello fd packet =
     (let (host, port) = (case parseHostPort (p_message packet) of None \<Rightarrow> ([], 0) | Some hp \<Rightarrow> hp) in
      bindM (registerPeer fd (p_sender packet) host port) (\<lambda>ok.
        if \<not> ok then returnM False
        else thenM (whenM (host \<noteq> [] \<and> port \<noteq> 0) notifyServerDirectoryChanged) (returnM True)))"

definition peerEvent :: "packet \<Rightarrow> (node, unit) mon" where
  "peerEvent packet =
     (let ident = eventIdFromPacket packet in
      if ident = [] then returnM ()
      else bindM (noteEvent ident packet) (\<lambda>fresh.
        whenM fresh (thenM (applyEvent packet) (returnM ()))))"

definition missingIds :: "node \<Rightarrow> string \<Rightarrow> string list" where
  "missingIds n text =
     filter (\<lambda>i. i \<noteq> [] \<and> i \<notin> set (seenEvents n)) (getlines (CHR ''|'') text)"

definition peerDigest :: "SOCKET \<Rightarrow> packet \<Rightarrow> (node, unit) mon" where
  "peerDigest fd packet =
     bindM (getsM (\<lambda>n. missingIds n (p_message packet))) (\<lambda>missing.
       if missing = [] then returnM ()
       else
         bindM (getsM nodeId) (\<lambda>self.
         bindM (packetM self (p_sender packet) GOSSIP_PULL '''' '''' 0) (\<lambda>pull.
           thenM (gossipSend fd (pull\<lparr>p_message := join_with (CHR ''|'') missing\<rparr>)) (returnM ()))))"

definition peerPull :: "SOCKET \<Rightarrow> packet \<Rightarrow> (node, unit) mon" where
  "peerPull fd packet =
     forM (getlines (CHR ''|'') (p_message packet)) (\<lambda>ident.
       whenM (ident \<noteq> [])
         (bindM (getsM (\<lambda>n. map_of (eventLog n) ident)) (\<lambda>full.
            case full of
              None \<Rightarrow> returnM ()
            | Some p \<Rightarrow> thenM (gossipSend fd (p\<lparr>p_type := GOSSIP_EVENT\<rparr>)) (returnM ()))))"

text \<open>One packet of \<open>handlePeer\<close>; the result is the new \<open>registered\<close> flag and \<open>reject\<close>.\<close>

definition peerPacket :: "SOCKET \<Rightarrow> bool \<Rightarrow> packet \<Rightarrow> (node, bool \<times> bool) mon" where
  "peerPacket fd registered packet =
     (case p_type packet of
        GOSSIP_HELLO \<Rightarrow>
          bindM (peerHello fd packet) (\<lambda>ok. returnM (if ok then (True, False) else (registered, True)))
      | GOSSIP_EVENT \<Rightarrow> thenM (whenM registered (peerEvent packet)) (returnM (registered, False))
      | GOSSIP_DIGEST \<Rightarrow> thenM (whenM registered (peerDigest fd packet)) (returnM (registered, False))
      | GOSSIP_PULL \<Rightarrow> thenM (whenM registered (peerPull fd packet)) (returnM (registered, False))
      | _ \<Rightarrow> returnM (registered, False))"

fun peerLoop :: "SOCKET \<Rightarrow> bool \<Rightarrow> packet list \<Rightarrow> (node, unit) mon" where
  "peerLoop fd registered [] = returnM ()"
| "peerLoop fd registered (p # ps) =
     bindM (getsM g_stopped) (\<lambda>stop.
       if stop then returnM ()
       else bindM (peerPacket fd registered p) (\<lambda>(reg, reject).
         if reject then returnM () else peerLoop fd reg ps))"

definition handlePeer :: "SOCKET \<Rightarrow> packet list \<Rightarrow> (node, unit) mon" where
  "handlePeer fd incoming =
     thenM (peerLoop fd False incoming)
    (thenM (removePeer fd)
      (bindM (getsM (\<lambda>n. fd \<in> set (openPeerSockets n))) (\<lambda>shouldClose.
        thenM (modifyM (\<lambda>n. n\<lparr>openPeerSockets := removeAll fd (openPeerSockets n)\<rparr>))
          (whenM shouldClose (closeFd fd)))))"

section \<open>The loops\<close>

definition helloPacket :: "(node, packet) mon" where
  "helloPacket =
     bindM (getsM n_cfg) (\<lambda>c.
     bindM (packetM (NODE_ID c) ''*'' GOSSIP_HELLO '''' '''' 0) (\<lambda>hello.
       returnM (hello\<lparr>p_message := SERVER_HOST c @ '':'' @ nat_to_string (unat (PORT c))\<rparr>)))"

definition acceptPeer :: "SOCKET \<Rightarrow> (node, unit) mon" where
  "acceptPeer fd =
     thenM (modifyM (\<lambda>n. n\<lparr>openPeerSockets := set_insert fd (openPeerSockets n)\<rparr>))
       (bindM helloPacket (\<lambda>hello. thenM (gossipSend fd hello) (returnM ())))"

text \<open>\<open>std::string\<close> comparison: unsigned bytes, a proper prefix first.\<close>

fun str_le :: "string \<Rightarrow> string \<Rightarrow> bool" where
  "str_le [] t = True"
| "str_le (c # s) [] = False"
| "str_le (c # s) (d # t) = ((of_char c :: nat) < of_char d \<or> c = d \<and> str_le s t)"

fun dialRound :: "(string \<Rightarrow> u16 \<Rightarrow> SOCKET) \<Rightarrow> string list \<Rightarrow> (node, unit) mon" where
  "dialRound connectTo [] = returnM ()"
| "dialRound connectTo (addr # addrs) =
     bindM (getsM (\<lambda>n. n)) (\<lambda>n.
       let c = n_cfg n; selfGossip = SERVER_HOST c @ '':'' @ nat_to_string (unat (PEER_PORT c)) in
       if g_stopped n then returnM ()
       else if str_le addr selfGossip then dialRound connectTo addrs
       else if PEERS c \<noteq> [] \<and> length (peerSocketsLocked n) \<ge> length (PEERS c) then returnM ()
       else if addr \<in> snd ` set (outboundAddrs n) then dialRound connectTo addrs
       else (case parseHostPort addr of
           None \<Rightarrow> dialRound connectTo addrs
         | Some (host, port) \<Rightarrow>
             let fd = connectTo host port in
             if fd = INVALID_SOCKET then dialRound connectTo addrs
             else bindM helloPacket (\<lambda>hello.
               bindM (gossipSend fd hello) (\<lambda>sent.
               thenM
                 (if \<not> sent then closeFd fd
                  else modifyM (\<lambda>n. n\<lparr>outboundAddrs := AList.update fd addr (outboundAddrs n),
                                     openPeerSockets := set_insert fd (openPeerSockets n)\<rparr>))
                 (dialRound connectTo addrs)))))"

definition antiEntropyRound :: "(node, unit) mon" where
  "antiEntropyRound =
     bindM (getsM (\<lambda>n. (g_stopped n, nodeId n, buildDigestLocked n, peerSocketsLocked n)))
       (\<lambda>(stop, self, body, fds).
         whenM (\<not> stop)
           (bindM (packetM self ''*'' GOSSIP_DIGEST '''' '''' 0) (\<lambda>digest.
             gossipSend_all fds (digest\<lparr>p_message := body\<rparr>))))"

text \<open>\<open>listen_ok\<close>: whether \<open>socket_io::listenTo\<close> got the peer port.\<close>

definition gossip_start :: "bool \<Rightarrow> (node, unit) mon" where
  "gossip_start listen_ok = modifyM (\<lambda>n.
     if \<not> g_stopped n \<or> \<not> listen_ok then n
     else n\<lparr>g_stopped := False,
            clientPeers := AList.update (nodeId n)
              \<lparr>ce_nodeId = nodeId n, ce_host = SERVER_HOST (n_cfg n), ce_port = PORT (n_cfg n),
               ce_socket = INVALID_SOCKET\<rparr> (clientPeers n)\<rparr>)"

definition gossip_stop :: "(node, unit) mon" where
  "gossip_stop = modifyM (\<lambda>n.
     if g_stopped n then n
     else n\<lparr>g_stopped := True, n_closedFds := n_closedFds n @ openPeerSockets n,
            openPeerSockets := [], outboundAddrs := [], clientPeers := []\<rparr>)"

end
