(* ===== verification/Database_Live.thy ===== *)
theory Database_Live
  imports Database_Invariant
begin

text \<open>
  The database as the running node needs it: the stored data satisfy \<open>db_ok\<close>, no disk failure is
  pending, and the rooms with the ids in \<open>D\<close> (those the room manager knows) are stored. Every
  operation but \<open>deleteRoom\<close> keeps this for every \<open>D\<close>; the operations the code calls outside a
  \<open>try\<close> block do not throw.
\<close>

definition rooms_kept :: "int set \<Rightarrow> db \<Rightarrow> bool" where
  "rooms_kept D d \<longleftrightarrow> db_faults d = [] \<and> D \<subseteq> rr_id ` set (t_rooms d)"

definition db_live :: "int set \<Rightarrow> db \<Rightarrow> bool" where
  "db_live D d \<longleftrightarrow> db_ok d \<and> rooms_kept D d"

named_theorems live_keeps \<open>database operations keep the live invariant\<close>
named_theorems live_safe \<open>database operations that do not throw on a live database\<close>

lemma db_live_simps:
  "db_live D d \<Longrightarrow> db_ok d" "db_live D d \<Longrightarrow> db_faults d = []" "db_live D d \<Longrightarrow> fk_on d"
  "db_live D d \<Longrightarrow> i \<in> D \<Longrightarrow> has_room d i"
  by (auto simp: db_live_def rooms_kept_def db_ok_def has_room_def)

lemma live_mono: "db_live D d \<Longrightarrow> D' \<subseteq> D \<Longrightarrow> db_live D' d"
  by (auto simp: db_live_def rooms_kept_def)

lemma keeps_live: "keeps db_ok m \<Longrightarrow> keeps (rooms_kept D) m \<Longrightarrow> keeps (db_live D) m"
  by (simp add: keeps_def db_live_def)

section \<open>Rooms and faults are untouched\<close>

lemma keeps_outcome_live [keeps_intros]: "keeps (rooms_kept D) statement_outcome" "keeps (db_live D) statement_outcome"
  by (simp_all add: keeps_def rooms_kept_def db_live_def)

lemmas keeps_step_rooms = keeps_step_stmt [OF keeps_outcome_live(1)]

lemma rooms_kept_cong:
  "db_faults d' = db_faults d \<Longrightarrow> t_rooms d' = t_rooms d \<Longrightarrow> rooms_kept D d \<Longrightarrow> rooms_kept D d'"
  by (simp add: rooms_kept_def)

lemma stmt_rooms_kept:
  assumes "rooms_kept D d"
  shows "sql_create_user u e p t d = Inr (n, d') \<Longrightarrow> rooms_kept D d'"
    and "sql_update_user_password p u d = Inr (n, d') \<Longrightarrow> rooms_kept D d'"
    and "sql_save_message m d = Inr (n, d') \<Longrightarrow> rooms_kept D d'"
    and "sql_set_membership u i nd d = Inr (n, d') \<Longrightarrow> rooms_kept D d'"
    and "sql_clear_membership u i d = Inr (n, d') \<Longrightarrow> rooms_kept D d'"
    and "sql_clear_all_membership u d = Inr (n, d') \<Longrightarrow> rooms_kept D d'"
    and "sql_move_membership nd u d = Inr (n, d') \<Longrightarrow> rooms_kept D d'"
    and "sql_set_online u nd d = Inr (n, d') \<Longrightarrow> rooms_kept D d'"
    and "sql_clear_online u d = Inr (n, d') \<Longrightarrow> rooms_kept D d'"
    and "sql_clear_node_presence nd d = Inr (n, d') \<Longrightarrow> rooms_kept D d'"
    and "sql_create_room nm rt pv d = Inr (n, d') \<Longrightarrow> rooms_kept D d'"
    and "sql_add_user_allow_list i e c d = Inr (n, d') \<Longrightarrow> rooms_kept D d'"
    and "sql_remove_user_allow_list i e d = Inr (n, d') \<Longrightarrow> rooms_kept D d'"
  using assms
  by (auto simp: rooms_kept_def sql_create_user_def sql_update_user_password_def sql_save_message_def
      sql_set_membership_def sql_clear_membership_def sql_clear_all_membership_def sql_move_membership_def
      sql_set_online_def sql_clear_online_def sql_clear_node_presence_def sql_create_room_def
      sql_add_user_allow_list_def sql_remove_user_allow_list_def Let_def split: if_splits)

lemma rename_rooms_kept:
  assumes "rooms_kept D d" and "st \<in> set (sql_update_user new old)" and "st d = Inr (n, d')"
  shows "rooms_kept D d'"
proof (rule rooms_kept_cong [OF _ _ assms(1)])
  show "db_faults d' = db_faults d" and "t_rooms d' = t_rooms d"
    using assms(2,3) by (auto simp: sql_update_user_def sql_rename_users_def sql_rename_membership_def
        sql_rename_online_def sql_rename_messages_def Let_def split: if_splits)
qed

lemma keeps_rooms_rename: "keeps (rooms_kept D) (run_sql (sql_update_user new old))"
  by (intro keeps_run_sql keeps_step_rooms) (rule rename_rooms_kept)

lemmas step_rooms_kept = stmt_rooms_kept [THEN keeps_step_rooms]

lemma keeps_rooms_fk: "keeps (rooms_kept D) (exec_foreign_keys b)"
  unfolding exec_foreign_keys_def
  by (intro keeps_intros keeps_modifyM) (auto simp: rooms_kept_def)

lemma keeps_rooms_writes:
  "keeps (rooms_kept D) (setMembership u i n)" "keeps (rooms_kept D) (clearMembership u i)"
  "keeps (rooms_kept D) (setOnline u n)" "keeps (rooms_kept D) (clearOnline u)"
  "keeps (rooms_kept D) (clearNodePresence n)" "keeps (rooms_kept D) (moveMembership u n)"
  "keeps (rooms_kept D) (clearAllMembership u)" "keeps (rooms_kept D) (addToAllowList i e c)"
  "keeps (rooms_kept D) (removeFromAllowList i e)"
  unfolding setMembership_def clearMembership_def setOnline_def clearOnline_def clearNodePresence_def
    moveMembership_def clearAllMembership_def addToAllowList_def removeFromAllowList_def
  by (intro keeps_single step_rooms_kept; assumption)+

lemma keeps_rooms_reads:
  "keeps (rooms_kept D) (getUser u)" "keeps (rooms_kept D) (userExists u)"
  unfolding getUser_def userExists_def by (intro keeps_intros)+

lemma keeps_rooms_others:
  "keeps (rooms_kept D) (createUser u h e)" "keeps (rooms_kept D) (saveMessage nd m i)"
  "keeps (rooms_kept D) (db_createRoom nm t p c)" "keeps (rooms_kept D) (updateUser A salt cur des pw e)"
proof -
  have ins: "keeps (rooms_kept D) (insert_room nm t p)"
    unfolding insert_room_def using stmt_rooms_kept(11)
    by (intro keeps_intros keepsI) (fastforce split: sum.split prod.split)
  show "keeps (rooms_kept D) (db_createRoom nm t p c)"
    unfolding db_createRoom_def by (intro keeps_intros ins keeps_rooms_writes)
  show "keeps (rooms_kept D) (createUser u h e)"
    unfolding createUser_def by (intro keeps_intros keeps_single step_rooms_kept)
  show "keeps (rooms_kept D) (saveMessage nd m i)"
    unfolding saveMessage_def by (intro keeps_intros keeps_single step_rooms_kept)
  show "keeps (rooms_kept D) (updateUser A salt cur des pw e)"
    unfolding updateUser_def
    by (intro keeps_intros keeps_rooms_reads keeps_rooms_fk keeps_rooms_rename keeps_single step_rooms_kept)
qed

lemma live_all [live_keeps]:
  "keeps (db_live D) (setMembership u i n)" "keeps (db_live D) (clearMembership u i)"
  "keeps (db_live D) (setOnline u n)" "keeps (db_live D) (clearOnline u)"
  "keeps (db_live D) (clearNodePresence n)" "keeps (db_live D) (moveMembership u n)"
  "keeps (db_live D) (clearAllMembership u)" "keeps (db_live D) (addToAllowList i e c)"
  "keeps (db_live D) (removeFromAllowList i e)" "keeps (db_live D) (createUser u h e)"
  "keeps (db_live D) (saveMessage nd m i)" "keeps (db_live D) (db_createRoom nm t p ce)"
  "keeps (db_live D) (updateUser A salt cur des pw e)"
proof -
  have "db_live D d \<Longrightarrow> db_live D (snd (updateUser A salt cur des pw e d))" for d
    using keepsD [OF keeps_updateUser, of d] keepsD [OF keeps_rooms_others(4), of D d]
    by (simp add: db_live_def db_calm_def rooms_kept_def)
  then show "keeps (db_live D) (updateUser A salt cur des pw e)" by (rule keepsI)
qed (intro keeps_live db_keeps keeps_rooms_writes keeps_rooms_others)+

lemma live_reads [live_keeps]:
  "keeps (db_live D) (getUser u)" "keeps (db_live D) (userExists u)" "keeps (db_live D) (loginUser A u p)"
  "keeps (db_live D) (loadHistory i)" "keeps (db_live D) (isUserOnline u)" "keeps (db_live D) (onlineNode u)"
  "keeps (db_live D) (canClaimPresence u b)" "keeps (db_live D) (isAllowed i e)"
  "keeps (db_live D) (isAllowListCreator i e)"
  unfolding getUser_def userExists_def loginUser_def loadHistory_def isUserOnline_def canClaimPresence_def
    onlineNode_def isAllowed_def isAllowListCreator_def
  by (intro keeps_intros)+

section \<open>Operations that do not throw\<close>

lemma safe_stmt:
  assumes "keeps (db_live D) (run_sql [st])" and "\<And>d. db_live D d \<Longrightarrow> \<exists>n d'. st d = Inr (n, d')"
  shows "safe (db_live D) (run_sql [st])"
proof (rule safeI)
  fix d
  assume d: "db_live D d"
  then obtain n d' where st: "st d = Inr (n, d')" using assms(2) by blast
  then have "run_sql [st] d = (Inr (), d')"
    using d by (simp add: run_sql_def execute_def step_stmt_ready bindM_run thenM_run db_live_simps(2))
  then show "\<exists>a t. run_sql [st] d = (Inr a, t) \<and> db_live D t" using keepsE [OF assms(1) d] by auto
qed

lemma safe_writes [live_safe]:
  "safe (db_live D) (clearMembership u i)" "safe (db_live D) (setOnline u n)" "safe (db_live D) (clearOnline u)"
  "safe (db_live D) (moveMembership u n)" "safe (db_live D) (clearAllMembership u)"
  "safe (db_live D) (removeFromAllowList i e)" "safe (db_live D) (clearNodePresence n)"
  using live_all
  unfolding clearMembership_def setOnline_def clearOnline_def moveMembership_def clearAllMembership_def
    removeFromAllowList_def clearNodePresence_def
  by (auto intro!: safe_stmt simp: sql_clear_membership_def sql_set_online_def sql_clear_online_def
      sql_move_membership_def sql_clear_all_membership_def sql_remove_user_allow_list_def
      sql_clear_node_presence_def Let_def)

lemma query_run: "db_live D d \<Longrightarrow> query sel d = (Inr (map (map c_str) (sel d)), d)"
  by (simp add: query_def bindM_run db_live_simps(2))

lemma safe_query [live_safe]: "safe (db_live D) (query sel)"
  by (auto intro!: safeI simp: query_run)

lemma safe_simple_reads [live_safe]:
  "safe (db_live D) (userExists u)" "safe (db_live D) (isUserOnline u)" "safe (db_live D) (onlineNode u)"
  "safe (db_live D) (canClaimPresence u b)" "safe (db_live D) (isAllowed i e)"
  "safe (db_live D) (isAllowListCreator i e)"
  unfolding userExists_def isUserOnline_def onlineNode_def canClaimPresence_def isAllowed_def
    isAllowListCreator_def
  by (intro safe_intros live_safe)+

text \<open>\<open>getUser\<close> finds the row of a stored user name, and nothing else.\<close>

definition user_of_row :: "user_row \<Rightarrow> user" where
  "user_of_row r = \<lparr>u_username = c_str (ur_username r), u_email = c_str (ur_email r),
     u_type = stringToType (c_str (ur_type r))\<rparr>"

lemma find_filter: "find P xs = (case filter P xs of [] \<Rightarrow> None | x # _ \<Rightarrow> Some x)"
  by (induction xs) auto

lemma query_ready: "db_faults d = [] \<Longrightarrow> query sel d = (Inr (map (map c_str) (sel d)), d)"
  by (simp add: query_def bindM_run)

lemma getUser_find:
  assumes "db_faults d = []"
  shows "getUser u d = (Inr (map_option user_of_row (find (\<lambda>r. ur_username r = u) (t_users d))), d)"
  by (cases "filter (\<lambda>r. ur_username r = u) (t_users d)")
    (simp_all add: getUser_def bindM_run query_ready [OF assms] sql_get_user_def find_filter userFromRow_def
      liftE_def user_of_row_def)

lemma getUser_run:
  "db_live D d \<Longrightarrow> getUser u d = (Inr (map_option user_of_row (find (\<lambda>r. ur_username r = u) (t_users d))), d)"
  by (simp add: getUser_find db_live_simps(2))

lemma safe_getUser [live_safe]: "safe (db_live D) (getUser u)"
  by (auto intro!: safeI simp: getUser_run)

lemma getUser_has: "db_live D d \<Longrightarrow> getUser u d = (Inr (Some x), d') \<Longrightarrow> d' = d \<and> has_username d u"
  by (auto simp: getUser_run has_username_def find_Some_iff dest: sym)

lemma setMembership_ok:
  assumes "db_live D d" and "has_username d u" and "i \<in> D"
  shows "\<exists>d'. setMembership u i n d = (Inr (), d') \<and> db_live D d'"
proof -
  have "\<exists>k d'. sql_set_membership u i n d = Inr (k, d')"
    using assms by (simp add: sql_set_membership_def db_live_simps)
  then obtain k d' where s: "sql_set_membership u i n d = Inr (k, d')" by blast
  have run: "setMembership u i n d = (Inr (), d')"
    using s assms(1) by (simp add: setMembership_def run_sql_def execute_def step_stmt_ready bindM_run
        thenM_run db_live_simps(2))
  then show ?thesis using keepsE [OF live_all(1) assms(1) run] by blast
qed

section \<open>A new database file\<close>

lemma seeded_db:
  "open_database None empty_db = (Inr (), (sql_init empty_db)\<lparr>fk_on := True\<rparr>)"
  by (simp add: open_database_def exec_foreign_keys_def bindM_run thenM_run empty_db_def sql_init_def
      seed_user_def seed_room_def lobby_row_def general_row_def)

lemma seeded_rooms: "t_rooms (sql_init empty_db) = [lobby_row, general_row]" "db_faults (sql_init empty_db) = []"
  "t_room_seq (sql_init empty_db) = 2"
  by (simp_all add: empty_db_def sql_init_def seed_user_def seed_room_def lobby_row_def general_row_def)

lemma seeded_ok: "db_ok ((sql_init empty_db)\<lparr>fk_on := True\<rparr>)"
  by (simp add: db_ok_def db_wf_def users_ok_def rooms_ok_def messages_ok_def membership_ok_def online_ok_def
      allow_ok_def user_type_check_def room_type_check_def privacy_check_def empty_db_def sql_init_def
      seed_user_def seed_room_def lobby_row_def general_row_def)

lemma std_stoi_small: "std_stoi (int_to_string 1) = Some 1" "std_stoi (int_to_string 2) = Some 2"
  by (simp_all add: std_stoi_int)

lemma seeded_live: "db_live {1, 2} (snd (open_database None empty_db))"
  using seeded_ok by (auto simp: db_live_def rooms_kept_def seeded_db seeded_rooms lobby_row_def general_row_def)

end
