(* ===== verification/Node_Invariant.thy ===== *)
theory Node_Invariant
  imports Gossip_Manager Database_Live
begin

text \<open>
  The consistency of a running node: the rooms the room manager knows are stored rooms, every session
  is in exactly one room, and the socket sets of the room manager are exactly the sockets of the
  sessions in each room. \<open>node_inv F X Y\<close> has three parameters for the states inside an operation:
  the sockets in \<open>F\<close> have a session, those in \<open>X\<close> may still miss in their room's socket set, and
  those in \<open>Y\<close> already stand in the Lobby although their session names the room being deleted.
  \<open>node_ok\<close> is the invariant between operations.

  \<open>safe (node_inv F X Y) m\<close> says that \<open>m\<close> keeps the invariant and throws nothing; the collection
  \<open>node_safe\<close> holds the rules.
\<close>

declare map_of_eq_Some_iff [simp del] Some_eq_map_of_iff [simp del]

named_theorems node_safe \<open>operations that keep the node invariant and do not throw\<close>

definition eff_room :: "SOCKET set \<Rightarrow> SOCKET \<Rightarrow> clientSession \<Rightarrow> room" where
  "eff_room Y fd s = (if fd \<in> Y then LOBBY else cs_room s)"

definition known_ids :: "node \<Rightarrow> int set" where
  "known_ids n = (\<lambda>(_, r). ro_id r) ` set (knownRooms n)"

definition rooms_known :: "node \<Rightarrow> bool" where
  "rooms_known n \<longleftrightarrow> distinct (map fst (knownRooms n)) \<and> distinct (map (\<lambda>(_, r). ro_id r) (knownRooms n)) \<and>
     (\<forall>(k, r)\<in>set (knownRooms n). k = ro_name r \<and> (k \<noteq> ro_name LOBBY \<and> k \<noteq> ro_name GENERAL \<longrightarrow> 3 \<le> ro_id r)) \<and>
     map_of (knownRooms n) (ro_name LOBBY) = Some LOBBY \<and> map_of (knownRooms n) (ro_name GENERAL) = Some GENERAL"

definition sessions_ok :: "SOCKET set \<Rightarrow> node \<Rightarrow> bool" where
  "sessions_ok Y n \<longleftrightarrow> distinct (map fst (sessions n)) \<and>
     (\<forall>fd s. map_of (sessions n) fd = Some s \<longrightarrow>
        cs_socket s = fd \<and> map_of (knownRooms n) (ro_name (eff_room Y fd s)) = Some (eff_room Y fd s))"

definition placed :: "SOCKET set \<Rightarrow> SOCKET set \<Rightarrow> node \<Rightarrow> bool" where
  "placed X Y n \<longleftrightarrow> distinct (map fst (members n)) \<and> (\<forall>room. distinct (members_of n room)) \<and>
     (\<forall>fd room. fd \<in> set (members_of n room) \<longrightarrow>
        (\<exists>s. map_of (sessions n) fd = Some s \<and> ro_name (eff_room Y fd s) = room)) \<and>
     (\<forall>fd s. map_of (sessions n) fd = Some s \<longrightarrow> fd \<notin> X \<longrightarrow>
        fd \<in> set (members_of n (ro_name (eff_room Y fd s))))"

definition node_inv :: "SOCKET set \<Rightarrow> SOCKET set \<Rightarrow> SOCKET set \<Rightarrow> node \<Rightarrow> bool" where
  "node_inv F X Y n \<longleftrightarrow> db_live (known_ids n) (n_db n) \<and> rooms_known n \<and> sessions_ok Y n \<and> placed X Y n \<and>
     F \<subseteq> dom (map_of (sessions n))"

abbreviation node_ok :: "node \<Rightarrow> bool" where "node_ok \<equiv> node_inv {} {} {}"

lemmas node_inv_defs = node_inv_def rooms_known_def sessions_ok_def placed_def

section \<open>Updates the invariant does not see\<close>

lemma members_of_frame [simp]:
  "members_of (n\<lparr>sessions := a\<rparr>) = members_of n" "members_of (n\<lparr>n_db := b\<rparr>) = members_of n"
  "members_of (n\<lparr>knownRooms := c\<rparr>) = members_of n"
  by (simp_all add: members_of_def fun_eq_iff)

lemma known_ids_frame [simp]:
  "known_ids (n\<lparr>sessions := a\<rparr>) = known_ids n" "known_ids (n\<lparr>n_db := b\<rparr>) = known_ids n"
  "known_ids (n\<lparr>members := c\<rparr>) = known_ids n"
  by (simp_all add: known_ids_def)

lemma node_inv_cong:
  assumes "n_db n' = n_db n" and "knownRooms n' = knownRooms n" and "members n' = members n"
    and "sessions n' = sessions n"
  shows "node_inv F X Y n' = node_inv F X Y n"
  using assms by (simp add: node_inv_defs known_ids_def members_of_def)

lemma node_inv_frame [simp]:
  "node_inv F X Y (n\<lparr>n_sent := a\<rparr>) = node_inv F X Y n" "node_inv F X Y (n\<lparr>n_closedFds := b\<rparr>) = node_inv F X Y n"
  "node_inv F X Y (n\<lparr>n_draws := c\<rparr>) = node_inv F X Y n" "node_inv F X Y (n\<lparr>webSockets := d\<rparr>) = node_inv F X Y n"
  "node_inv F X Y (n\<lparr>clientPeers := e\<rparr>) = node_inv F X Y n"
  "node_inv F X Y (n\<lparr>outboundAddrs := f\<rparr>) = node_inv F X Y n"
  "node_inv F X Y (n\<lparr>openPeerSockets := g\<rparr>) = node_inv F X Y n"
  "node_inv F X Y (n\<lparr>seenEvents := h\<rparr>) = node_inv F X Y n"
  "node_inv F X Y (n\<lparr>recentEventIds := i\<rparr>) = node_inv F X Y n"
  "node_inv F X Y (n\<lparr>eventLog := j\<rparr>) = node_inv F X Y n"
  "node_inv F X Y (n\<lparr>nextPresenceSeq := k\<rparr>) = node_inv F X Y n"
  "node_inv F X Y (n\<lparr>dropLogoutSeq := k\<rparr>) = node_inv F X Y n"
  "node_inv F X Y (n\<lparr>listening := l\<rparr>) = node_inv F X Y n"
  "node_inv F X Y (n\<lparr>gossip_wired := l\<rparr>) = node_inv F X Y n"
  "node_inv F X Y (n\<lparr>g_stopped := l\<rparr>) = node_inv F X Y n"
  by (rule node_inv_cong; simp)+

lemma node_inv_weaken: "node_inv F X Y n \<Longrightarrow> F' \<subseteq> F \<Longrightarrow> X \<subseteq> X' \<Longrightarrow> node_inv F' X' Y n"
  unfolding node_inv_def placed_def by blast

text \<open>A change of the session records that leaves sockets and rooms alone.\<close>

lemma node_inv_upd_session:
  assumes "node_inv F X Y n" and "\<And>s. cs_room (f s) = cs_room s" and "\<And>s. cs_socket (f s) = cs_socket s"
  shows "node_inv F X Y (n\<lparr>sessions := AList.map_entry fd f (sessions n)\<rparr>)"
proof -
  let ?n = "n\<lparr>sessions := AList.map_entry fd f (sessions n)\<rparr>"
  have m: "map_of (AList.map_entry fd f (sessions n)) k =
      map_option (\<lambda>s. if k = fd then f s else s) (map_of (sessions n) k)" for k
    by (auto simp: AList.map_of_map_entry option.map_ident split: option.split)
  have e: "eff_room Y k (if k = fd then f s else s) = eff_room Y k s" "eff_room Y k (f s) = eff_room Y k s" for k s
    using assms(2) by (simp_all add: eff_room_def)
  have "sessions_ok Y ?n"
    using assms e by (auto simp: node_inv_def sessions_ok_def m AList.distinct_map_entry)
  moreover have "placed X Y ?n"
    using assms(1) e by (simp add: node_inv_def placed_def m) (metis (no_types, lifting) option.simps(9))
  ultimately show ?thesis
    using assms(1) by (auto simp: node_inv_def rooms_known_def m dom_def)
qed

section \<open>Rules for the small operations\<close>

lemma safe_upd_session:
  assumes "\<And>s. cs_room (f s) = cs_room s" and "\<And>s. cs_socket (f s) = cs_socket s"
  shows "safe (node_inv F X Y) (upd_session fd f)"
  unfolding upd_session_def using assms by (intro safe_modifyM node_inv_upd_session)

lemma safe_setters [node_safe]:
  "safe (node_inv F X Y) (setUser fd u)" "safe (node_inv F X Y) (setAuthenticated fd b)"
  "safe (node_inv F X Y) (touch fd)"
  unfolding setUser_def setAuthenticated_def touch_def by (intro safe_intros safe_upd_session; simp)+

lemma safe_node_reads [node_safe]:
  "safe (node_inv F X Y) (sessionM fd)" "safe (node_inv F X Y) (packetM a b c d e f)"
  "safe (node_inv F X Y) (hasSession u)" "safe (node_inv F X Y) (getRoom r)" "safe (node_inv F X Y) rm_listRooms"
  unfolding sessionM_def packetM_def hasSession_def getRoom_def rm_listRooms_def by (intro safe_getsM)+

lemma safe_draws [node_safe]: "safe (node_inv F X Y) drawM" "safe (node_inv F X Y) anonymousUserM"
proof -
  show d: "safe (node_inv F X Y) drawM" by (auto intro!: safeI simp: drawM_def)
  show "safe (node_inv F X Y) anonymousUserM" unfolding anonymousUserM_def by (intro safe_intros d)
qed

lemma safe_writes_fd [node_safe]:
  "safe (node_inv F X Y) (writeM fd w)" "safe (node_inv F X Y) (closeFd fd)"
  "safe (node_inv F X Y) (markWebSocket fd)"
  by (auto intro!: safeI simp: writeM_def closeFd_def markWebSocket_def)

lemma safe_sendPacket [node_safe]: "safe (node_inv F X Y) (sendPacket fd p)"
  unfolding sendPacket_def by (intro safe_intros node_safe)

lemma safe_sendTo [node_safe]: "safe (node_inv F X Y) (sendTo fd p)"
  unfolding sendTo_def by (intro safe_intros node_safe)

lemma safe_closeClient [node_safe]: "safe (node_inv F X Y) (closeClient fd)"
  unfolding closeClient_def markClosed_def by (intro safe_intros node_safe safe_upd_session; simp)

lemma safe_pushServerDirectory [node_safe]: "safe (node_inv F X Y) (pushServerDirectory b o1)"
  unfolding pushServerDirectory_def by (intro safe_intros node_safe)

lemma safe_sendAll [node_safe]: "safe (node_inv F X Y) (sendAll fds p k)"
  by (induction fds) (auto simp only: sendAll.simps intro!: safe_intros node_safe)

lemma safe_broadcast [node_safe]: "safe (node_inv F X Y) (broadcast r p k)"
  unfolding broadcast_def by (intro safe_intros node_safe)

lemma safe_broadcastRooms [node_safe]: "safe (node_inv F X Y) (broadcastRooms rs p k)"
  by (induction rs) (auto simp only: broadcastRooms.simps intro!: safe_intros node_safe)

lemma safe_broadcastAll [node_safe]: "safe (node_inv F X Y) (broadcastAll p k)"
  unfolding broadcastAll_def by (intro safe_intros node_safe)

lemma safe_pushes [node_safe]:
  "safe (node_inv F X Y) (pushRoomList k)" "safe (node_inv F X Y) (pushLobbyTo fd)"
  "safe (node_inv F X Y) notifyServerDirectoryChanged"
  unfolding pushRoomList_def pushLobbyTo_def notifyServerDirectoryChanged_def by (intro safe_intros node_safe)+

section \<open>Database calls\<close>

lemma node_inv_db:
  assumes "node_inv F X Y n" and "db_live (known_ids n) d"
  shows "node_inv F X Y (n\<lparr>n_db := d\<rparr>)"
proof -
  have "rooms_known (n\<lparr>n_db := d\<rparr>) = rooms_known n" by (simp add: rooms_known_def)
  moreover have "sessions_ok Y (n\<lparr>n_db := d\<rparr>) = sessions_ok Y n" by (simp add: sessions_ok_def)
  moreover have "placed X Y (n\<lparr>n_db := d\<rparr>) = placed X Y n" by (simp add: placed_def)
  ultimately show ?thesis using assms by (simp add: node_inv_def)
qed

lemma keeps_dbM: assumes "\<And>D. keeps (db_live D) m" shows "keeps (node_inv F X Y) (dbM m)"
proof (rule keepsI)
  fix n
  assume n: "node_inv F X Y n"
  then have "db_live (known_ids n) (snd (m (n_db n)))"
    using assms by (auto simp: node_inv_def intro: keepsD)
  then show "node_inv F X Y (snd (dbM m n))"
    using n by (auto simp: dbM_def zoomM_def node_inv_db split: prod.split)
qed

lemma safe_dbM: assumes "\<And>D. safe (db_live D) m" shows "safe (node_inv F X Y) (dbM m)"
proof (rule safeI)
  fix n
  assume n: "node_inv F X Y n"
  then obtain a d where "m (n_db n) = (Inr a, d)" "db_live (known_ids n) d"
    using assms [of "known_ids n"] by (auto simp: node_inv_def dest: safeD)
  then show "\<exists>a t. dbM m n = (Inr a, t) \<and> node_inv F X Y t"
    using n by (auto simp: dbM_def zoomM_def node_inv_db)
qed

lemmas node_db_keeps = live_keeps [THEN keeps_dbM]
lemmas node_db_safe [node_safe] = live_safe [THEN safe_dbM]

section \<open>Moving a session between rooms\<close>

definition mem :: "(string \<times> SOCKET list) list \<Rightarrow> string \<Rightarrow> SOCKET list" where
  "mem ms r = (case map_of ms r of Some fds \<Rightarrow> fds | None \<Rightarrow> [])"

definition drop_member :: "SOCKET \<Rightarrow> string \<Rightarrow> (string \<times> SOCKET list) list \<Rightarrow> (string \<times> SOCKET list) list" where
  "drop_member fd r ms =
     (case map_of ms r of
        None \<Rightarrow> ms
      | Some fds \<Rightarrow> if removeAll fd fds = [] then AList.delete r ms else AList.update r (removeAll fd fds) ms)"

definition add_member :: "SOCKET \<Rightarrow> string \<Rightarrow> (string \<times> SOCKET list) list \<Rightarrow> (string \<times> SOCKET list) list" where
  "add_member fd r ms = AList.update r (set_insert fd (mem ms r)) ms"

lemma members_of_mem: "members_of n = mem (members n)"
  by (simp add: fun_eq_iff members_of_def mem_def)

lemma set_insert_simps [simp]:
  "set (set_insert x xs) = insert x (set xs)" "distinct (set_insert x xs) = distinct xs"
  by (auto simp: set_insert_def)

lemma mem_drop: "mem (drop_member fd r ms) r' = (if r' = r then removeAll fd (mem ms r) else mem ms r')"
  by (auto simp: mem_def drop_member_def AList.delete_conv' AList.update_conv' split: option.split)

lemma mem_add: "mem (add_member fd r ms) r' = (if r' = r then set_insert fd (mem ms r) else mem ms r')"
  by (simp add: mem_def add_member_def AList.update_conv')

lemma distinct_members_update [simp]:
  "distinct (map fst ms) \<Longrightarrow> distinct (map fst (drop_member fd r ms))"
  "distinct (map fst ms) \<Longrightarrow> distinct (map fst (add_member fd r ms))"
  by (auto simp: drop_member_def add_member_def AList.distinct_update AList.distinct_delete split: option.split)

lemma removeSocketLocked_run:
  "removeSocketLocked fd r n = (Inr (), n\<lparr>members := drop_member fd r (members n)\<rparr>)"
  by (auto simp: removeSocketLocked_def drop_member_def Let_def split: option.split)

lemma insertSocket_run: "insertSocket fd r n = (Inr (), n\<lparr>members := add_member fd r (members n)\<rparr>)"
  by (simp add: insertSocket_def add_member_def members_of_mem)

lemma setRoom_run:
  "setRoom fd R n = (Inr (), n\<lparr>sessions := AList.map_entry fd (\<lambda>s. s\<lparr>cs_room := R\<rparr>) (sessions n)\<rparr>)"
  by (simp add: setRoom_def upd_session_def)

definition relocated :: "SOCKET \<Rightarrow> string \<Rightarrow> room \<Rightarrow> node \<Rightarrow> node" where
  "relocated fd old R n =
     n\<lparr>sessions := AList.map_entry fd (\<lambda>s. s\<lparr>cs_room := R\<rparr>) (sessions n),
       members := add_member fd (ro_name R) (drop_member fd old (members n))\<rparr>"

lemma relocate_run:
  "thenM (removeSocketLocked fd old) (thenM (setRoom fd R) (thenM (insertSocket fd (ro_name R)) m)) n =
     m (relocated fd old R n)"
  by (simp add: thenM_run removeSocketLocked_run setRoom_run insertSocket_run relocated_def)

lemma session_map_entry:
  "map_of (AList.map_entry fd f ss) k = map_option (\<lambda>s. if k = fd then f s else s) (map_of ss k)"
  by (auto simp: AList.map_of_map_entry option.map_ident split: option.split)

lemma placed_room:
  "placed X Y n \<Longrightarrow> fd \<in> set (members_of n r) \<Longrightarrow> map_of (sessions n) fd = Some s \<Longrightarrow>
   ro_name (eff_room Y fd s) = r"
  unfolding placed_def by fastforce

text \<open>A session that gets a known room keeps the table of sessions in order.\<close>

lemma sessions_ok_entry:
  assumes so: "sessions_ok Y n" and R: "map_of (knownRooms n) (ro_name R) = Some R" and Y: "fd \<notin> Y'" "Y' - {fd} = Y - {fd}"
    and n': "knownRooms n' = knownRooms n" "sessions n' = AList.map_entry fd (\<lambda>s. s\<lparr>cs_room := R\<rparr>) (sessions n)"
  shows "sessions_ok Y' n'"
  unfolding sessions_ok_def
proof (intro conjI allI impI)
  show "distinct (map fst (sessions n'))" using so by (simp add: n'(2) sessions_ok_def AList.distinct_map_entry)
  fix k s
  assume "map_of (sessions n') k = Some s"
  then obtain s0 where s0: "map_of (sessions n) k = Some s0" "s = (if k = fd then s0\<lparr>cs_room := R\<rparr> else s0)"
    by (auto simp: n'(2) session_map_entry)
  moreover have "cs_socket s0 = k" "map_of (knownRooms n) (ro_name (eff_room Y k s0)) = Some (eff_room Y k s0)"
    using so s0(1) by (auto simp: sessions_ok_def)
  moreover have "k \<noteq> fd \<Longrightarrow> eff_room Y' k s0 = eff_room Y k s0" using Y(2) by (auto simp: eff_room_def)
  ultimately show "cs_socket s = k" "map_of (knownRooms n') (ro_name (eff_room Y' k s)) = Some (eff_room Y' k s)"
    using R Y(1) n'(1) by (cases "k = fd"; simp add: eff_room_def)+
qed

lemma relocated_placed:
  assumes inv: "node_inv F X Y n" and fd: "map_of (sessions n) fd = Some s" "fd \<notin> Y"
  shows "placed (X - {fd}) Y (relocated fd (ro_name (cs_room s)) R n)"
proof -
  let ?n = "relocated fd (ro_name (cs_room s)) R n"
  have sess: "map_of (sessions ?n) k = map_option (\<lambda>s. if k = fd then s\<lparr>cs_room := R\<rparr> else s) (map_of (sessions n) k)" for k
    by (simp add: relocated_def session_map_entry)
  have here: "fd \<in> set (members_of n r) \<Longrightarrow> r = ro_name (cs_room s)" for r
    using inv fd placed_room [of X Y n fd r s] by (simp add: node_inv_def eff_room_def)
  have mem: "set (members_of ?n r) = (if r = ro_name R then insert fd else id) (set (members_of n r) - {fd})" for r
    using here [of r] by (auto simp: relocated_def members_of_mem mem_add mem_drop)
  have "distinct (members_of ?n r)" for r
    using inv by (auto simp: relocated_def members_of_mem mem_add mem_drop node_inv_def placed_def distinct_removeAll)
  moreover have "distinct (map fst (members ?n))"
    using inv by (simp add: relocated_def node_inv_def placed_def)
  moreover have "\<exists>s'. map_of (sessions ?n) k = Some s' \<and> ro_name (eff_room Y k s') = r"
    if "k \<in> set (members_of ?n r)" for k r
  proof (cases "k = fd")
    case True
    then show ?thesis using that fd by (auto simp: mem sess eff_room_def split: if_splits)
  next
    case False
    then have "k \<in> set (members_of n r)" using that by (auto simp: mem split: if_splits)
    then show ?thesis using inv False by (force simp: node_inv_def placed_def sess)
  qed
  moreover have "k \<in> set (members_of ?n (ro_name (eff_room Y k s')))"
    if "map_of (sessions ?n) k = Some s'" "k \<notin> X - {fd}" for k s'
  proof (cases "k = fd")
    case True
    then show ?thesis using that fd by (auto simp: mem sess eff_room_def)
  next
    case False
    then have "k \<in> set (members_of n (ro_name (eff_room Y k s')))"
      using that inv by (auto simp: node_inv_def placed_def sess option.map_ident)
    then show ?thesis using False by (auto simp: mem)
  qed
  ultimately show ?thesis unfolding placed_def by blast
qed

lemma relocated_inv:
  assumes inv: "node_inv F X Y n" and fd: "map_of (sessions n) fd = Some s" "fd \<notin> Y"
    and R: "map_of (knownRooms n) (ro_name R) = Some R"
  shows "node_inv F (X - {fd}) Y (relocated fd (ro_name (cs_room s)) R n)"
proof -
  let ?n = "relocated fd (ro_name (cs_room s)) R n"
  have "sessions_ok Y ?n"
    using inv fd(2) R by (intro sessions_ok_entry [of Y n R fd Y ?n]) (simp_all add: node_inv_def relocated_def)
  moreover have "rooms_known ?n" "db_live (known_ids ?n) (n_db ?n)"
    using inv by (simp_all add: node_inv_def relocated_def rooms_known_def)
  moreover have "F \<subseteq> dom (map_of (sessions ?n))"
    using inv by (auto simp: node_inv_def dom_def relocated_def session_map_entry subset_iff)
  ultimately show ?thesis using relocated_placed [OF inv fd] by (simp add: node_inv_def)
qed

section \<open>Joining and leaving\<close>

definition only_db :: "node \<Rightarrow> node \<Rightarrow> bool" where
  "only_db n t \<longleftrightarrow> (\<exists>d. t = n\<lparr>n_db := d\<rparr>)"

lemma only_db_simps:
  "only_db n t \<Longrightarrow> knownRooms t = knownRooms n" "only_db n t \<Longrightarrow> sessions t = sessions n"
  "only_db n t \<Longrightarrow> members t = members n" "only_db n n"
  by (auto simp: only_db_def intro: exI [of _ "n_db n"])

lemma keeps_dbM_only:
  assumes "\<And>D. keeps (db_live D) m"
  shows "keeps (\<lambda>t. node_inv F X Y t \<and> only_db n t) (dbM m)"
proof (rule keepsI)
  fix t
  assume t: "node_inv F X Y t \<and> only_db n t"
  then have "node_inv F X Y (snd (dbM m t))" using keeps_dbM [OF assms] by (simp add: keepsD)
  moreover have "only_db n (snd (dbM m t))"
    using t by (auto simp: only_db_def dbM_def zoomM_def split: prod.split)
  ultimately show "node_inv F X Y (snd (dbM m t)) \<and> only_db n (snd (dbM m t))" by blast
qed

lemma known_key: "node_inv F X Y n \<Longrightarrow> map_of (knownRooms n) k = Some r \<Longrightarrow> ro_name r = k"
  by (auto simp: node_inv_def rooms_known_def dest: map_of_SomeD)

lemma known_id: "map_of (knownRooms n) k = Some r \<Longrightarrow> ro_id r \<in> known_ids n"
  by (force simp: known_ids_def dest: map_of_SomeD)

lemma session_of_Some: "map_of (sessions n) fd = Some s \<Longrightarrow> session_of n fd = s"
  by (simp add: session_of_def)

text \<open>What \<open>joinRoom\<close> does when the database refuses the membership: the session goes back.\<close>

lemma undone_inv:
  assumes t: "node_inv F X {} t" "only_db (relocated fd prev room n) t" and s: "map_of (sessions n) fd = Some s"
    and prev: "map_of (knownRooms n) (ro_name (cs_room s)) = Some (cs_room s)" and fd: "fd \<notin> X"
  shows "node_inv F X {} (relocated fd (ro_name room) (cs_room s) t)"
proof -
  have "map_of (sessions t) fd = Some (s\<lparr>cs_room := room\<rparr>)"
    using s by (simp add: only_db_simps(2) [OF t(2)] relocated_def session_map_entry)
  moreover have "map_of (knownRooms t) (ro_name (cs_room s)) = Some (cs_room s)"
    using prev by (simp add: only_db_simps(1) [OF t(2)] relocated_def)
  ultimately show ?thesis using relocated_inv [OF t(1)] fd by fastforce
qed

lemma joinRoom_inv:
  assumes inv: "node_inv F X {} n" and fd: "fd \<in> F"
  shows "\<exists>b t. joinRoom r fd n = (Inr b, t) \<and>
    (if map_of (knownRooms n) (if r = [] then ro_name LOBBY else r) = None then t = n
     else node_inv F (X - {fd}) {} t)"
proof -
  obtain s where s: "map_of (sessions n) fd = Some s" using inv fd by (auto simp: node_inv_def)
  let ?name = "if r = [] then ro_name LOBBY else r"
  let ?prev = "ro_name (cs_room s)"
  show ?thesis
  proof (cases "map_of (knownRooms n) ?name")
    case None
    then show ?thesis
      by (auto simp: joinRoom_def Let_def sessionM_def session_of_Some [OF s] bindM_run)
  next
    case (Some room)
    have nm: "?name = ro_name room" using known_key [OF inv Some] by simp
    define n1 where "n1 = relocated fd ?prev room n"
    have inv1: "node_inv F (X - {fd}) {} n1"
      unfolding n1_def using inv s Some nm by (intro relocated_inv) simp_all
    have prev: "map_of (knownRooms n) ?prev = Some (cs_room s)"
      using inv s by (auto simp: node_inv_def sessions_ok_def eff_room_def)
    define body :: "(node, bool) mon" where
      "body = thenM (whenM (ro_id (cs_room s) \<noteq> ro_id room)
                 (dbM (clearMembership (u_username (cs_user s)) (ro_id (cs_room s)))))
               (thenM (dbM (setMembership (u_username (cs_user s)) (ro_id room) (nodeId n))) (returnM True))"
    define undo :: "exn \<Rightarrow> (node, bool) mon" where
      "undo = (\<lambda>_. thenM (removeSocketLocked fd ?name)
              (bindM (getsM (\<lambda>n. map_of (knownRooms n) ?prev)) (\<lambda>prevIt.
                 case prevIt of
                   Some prev \<Rightarrow>
                     thenM (setRoom fd prev) (thenM (insertSocket fd ?prev) (returnM False))
                 | None \<Rightarrow>
                     thenM (setRoom fd LOBBY) (thenM (insertSocket fd (ro_name LOBBY)) (returnM False)))))"
    have run: "joinRoom r fd n = (if cs_authenticated s then catchM body undo else returnM True) n1"
      using Some nm unfolding body_def undo_def n1_def
      by (simp add: joinRoom_def Let_def sessionM_def session_of_Some [OF s] bindM_run relocate_run del: thenM_ok)
    have keep: "keeps (\<lambda>t. node_inv F (X - {fd}) {} t \<and> only_db n1 t) body"
      unfolding body_def by (intro keeps_intros keeps_dbM_only live_keeps)
    have undo_run: "undo e t = (Inr False, relocated fd (ro_name room) (cs_room s) t)" if "only_db n1 t" for e t
      using prev nm only_db_simps(1) [OF that]
      by (simp add: undo_def thenM_run bindM_run removeSocketLocked_run setRoom_run insertSocket_run
          relocated_def n1_def)
    have "\<exists>b t. (if cs_authenticated s then catchM body undo else returnM True) n1 = (Inr b, t) \<and>
        node_inv F (X - {fd}) {} t"
    proof (cases "cs_authenticated s")
      case True
      obtain q t where q: "body n1 = (q, t)" by fastforce
      have t: "node_inv F (X - {fd}) {} t" "only_db n1 t"
        using keepsE [OF keep _ q] inv1 only_db_simps(4) by blast+
      then show ?thesis
        using True q undo_run [OF t(2)] undone_inv [OF t(1) t(2) [unfolded n1_def] s prev] by (cases q) (auto simp: catchM_run)
    qed (use inv1 in auto)
    then show ?thesis using run Some by simp
  qed
qed

lemma joinRoom_lobby:
  assumes "fd \<in> F" shows "hoare (node_inv F X {}) (joinRoom (ro_name LOBBY) fd) (\<lambda>_. node_inv F (X - {fd}) {})"
proof (rule hoareI)
  fix n
  assume inv: "node_inv F X {} n"
  then have "map_of (knownRooms n) (ro_name LOBBY) \<noteq> None" by (simp add: node_inv_def rooms_known_def)
  moreover have "ro_name LOBBY \<noteq> []" by (simp add: LOBBY_def mkRoom_def)
  ultimately show "\<exists>a t. joinRoom (ro_name LOBBY) fd n = (Inr a, t) \<and> node_inv F (X - {fd}) {} t"
    using joinRoom_inv [OF inv assms, of "ro_name LOBBY"] by auto
qed

lemma safe_joinRoom [node_safe]:
  assumes "fd \<in> F" shows "safe (node_inv F {} {}) (joinRoom r fd)"
proof (rule safeI)
  fix n
  assume inv: "node_inv F {} {} n"
  obtain b t where "joinRoom r fd n = (Inr b, t)" "t = n \<or> node_inv F ({} - {fd}) {} t"
    using joinRoom_inv [OF inv assms, of r]
    by (cases "map_of (knownRooms n) (if r = [] then ro_name LOBBY else r) = None") (simp, blast)+
  then show "\<exists>a t. joinRoom r fd n = (Inr a, t) \<and> node_inv F {} {} t" using inv by auto
qed

text \<open>\<open>leaveAll\<close> takes the socket out of its room; the session stays, in the Lobby, not yet placed.\<close>

lemma dropped_inv:
  assumes inv: "node_inv F X {} n" and s: "map_of (sessions n) fd = Some s"
  shows "node_inv F (insert fd X) {} (n\<lparr>members := drop_member fd (ro_name (cs_room s)) (members n),
     sessions := AList.map_entry fd (\<lambda>s. s\<lparr>cs_room := LOBBY\<rparr>) (sessions n)\<rparr>)"
    (is "node_inv F (insert fd X) {} ?n")
proof -
  have sess: "map_of (sessions ?n) k = map_option (\<lambda>s. if k = fd then s\<lparr>cs_room := LOBBY\<rparr> else s) (map_of (sessions n) k)" for k
    by (simp add: session_map_entry)
  have here: "fd \<in> set (members_of n r) \<Longrightarrow> r = ro_name (cs_room s)" for r
    using inv s placed_room [of X "{}" n fd r s] by (simp add: node_inv_def eff_room_def)
  have mem: "set (members_of ?n r) = set (members_of n r) - {fd}" for r
    using here [of r] by (auto simp: members_of_mem mem_drop)
  have "distinct (members_of ?n r)" for r
    using inv by (auto simp: members_of_mem mem_drop node_inv_def placed_def distinct_removeAll)
  moreover have "distinct (map fst (members ?n))" using inv by (simp add: node_inv_def placed_def)
  moreover have "\<exists>s'. map_of (sessions ?n) k = Some s' \<and> ro_name (eff_room {} k s') = r"
    if "k \<in> set (members_of ?n r)" for k r
  proof -
    have "k \<noteq> fd" "k \<in> set (members_of n r)" using that unfolding mem by simp_all
    moreover from this obtain s0 where "map_of (sessions n) k = Some s0" "ro_name (eff_room {} k s0) = r"
      using inv unfolding node_inv_def placed_def by blast
    ultimately show ?thesis by (auto simp: session_map_entry)
  qed
  moreover have "k \<in> set (members_of ?n (ro_name (eff_room {} k s')))"
    if "map_of (sessions ?n) k = Some s'" "k \<notin> insert fd X" for k s'
    using that inv unfolding mem sess by (auto simp: node_inv_def placed_def option.map_ident)
  ultimately have "placed (insert fd X) {} ?n" unfolding placed_def by blast
  moreover have "sessions_ok {} ?n"
    using inv by (intro sessions_ok_entry [of "{}" n LOBBY fd "{}" ?n]) (simp_all add: node_inv_def rooms_known_def)
  moreover have "rooms_known ?n" "db_live (known_ids ?n) (n_db ?n)"
    using inv by (simp_all add: node_inv_def rooms_known_def)
  moreover have "F \<subseteq> dom (map_of (sessions ?n))"
    using inv unfolding sess dom_def by (auto simp: node_inv_def subset_iff)
  ultimately show ?thesis by (simp add: node_inv_def)
qed

lemma leaveAll_inv:
  assumes inv: "node_inv F X {} n" and s: "map_of (sessions n) fd = Some s"
  shows "\<exists>t. leaveAll fd s n = (Inr (), t) \<and> node_inv F (insert fd X) {} t"
proof -
  let ?n = "n\<lparr>members := drop_member fd (ro_name (cs_room s)) (members n),
     sessions := AList.map_entry fd (\<lambda>s. s\<lparr>cs_room := LOBBY\<rparr>) (sessions n)\<rparr>"
  let ?rest = "whenM (cs_authenticated s \<and> u_username (cs_user s) \<noteq> [])
        (catchM (dbM (clearAllMembership (u_username (cs_user s)))) (\<lambda>_. returnM ()))"
  have "leaveAll fd s n = ?rest ?n"
    by (simp add: leaveAll_def thenM_run removeSocketLocked_run setRoom_run)
  moreover have "safe (node_inv F (insert fd X) {}) ?rest"
    by (intro safe_intros safe_catchM node_db_keeps)
  ultimately show ?thesis using dropped_inv [OF assms] safeD by fastforce
qed

end
