(* ===== verification/Room_Safety.thy ===== *)
theory Room_Safety
  imports Node_Invariant
begin

text \<open>
  Creating and deleting rooms keep the node consistent: a created room gets an unused id and is
  stored before it is known; deleting a room stores the deletion, forgets the room and moves every
  session that was in it to the Lobby, in memory and in the sessions.
\<close>

section \<open>Creating\<close>

lemma insert_room_run:
  assumes "db_live D d" and "insert_room nm t p d = (Inr r, d')"
  shows "r = mkRoom (t_room_seq d + 1) nm t p \<and> has_room d' (t_room_seq d + 1) \<and> db_faults d' = []"
  using assms db_live_simps(2) [OF assms(1)]
  by (auto simp: insert_room_def sql_create_room_def has_room_def Let_def split: if_splits)

lemma db_createRoom_run:
  assumes live: "db_live D d" and run: "db_createRoom nm t p c d = (Inr r, d')"
  shows "r = mkRoom (t_room_seq d + 1) nm t p" and "db_live (insert (ro_id r) D) d'"
proof -
  obtain q d1 where ins: "insert_room nm t p d = (q, d1)" by fastforce
  then obtain r1 where q: "q = Inr r1" using run by (cases q) (auto simp: db_createRoom_def bindM_run)
  have r1: "r1 = mkRoom (t_room_seq d + 1) nm t p" "has_room d1 (ro_id r1)" "db_faults d1 = []"
    using insert_room_run [OF live ins [unfolded q]] by (simp_all add: mkRoom_def)
  let ?rest = "whenM (c \<noteq> []) (addToAllowList (ro_id r1) c True)"
  obtain q2 d2 where rest: "?rest d1 = (q2, d2)" by fastforce
  have "r = r1" "d' = d2" using run ins q rest
    by (auto simp: db_createRoom_def bindM_run thenM_run split: sum.splits)
  moreover have "rooms_kept {ro_id r1} d1" using r1 by (auto simp: rooms_kept_def has_room_def)
  moreover have "keeps (rooms_kept {ro_id r1}) ?rest" by (intro keeps_intros keeps_rooms_writes)
  ultimately have "rooms_kept {ro_id r1} d'" using rest by (auto dest: keepsE)
  moreover have "db_live D d'" using keepsE [OF live_all(12) live run] .
  ultimately show "r = mkRoom (t_room_seq d + 1) nm t p" "db_live (insert (ro_id r) D) d'"
    using r1 \<open>r = r1\<close> by (auto simp: db_live_def rooms_kept_def)
qed

lemma live_id_le_seq: "db_live D d \<Longrightarrow> i \<in> D \<Longrightarrow> i \<le> t_room_seq d"
  by (auto simp: db_live_def rooms_kept_def db_ok_def db_wf_def rooms_ok_def)

lemma live_seq: "db_live D d \<Longrightarrow> 2 \<le> t_room_seq d"
proof -
  assume "db_live D d"
  then have "general_row \<in> set (t_rooms d)" "\<forall>r\<in>set (t_rooms d). rr_id r \<le> t_room_seq d"
    by (auto simp: db_live_def db_ok_def db_wf_def rooms_ok_def)
  then show "2 \<le> t_room_seq d" by (auto simp: general_row_def dest: bspec)
qed

lemma known_added:
  assumes inv: "node_inv F X {} n" and new: "map_of (knownRooms n) (ro_name r) = None"
    and id: "t_room_seq (n_db n) < ro_id r" and db: "db_live (insert (ro_id r) (known_ids n)) d"
  shows "node_inv F X {} (n\<lparr>n_db := d, knownRooms := knownRooms n @ [(ro_name r, r)]\<rparr>)" (is "node_inv F X {} ?n")
proof -
  have live: "db_live (known_ids n) (n_db n)" and rk: "rooms_known n" using inv by (simp_all add: node_inv_def)
  have fresh: "ro_id r \<notin> known_ids n" "3 \<le> ro_id r"
    using live_id_le_seq [OF live] live_seq [OF live] id by force+
  have ids: "known_ids ?n = insert (ro_id r) (known_ids n)" by (simp add: known_ids_def)
  have old: "map_of (knownRooms ?n) k = (case map_of (knownRooms n) k of Some x \<Rightarrow> Some x
      | None \<Rightarrow> if k = ro_name r then Some r else None)" for k
    by (auto simp: map_add_def split: option.split)
  have "rooms_known ?n"
    using rk fresh new unfolding rooms_known_def known_ids_def
    by (auto simp: map_add_def map_of_eq_None_iff image_iff)
  moreover have "sessions_ok {} ?n"
    using inv unfolding sessions_ok_def old by (auto simp: node_inv_def sessions_ok_def)
  moreover have "placed X {} ?n" using inv by (simp add: node_inv_def placed_def)
  ultimately show ?thesis using inv db by (simp add: node_inv_def ids)
qed

lemma safe_rm_createRoom [node_safe]: "safe (node_inv F X {}) (rm_createRoom r e)"
proof (rule safeI)
  fix n
  assume inv: "node_inv F X {} n"
  show "\<exists>a t. rm_createRoom r e n = (Inr a, t) \<and> node_inv F X {} t"
  proof (cases "map_of (knownRooms n) (ro_name r)")
    case (Some x)
    then show ?thesis using inv by (auto simp: rm_createRoom_def bindM_run)
  next
    case None
    obtain q d where q: "db_createRoom (ro_name r) (ro_type r) (ro_privacy r) e (n_db n) = (q, d)" by fastforce
    have live: "db_live (known_ids n) (n_db n)" using inv by (simp add: node_inv_def)
    have "db_live (known_ids n) d" using keepsE [OF live_all(12) live q] .
    then have inv_d: "node_inv F X {} (n\<lparr>n_db := d\<rparr>)" using inv by (rule node_inv_db [rotated])
    show ?thesis
    proof (cases q)
      case (Inl x)
      then show ?thesis
        using None q inv_d by (auto simp: rm_createRoom_def bindM_run catchM_run dbM_def zoomM_def)
    next
      case (Inr c)
      note run = db_createRoom_run [OF live q [unfolded Inr]]
      have "node_inv F X {} (n\<lparr>n_db := d, knownRooms := knownRooms n @ [(ro_name c, c)]\<rparr>)"
        using inv run None by (intro known_added) (simp_all add: mkRoom_def)
      then show ?thesis
        using None q Inr by (auto simp: rm_createRoom_def bindM_run thenM_run catchM_run dbM_def zoomM_def)
    qed
  qed
qed

section \<open>Deleting\<close>

lemma db_deleteRoom_ok:
  assumes live: "db_live D d" and i: "3 \<le> i" "has_room d i" and D: "D' \<subseteq> D - {i}"
  shows "\<exists>d'. db_deleteRoom i d = (Inr (), d') \<and> db_live D' d'"
proof -
  let ?d = "d\<lparr>t_allow := filter (\<lambda>a. al_room a \<noteq> i) (t_allow d),
    t_membership := filter (\<lambda>m. ms_room m \<noteq> i) (t_membership d),
    t_messages := filter (\<lambda>m. mr_room m \<noteq> i) (t_messages d),
    t_rooms := filter (\<lambda>r. rr_id r \<noteq> i) (t_rooms d)\<rparr>"
  have f: "db_faults d = []" using live by (simp add: db_live_simps)
  have ne: "filter (\<lambda>r. rr_id r = i) (t_rooms d) \<noteq> []" using i(2) by (auto simp: has_room_def filter_empty_conv)
  have ex: "execute (sql_delete_room i) d = (Inr (length (filter (\<lambda>r. rr_id r = i) (t_rooms d))), ?d)"
    using f by (auto simp: execute_def sql_delete_room_def step_stmt_ready bindM_run)
  then have run: "db_deleteRoom i d = (Inr (), ?d)" using i(1) ne by (simp add: db_deleteRoom_def bindM_run)
  moreover have "db_ok ?d" using keepsE [OF keeps_db_deleteRoom _ run] live by (simp add: db_live_def)
  moreover have "rooms_kept D' ?d" using live D f by (auto simp: db_live_def rooms_kept_def)
  ultimately show ?thesis by (auto simp: db_live_def)
qed

lemma forM_insertSocket_run:
  "forM fds (\<lambda>fd. insertSocket fd r) n = (Inr (), n\<lparr>members := fold (\<lambda>fd. add_member fd r) fds (members n)\<rparr>)"
  by (induction fds arbitrary: n) (simp_all add: thenM_run insertSocket_run)

lemma distinct_mem_add [simp]: "distinct (mem ms r') \<Longrightarrow> distinct (mem (add_member fd r ms) r')"
  by (cases "r' = r") (simp_all add: mem_add)

lemma mem_fold_add:
  "set (mem (fold (\<lambda>fd. add_member fd r) fds ms) r') = (if r' = r then set fds \<union> set (mem ms r) else set (mem ms r'))"
  "distinct (mem ms r') \<Longrightarrow> distinct (mem (fold (\<lambda>fd. add_member fd r) fds ms) r')"
  "distinct (map fst ms) \<Longrightarrow> distinct (map fst (fold (\<lambda>fd. add_member fd r) fds ms))"
proof -
  show "set (mem (fold (\<lambda>fd. add_member fd r) fds ms) r') =
      (if r' = r then set fds \<union> set (mem ms r) else set (mem ms r'))"
    by (induction fds arbitrary: ms) (auto simp: mem_add)
  show "distinct (mem ms r') \<Longrightarrow> distinct (mem (fold (\<lambda>fd. add_member fd r) fds ms) r')"
    by (induction fds arbitrary: ms) auto
  show "distinct (map fst ms) \<Longrightarrow> distinct (map fst (fold (\<lambda>fd. add_member fd r) fds ms))"
    by (induction fds arbitrary: ms) auto
qed

text \<open>The memory of the room manager after the first critical section of \<open>deleteRoom\<close>.\<close>

definition forgotten :: "string \<Rightarrow> node \<Rightarrow> node" where
  "forgotten r n = n\<lparr>knownRooms := AList.delete r (knownRooms n),
     members := fold (\<lambda>fd. add_member fd (ro_name LOBBY)) (members_of n r) (AList.delete r (members n))\<rparr>"

lemma forgotten_known_ids:
  assumes "rooms_known n" and "map_of (knownRooms n) r = Some R"
  shows "known_ids (forgotten r n) \<subseteq> known_ids n - {ro_id R}"
proof
  fix i
  assume "i \<in> known_ids (forgotten r n)"
  then obtain k x where kx: "(k, x) \<in> set (AList.delete r (knownRooms n))" "i = ro_id x"
    by (auto simp: known_ids_def forgotten_def)
  then have in_known: "(k, x) \<in> set (knownRooms n)" "k \<noteq> r" by (auto simp: AList.delete_eq)
  have "(r, R) \<in> set (knownRooms n)" using assms(2) by (rule map_of_SomeD)
  moreover have "inj_on (\<lambda>(_, r). ro_id r) (set (knownRooms n))"
    using assms(1) by (auto simp: rooms_known_def distinct_map)
  ultimately have "ro_id x \<noteq> ro_id R" using in_known inj_onD [of _ _ "(k, x)" "(r, R)"] by fastforce
  then show "i \<in> known_ids n - {ro_id R}" using in_known kx(2) by (force simp: known_ids_def)
qed

text \<open>The members of a forgotten room, \<open>Y\<close>, are in the Lobby from then on.\<close>

lemma forgotten_placed:
  assumes pl: "placed {} {} n" and r: "r \<noteq> ro_name LOBBY"
  shows "placed {} (set (members_of n r)) ((forgotten r n)\<lparr>n_db := d\<rparr>)"
    (is "placed {} ?Y ?n")
proof -
  have sess: "sessions ?n = sessions n" by (simp add: forgotten_def)
  have mem: "set (members_of ?n k) =
      (if k = ro_name LOBBY then ?Y \<union> set (members_of n k) else if k = r then {} else set (members_of n k))" for k
    using r by (auto simp: forgotten_def members_of_mem mem_fold_add)
      (auto simp: mem_def AList.delete_conv')
  have inY: "fd \<in> ?Y \<longleftrightarrow> ro_name (cs_room s) = r" if "map_of (sessions n) fd = Some s" for fd s
    using that placed_room [OF pl] pl by (auto simp: placed_def eff_room_def)
  show ?thesis
    unfolding placed_def sess mem
  proof (intro conjI allI impI)
    show "distinct (map fst (members ?n))" "distinct (members_of ?n k)" for k
      using pl by (auto simp: forgotten_def members_of_mem placed_def AList.distinct_delete
          intro!: mem_fold_add(2,3)) (auto simp: mem_def AList.delete_conv' split: option.split)
    fix fd k
    assume "fd \<in> (if k = ro_name LOBBY then ?Y \<union> set (members_of n k) else if k = r then {} else set (members_of n k))"
    then consider "k = ro_name LOBBY" "fd \<in> ?Y" | "fd \<in> set (members_of n k)" "k \<noteq> r"
      using r by (auto split: if_splits)
    then show "\<exists>s. map_of (sessions n) fd = Some s \<and> ro_name (eff_room ?Y fd s) = k"
    proof cases
      case 1
      then obtain s where "map_of (sessions n) fd = Some s" using pl by (fastforce simp: placed_def)
      then show ?thesis using 1 by (auto simp: eff_room_def)
    next
      case 2
      then obtain s where "map_of (sessions n) fd = Some s" "ro_name (cs_room s) = k"
        using pl by (fastforce simp: placed_def eff_room_def)
      then show ?thesis using 2 inY by (auto simp: eff_room_def)
    qed
  next
    fix fd s
    assume s: "map_of (sessions n) fd = Some s"
    then have own: "fd \<in> set (members_of n (ro_name (cs_room s)))" using pl by (auto simp: placed_def eff_room_def)
    show "fd \<in> (if ro_name (eff_room ?Y fd s) = ro_name LOBBY then ?Y \<union> set (members_of n (ro_name (eff_room ?Y fd s)))
         else if ro_name (eff_room ?Y fd s) = r then {} else set (members_of n (ro_name (eff_room ?Y fd s))))"
      using inY [OF s] own r by (auto simp: eff_room_def)
  qed
qed

lemma forgotten_inv:
  assumes inv: "node_inv F {} {} n" and r: "r \<noteq> ro_name LOBBY" "r \<noteq> ro_name GENERAL"
    and known: "map_of (knownRooms n) r = Some R"
    and d: "db_live (known_ids (forgotten r n)) d"
  shows "node_inv F {} (set (members_of n r)) ((forgotten r n)\<lparr>n_db := d\<rparr>)"
    (is "node_inv F {} ?Y ?n")
proof -
  have rk: "rooms_known n" and so: "sessions_ok {} n" and pl: "placed {} {} n"
    using inv by (simp_all add: node_inv_def)
  have mo: "map_of (knownRooms ?n) k = (if k = r then None else map_of (knownRooms n) k)" for k
    by (simp add: forgotten_def AList.delete_conv')
  have sess: "sessions ?n = sessions n" by (simp add: forgotten_def)
  have inY: "fd \<in> ?Y \<longleftrightarrow> ro_name (cs_room s) = r" if "map_of (sessions n) fd = Some s" for fd s
    using that placed_room [OF pl] pl by (auto simp: placed_def eff_room_def)
  have effr: "map_of (knownRooms n) (ro_name (cs_room s)) = Some (cs_room s)" "cs_socket s = fd"
    if "map_of (sessions n) fd = Some s" for fd s
    using so that by (auto simp: sessions_ok_def eff_room_def)
  have lobby: "map_of (knownRooms n) (ro_name LOBBY) = Some LOBBY" using rk by (simp add: rooms_known_def)
  have "rooms_known ?n"
    using rk r unfolding rooms_known_def mo
    by (auto simp: forgotten_def AList.distinct_delete AList.delete_eq distinct_map_filter)
  moreover have "sessions_ok ?Y ?n"
    using so effr inY lobby r unfolding sessions_ok_def sess mo by (auto simp: eff_room_def)
  moreover have "placed {} ?Y ?n" using pl r(1) by (rule forgotten_placed)
  moreover have "known_ids ?n = known_ids (forgotten r n)" by (simp add: known_ids_def)
  ultimately show ?thesis using inv d by (simp add: node_inv_def sess)
qed

lemma moved_inv:
  assumes inv: "node_inv F X Y n"
  shows "node_inv F X (Y - {fd})
    (if fd \<in> Y then n\<lparr>sessions := AList.map_entry fd (\<lambda>s. s\<lparr>cs_room := LOBBY\<rparr>) (sessions n)\<rparr> else n)"
proof (cases "fd \<in> Y")
  case False
  then show ?thesis using inv by simp
next
  case True
  let ?n = "n\<lparr>sessions := AList.map_entry fd (\<lambda>s. s\<lparr>cs_room := LOBBY\<rparr>) (sessions n)\<rparr>"
  let ?f = "\<lambda>k s. if k = fd then s\<lparr>cs_room := LOBBY\<rparr> else s"
  have eff: "eff_room (Y - {fd}) k (?f k s) = eff_room Y k s" for k s using True by (auto simp: eff_room_def)
  have sess: "map_of (sessions ?n) k = map_option (?f k) (map_of (sessions n) k)" for k
    by (simp add: session_map_entry)
  have "sessions_ok (Y - {fd}) ?n"
    using inv by (intro sessions_ok_entry [of Y n LOBBY fd "Y - {fd}" ?n]) (simp_all add: node_inv_def rooms_known_def)
  moreover have "placed X (Y - {fd}) ?n"
    unfolding placed_def sess
  proof (intro conjI allI impI)
    show "distinct (map fst (members ?n))" "distinct (members_of ?n k)" for k
      using inv by (auto simp: node_inv_def placed_def)
    fix k r
    assume "k \<in> set (members_of ?n r)"
    then obtain s0 where "map_of (sessions n) k = Some s0" "ro_name (eff_room Y k s0) = r"
      using inv unfolding node_inv_def placed_def members_of_frame by blast
    then show "\<exists>s. map_option (?f k) (map_of (sessions n) k) = Some s \<and> ro_name (eff_room (Y - {fd}) k s) = r"
      using eff [of k s0] by auto
  next
    fix k s
    assume "map_option (?f k) (map_of (sessions n) k) = Some s" "k \<notin> X"
    then obtain s0 where s0: "map_of (sessions n) k = Some s0" "s = ?f k s0" by auto
    then show "k \<in> set (members_of ?n (ro_name (eff_room (Y - {fd}) k s)))"
      using inv \<open>k \<notin> X\<close> unfolding s0(2) eff by (auto simp: node_inv_def placed_def)
  qed
  ultimately show ?thesis
    using inv True by (auto simp: node_inv_def rooms_known_def session_map_entry dom_def subset_iff)
qed

lemma moved_absent: "node_inv F X Y n \<Longrightarrow> map_of (sessions n) fd = None \<Longrightarrow> node_inv F X (Y - {fd}) n"
proof -
  assume inv: "node_inv F X Y n" and none: "map_of (sessions n) fd = None"
  have "eff_room (Y - {fd}) k s = eff_room Y k s" if "map_of (sessions n) k = Some s" for k s
    using that none by (auto simp: eff_room_def)
  then show "node_inv F X (Y - {fd}) n"
    using inv by (simp add: node_inv_def sessions_ok_def placed_def) metis
qed

lemma moveToLobby_hoare:
  assumes "fd \<in> Y" shows "hoare (node_inv F X Y) (moveToLobby i fd) (\<lambda>_. node_inv F X (Y - {fd}))"
proof (rule hoareI)
  fix n
  assume inv: "node_inv F X Y n"
  show "\<exists>a t. moveToLobby i fd n = (Inr a, t) \<and> node_inv F X (Y - {fd}) t"
  proof (cases "map_of (sessions n) fd")
    case None
    then show ?thesis using moved_absent [OF inv] by (simp add: moveToLobby_def bindM_run)
  next
    case (Some s)
    let ?rest = "whenM (cs_authenticated s \<and> u_username (cs_user s) \<noteq> [])
             (catchM
               (bindM (getsM nodeId) (\<lambda>node.
                 thenM (dbM (clearMembership (u_username (cs_user s)) i))
                   (dbM (setMembership (u_username (cs_user s)) (ro_id LOBBY) node))))
               (\<lambda>_. returnM ()))"
    let ?n = "n\<lparr>sessions := AList.map_entry fd (\<lambda>s. s\<lparr>cs_room := LOBBY\<rparr>) (sessions n)\<rparr>"
    have "moveToLobby i fd n = ?rest ?n"
      using Some by (simp add: moveToLobby_def bindM_run thenM_run setRoom_run)
    moreover have "safe (node_inv F X (Y - {fd})) ?rest"
      by (intro safe_intros safe_catchM keeps_intros node_db_keeps)
    ultimately show ?thesis using moved_inv [OF inv, of fd] assms safeD by fastforce
  qed
qed

lemma forM_moveToLobby:
  "distinct fds \<Longrightarrow> set fds \<subseteq> Y \<Longrightarrow>
   hoare (node_inv F X Y) (forM fds (moveToLobby i)) (\<lambda>_. node_inv F X (Y - set fds))"
proof (induction fds arbitrary: Y)
  case Nil
  show ?case unfolding forM.simps by (rule hoare_returnM) simp
next
  case (Cons fd fds)
  have "hoare (node_inv F X (Y - {fd})) (forM fds (moveToLobby i)) (\<lambda>_. node_inv F X (Y - {fd} - set fds))"
    using Cons by (intro Cons.IH) auto
  moreover have "Y - {fd} - set fds = Y - set (fd # fds)" by auto
  ultimately show ?case
    using Cons unfolding forM.simps by (intro hoare_thenM [OF moveToLobby_hoare]) simp_all
qed

lemma safe_rm_deleteRoom [node_safe]: "safe (node_inv F {} {}) (rm_deleteRoom r)"
proof (rule safeI)
  fix n
  assume inv: "node_inv F {} {} n"
  consider "r = ro_name LOBBY \<or> r = ro_name GENERAL \<or> map_of (knownRooms n) r = None"
    | R where "r \<noteq> ro_name LOBBY" "r \<noteq> ro_name GENERAL" "map_of (knownRooms n) r = Some R" by auto
  then show "\<exists>a t. rm_deleteRoom r n = (Inr a, t) \<and> node_inv F {} {} t"
  proof cases
    case 1
    then show ?thesis using inv by (auto simp: rm_deleteRoom_def bindM_run)
  next
    case 2
    let ?fds = "members_of n r"
    have live: "db_live (known_ids n) (n_db n)" and rk: "rooms_known n" using inv by (simp_all add: node_inv_def)
    have R: "3 \<le> ro_id R" "has_room (n_db n) (ro_id R)"
      using rk 2 known_id [OF 2(3)] db_live_simps(4) [OF live] by (auto simp: rooms_known_def dest!: map_of_SomeD)
    obtain d where d: "db_deleteRoom (ro_id R) (n_db n) = (Inr (), d)" "db_live (known_ids (forgotten r n)) d"
      using db_deleteRoom_ok [OF live R forgotten_known_ids [OF rk 2(3)]] by blast
    let ?n = "(forgotten r n)\<lparr>n_db := d\<rparr>"
    let ?rest = "thenM (forM ?fds (moveToLobby (ro_id R)))
                  (bindM rm_listRooms (\<lambda>rooms.
                   bindM (packetM ''server'' ''*'' ROOM_LIST (ro_name LOBBY) (serializeList rooms) 0) (\<lambda>lobbyPush.
                     thenM (forM ?fds (\<lambda>fd. sendTo fd lobbyPush)) (returnM True))))"
    have "rm_deleteRoom r n = ?rest ?n"
      using 2 d(1) by (simp add: rm_deleteRoom_def bindM_run thenM_run catchM_run forM_insertSocket_run
          dbM_def zoomM_def forgotten_def mem_def)
    moreover have "hoare (node_inv F {} (set ?fds)) ?rest (\<lambda>_. node_inv F {} {})"
    proof (rule hoare_thenM)
      show "hoare (node_inv F {} (set ?fds)) (forM ?fds (moveToLobby (ro_id R))) (\<lambda>_. node_inv F {} {})"
        using forM_moveToLobby [of ?fds "set ?fds" F "{}" "ro_id R"] inv by (simp add: node_inv_def placed_def)
      show "hoare (node_inv F {} {}) (bindM rm_listRooms (\<lambda>rooms.
                   bindM (packetM ''server'' ''*'' ROOM_LIST (ro_name LOBBY) (serializeList rooms) 0) (\<lambda>lobbyPush.
                     thenM (forM ?fds (\<lambda>fd. sendTo fd lobbyPush)) (returnM True)))) (\<lambda>_. node_inv F {} {})"
        unfolding safe_def [symmetric] by (intro safe_intros node_safe)
    qed
    ultimately show ?thesis using forgotten_inv [OF inv 2 d(2)] hoareD by fastforce
  qed
qed

end
