(* ===== verification/Event_Safety.thy ===== *)
theory Event_Safety
  imports Room_Safety
begin

text \<open>
  Applying any gossip event, spreading an event and every step of a peer connection keep the node
  consistent and throw nothing while the database works. This matters because the threads of the gossip
  manager have no handler: an exception there would end the process.
\<close>

section \<open>More rules\<close>

lemma safe_snapshot:
  assumes "\<And>n0. safe (node_inv (F \<union> fst ` set (sessions n0)) {} {}) (f (h n0))"
  shows "safe (node_inv F {} {}) (bindM (getsM h) f)"
proof (rule safeI)
  fix n
  assume inv: "node_inv F {} {} n"
  then have "node_inv (F \<union> fst ` set (sessions n)) {} {} n" by (auto simp: node_inv_def dom_map_of_conv_image_fst)
  then obtain a t where "f (h n) n = (Inr a, t)" "node_inv (F \<union> fst ` set (sessions n)) {} {} t"
    using safeD [OF assms [of n]] by blast
  then show "\<exists>a t. bindM (getsM h) f n = (Inr a, t) \<and> node_inv F {} {} t"
    using node_inv_weaken [of "F \<union> fst ` set (sessions n)" "{}" "{}" t F "{}"] by (auto simp: bindM_run)
qed

lemma leaveAll_session:
  assumes "fd \<in> F"
  shows "hoare (node_inv F X {}) (bindM (sessionM fd) (leaveAll fd)) (\<lambda>_. node_inv F (insert fd X) {})"
proof (rule hoareI)
  fix n
  assume inv: "node_inv F X {} n"
  then obtain s where s: "map_of (sessions n) fd = Some s" using assms by (auto simp: node_inv_def)
  then show "\<exists>a t. bindM (sessionM fd) (leaveAll fd) n = (Inr a, t) \<and> node_inv F (insert fd X) {} t"
    using leaveAll_inv [OF inv s] by (simp add: sessionM_def bindM_run session_of_Some)
qed

text \<open>Leave everything, change the user, and enter the Lobby again.\<close>

lemma hoare_relobby:
  assumes fd: "fd \<in> F" and m: "safe (node_inv F {fd} {}) m" and k: "safe (node_inv F {} {}) k"
  shows "hoare (node_inv F {fd} {}) (thenM m (thenM (joinRoom (ro_name LOBBY) fd) k)) (\<lambda>_. node_inv F {} {})"
proof (rule hoare_thenM)
  show "hoare (node_inv F {fd} {}) m (\<lambda>_. node_inv F {fd} {})" using m by (simp add: safe_def)
  have "hoare (node_inv F {fd} {}) (joinRoom (ro_name LOBBY) fd) (\<lambda>_. node_inv F {} {})"
    using joinRoom_lobby [OF fd, of "{fd}"] by simp
  then show "hoare (node_inv F {fd} {}) (thenM (joinRoom (ro_name LOBBY) fd) k) (\<lambda>_. node_inv F {} {})"
    using k by (auto intro: hoare_thenM simp: safe_def)
qed

section \<open>Events\<close>

lemma safe_gossip_sends [node_safe]:
  "safe (node_inv F X Y) (gossipSend fd p)" "safe (node_inv F X Y) (gossipSend_all fds p)"
  unfolding gossipSend_def gossipSend_all_def by (intro safe_intros node_safe)+

lemma safe_noteEvent [node_safe]: "safe (node_inv F X Y) (noteEvent i p)"
  by (auto intro!: safeI simp: noteEvent_def rememberEventLocked_def split: prod.split)

lemma safe_demoteSession: assumes "fd \<in> F" shows "safe (node_inv F {} {}) (demoteSession u fd)"
proof -
  have loop: "safe (node_inv F {} {}) (thenM (bindM (sessionM fd) (\<lambda>s. leaveAll fd s))
      (thenM (bindM anonymousUserM (\<lambda>u. setUser fd u)) (thenM (joinRoom (ro_name LOBBY) fd) (returnM ()))))"
    unfolding safe_def
    by (rule hoare_thenM [OF leaveAll_session [OF assms]])
      (intro hoare_relobby assms safe_intros node_safe)
  show ?thesis unfolding demoteSession_def by (intro loop safe_intros node_safe)
qed

lemma safe_kickSession: assumes "fd \<in> F" shows "safe (node_inv F {} {}) (kickSession u r fd)"
  unfolding kickSession_def by (intro safe_intros node_safe assms)

lemma safe_applyReconnect [node_safe]: "safe (node_inv F {} {}) (applyReconnect u c)"
proof -
  have loop: "safe (node_inv F {} {}) (bindM (getsM (\<lambda>n. (nodeId n, map fst (sessions n)))) (\<lambda>(self, fds).
           thenM (whenM (c \<noteq> self) (forM fds (demoteSession u))) (returnM True)))"
    by (rule safe_snapshot) (auto simp only: prod.case intro!: safe_intros safe_demoteSession, auto)
  show ?thesis unfolding applyReconnect_def by (intro loop safe_intros node_safe)
qed

lemma safe_applyRoomKick [node_safe]: "safe (node_inv F {} {}) (applyRoomKick r u)"
proof -
  have loop: "safe (node_inv F {} {}) (bindM (getsM (\<lambda>n. map fst (sessions n))) (\<lambda>fds.
           thenM (forM fds (kickSession u r)) (returnM True)))"
    by (rule safe_snapshot) (auto intro!: safe_intros safe_kickSession simp del: returnM_run)
  show ?thesis
    unfolding applyRoomKick_def by (intro loop safe_intros safe_catchM node_safe node_db_keeps)
qed

lemma member_after_getUser:
  "hoare (\<lambda>n. node_inv F X Y n \<and> i \<in> known_ids n)
     (bindM (dbM (getUser u)) (\<lambda>user.
        if user = None then returnM True else thenM (dbM (setMembership u i nd)) (returnM True)))
     (\<lambda>_. node_inv F X Y)"
proof (rule hoareI)
  fix n
  assume n: "node_inv F X Y n \<and> i \<in> known_ids n"
  then have live: "db_live (known_ids n) (n_db n)" by (simp add: node_inv_def)
  obtain x where x: "getUser u (n_db n) = (Inr x, n_db n)" by (simp add: getUser_run [OF live])
  show "\<exists>a t. bindM (dbM (getUser u)) (\<lambda>user.
        if user = None then returnM True else thenM (dbM (setMembership u i nd)) (returnM True)) n = (Inr a, t) \<and>
      node_inv F X Y t"
  proof (cases x)
    case None
    then show ?thesis using x n by (auto simp: bindM_run dbM_def zoomM_def)
  next
    case (Some y)
    have "has_username (n_db n) u" using getUser_has [OF live] x Some by blast
    then obtain d where "setMembership u i nd (n_db n) = (Inr (), d)" "db_live (known_ids n) d"
      using setMembership_ok [OF live] n by blast
    then show ?thesis
      using x n Some by (auto simp: bindM_run thenM_run dbM_def zoomM_def node_inv_db)
  qed
qed

lemma safe_dbM_knows:
  assumes "\<And>D. safe (db_live D) m"
  shows "safe (\<lambda>n. node_inv F X Y n \<and> i \<in> known_ids n) (dbM m)"
proof (rule safeI)
  fix n
  assume n: "node_inv F X Y n \<and> i \<in> known_ids n"
  then obtain a d where "m (n_db n) = (Inr a, d)" "db_live (known_ids n) d"
    using assms [of "known_ids n"] by (auto simp: node_inv_def dest: safeD)
  then show "\<exists>a t. dbM m n = (Inr a, t) \<and> node_inv F X Y t \<and> i \<in> known_ids t"
    using n by (auto simp: dbM_def zoomM_def node_inv_db)
qed

lemma hoare_getRoom:
  assumes "safe (node_inv F X Y) m" and "\<And>r. hoare (\<lambda>n. node_inv F X Y n \<and> ro_id r \<in> known_ids n) (g r) (\<lambda>_. node_inv F X Y)"
  shows "safe (node_inv F X Y) (bindM (getRoom k) (\<lambda>x. case x of None \<Rightarrow> m | Some r \<Rightarrow> g r))"
proof (rule safeI)
  fix n
  assume inv: "node_inv F X Y n"
  let ?k = "if k = [] then ro_name LOBBY else k"
  show "\<exists>a t. bindM (getRoom k) (\<lambda>x. case x of None \<Rightarrow> m | Some r \<Rightarrow> g r) n = (Inr a, t) \<and> node_inv F X Y t"
  proof (cases "map_of (knownRooms n) ?k")
    case None
    then show ?thesis using safeD [OF assms(1) inv] by (simp add: getRoom_def bindM_run)
  next
    case (Some r)
    then show ?thesis
      using hoareD [OF assms(2) [of r], of n] inv known_id [OF Some] by (simp add: getRoom_def bindM_run)
  qed
qed

lemma safe_applyRoomJoin [node_safe]: "safe (node_inv F X Y) (applyRoomJoin er u nd pr)"
proof -
  have "hoare (\<lambda>n. node_inv F X Y n \<and> ro_id r \<in> known_ids n)
     (thenM (whenM (pr \<noteq> [] \<and> pr \<noteq> (if er = [] then ''Lobby'' else er))
              (bindM (getRoom pr) (\<lambda>prev.
                 case prev of
                   None \<Rightarrow> returnM ()
                 | Some p \<Rightarrow> dbM (clearMembership u (ro_id p)))))
           (bindM (dbM (getUser u)) (\<lambda>user.
              if user = None then returnM True
              else thenM (dbM (setMembership u (ro_id r) nd)) (returnM True))))
     (\<lambda>_. node_inv F X Y)" for r
    by (rule hoare_thenM [OF _ member_after_getUser]) (unfold safe_def [symmetric] getRoom_def,
        intro safe_intros safe_dbM_knows live_safe)
  then show ?thesis
    unfolding applyRoomJoin_def Let_def by (intro safe_intros hoare_getRoom)
qed

lemma safe_applies [node_safe]:
  "safe (node_inv F X Y) (applyLogin u c)" "safe (node_inv F X Y) (applyLogout u)"
  "safe (node_inv F X Y) (applyUserCreated u c e)" "safe (node_inv F X Y) (applyAclAdd r u c)"
  "safe (node_inv F X Y) (applyRoomLeave r u t)" "safe (node_inv F X Y) (applyMessage r i u c t)"
  unfolding applyLogin_def applyLogout_def applyUserCreated_def applyAclAdd_def applyRoomLeave_def
    applyMessage_def Let_def
  by (intro safe_intros safe_catchM keeps_intros node_safe node_db_keeps)+

lemma safe_applyRoomCreated [node_safe]: "safe (node_inv F X {}) (applyRoomCreated r u c t)"
  unfolding applyRoomCreated_def Let_def
  by (intro safe_intros safe_catchM keeps_intros node_safe node_db_keeps)

lemma safe_applyRoomDeleted [node_safe]: "safe (node_inv F {} {}) (applyRoomDeleted r)"
  unfolding applyRoomDeleted_def by (intro safe_intros node_safe)

lemma safe_applyEvent [node_safe]: "safe (node_inv F {} {}) (applyEvent e)"
  unfolding applyEvent_def Let_def by (intro safe_intros node_safe)

lemma safe_gossipRumor [node_safe]: "safe (node_inv F {} {}) (gossipRumor e)"
  unfolding gossipRumor_def Let_def by (intro safe_intros node_safe)

section \<open>Peer connections\<close>

lemma safe_registerPeer [node_safe]: "safe (node_inv F X Y) (registerPeer fd nd h p)"
  unfolding registerPeer_def by (intro safe_intros safe_modifyM) simp

lemma safe_removePeer [node_safe]: "safe (node_inv F X Y) (removePeer fd)"
  unfolding removePeer_def by (intro safe_intros safe_modifyM node_safe) simp

lemma safe_peer_steps [node_safe]:
  "safe (node_inv F {} {}) (peerHello fd p)" "safe (node_inv F {} {}) (peerEvent p)"
  "safe (node_inv F {} {}) (peerDigest fd p)" "safe (node_inv F {} {}) (peerPull fd p)"
  unfolding peerHello_def peerEvent_def peerDigest_def peerPull_def Let_def
  by (intro safe_intros node_safe)+

lemma safe_peerPacket [node_safe]: "safe (node_inv F {} {}) (peerPacket fd reg p)"
  by (cases "p_type p"; simp only: peerPacket_def packetType.case; intro safe_intros node_safe)

lemma safe_peerLoop [node_safe]: "safe (node_inv F {} {}) (peerLoop fd reg ps)"
  by (induction ps arbitrary: reg) (auto simp only: peerLoop.simps intro!: safe_intros node_safe)

lemma safe_handlePeer [node_safe]: "safe (node_inv F {} {}) (handlePeer fd ps)"
  unfolding handlePeer_def by (intro safe_intros safe_modifyM node_safe) simp

lemma safe_helloPacket [node_safe]: "safe (node_inv F X Y) helloPacket"
  unfolding helloPacket_def by (intro safe_intros node_safe)

lemma safe_acceptPeer [node_safe]: "safe (node_inv F X Y) (acceptPeer fd)"
  unfolding acceptPeer_def by (intro safe_intros safe_modifyM node_safe) simp

lemma safe_dialRound [node_safe]: "safe (node_inv F X Y) (dialRound c as)"
proof (induction as)
  case Nil
  show ?case unfolding dialRound.simps by (rule safe_returnM)
next
  case (Cons a as)
  show ?case
    unfolding dialRound.simps Let_def by (intro safe_intros safe_modifyM node_safe Cons) simp
qed

lemma safe_antiEntropyRound [node_safe]: "safe (node_inv F X Y) antiEntropyRound"
  unfolding antiEntropyRound_def by (intro safe_intros node_safe)

end
