(* ===== verification/Connections.thy ===== *)
theory Connections
  imports Gossip_Manager
begin

text \<open>
  The part of src/server/connection_manager.cpp that the packet processor calls (\<open>rumor\<close>,
  \<open>isNodeLive\<close>, \<open>refreshServerDirectory\<close>) and the life of a session: \<open>openSession\<close>,
  \<open>removeSession\<close>, \<open>releaseClient\<close>.
\<close>

definition rumor :: "packet \<Rightarrow> (node, unit) mon" where
  "rumor event = bindM (getsM gossip_wired) (\<lambda>g. whenM g (gossipRumor event))"

definition cm_isNodeLive :: "string \<Rightarrow> (node, bool) mon" where
  "cm_isNodeLive node = getsM (\<lambda>n. gossip_wired n \<and> isNodeLive node n)"

definition refreshServerDirectory :: "SOCKET \<Rightarrow> (node, unit) mon" where
  "refreshServerDirectory only =
     bindM (getsM (\<lambda>n. (gossip_wired n, buildServerDirectory n))) (\<lambda>(g, body).
       whenM g (pushServerDirectory body only))"

text \<open>The end of \<open>removeSession\<close> for a logged-in user: a LOGOUT event, or the database directly.\<close>

definition dropLogout :: "string \<Rightarrow> (node, unit) mon" where
  "dropLogout username =
     bindM (getsM gossip_wired) (\<lambda>g.
       if g then
         thenM (modifyM (\<lambda>n. n\<lparr>dropLogoutSeq := dropLogoutSeq n + 1\<rparr>))
         (bindM (getsM (\<lambda>n. n)) (\<lambda>n.
           let ident = nodeId n @ ''-LOGOUT-'' @ username @ ''-'' @ int_to_string (n_now n) @ ''-'' @
                         nat_to_string (unat (dropLogoutSeq n));
               payload = encode ''LOGOUT'' ident username (nodeId n) (int_to_string (n_now n))
           in bindM (packetM (nodeId n) ''*'' GOSSIP_EVENT '''' payload 0) gossipRumor))
       else
         catchM (thenM (dbM (clearOnline username)) (dbM (clearAllMembership username)))
           (\<lambda>_. returnM ()))"

definition removeSession :: "SOCKET \<Rightarrow> (node, unit) mon" where
  "removeSession fd =
     bindM (getsM (\<lambda>n. map_of (sessions n) fd)) (\<lambda>it.
     case it of
       None \<Rightarrow> returnM ()
     | Some session \<Rightarrow>
         thenM (modifyM (\<lambda>n. n\<lparr>sessions := AList.delete fd (sessions n),
                               webSockets := removeAll fd (webSockets n)\<rparr>))
        (thenM (leaveAll fd session)
          (if \<not> cs_authenticated session \<or> u_username (cs_user session) = [] then returnM ()
           else dropLogout (u_username (cs_user session)))))"

definition releaseClient :: "SOCKET \<Rightarrow> (node, unit) mon" where
  "releaseClient fd = thenM (closeClient fd) (removeSession fd)"

definition openSession :: "SOCKET \<Rightarrow> (node, bool) mon" where
  "openSession fd =
     bindM anonymousUserM (\<lambda>user.
     bindM (getsM n_steady) (\<lambda>t.
     thenM (addSession fd (mkSession fd user LOBBY t))
    (bindM (joinRoom (ro_name LOBBY) fd) (\<lambda>joined.
     if \<not> joined then thenM (closeClient fd) (thenM (removeSession fd) (returnM False))
     else
       bindM rm_listRooms (\<lambda>rooms.
       let directory = (if rooms = [] then [LOBBY, GENERAL] else rooms) in
       bindM (sessionM fd) (\<lambda>s.
       bindM (packetM ''server'' (user_serialize (cs_user s)) ROOM_LIST (ro_name LOBBY)
                (serializeList directory) 0) (\<lambda>welcome.
       bindM (sendPacket fd welcome) (\<lambda>sent.
       if \<not> sent then thenM (closeClient fd) (thenM (removeSession fd) (returnM False))
       else
         bindM (getsM (\<lambda>n. (gossip_wired n, buildServerDirectory n))) (\<lambda>(g, body).
           thenM (whenM g (pushServerDirectory body fd)) (returnM True)))))))))) "

end
