(* ===== verification/Packet_Processor.thy ===== *)
theory Packet_Processor
  imports Connections
begin

text \<open>
  src/server/packet_processor.cpp: the reply to each packet of a client and its effects on rooms,
  database and cluster. \<open>handle...\<close> is one \<open>case\<close> of the switch in \<open>processPacket\<close>; a \<open>break\<close> with a
  prepared response is \<open>returnM\<close> of that response. \<open>catch (...)\<close> clauses are \<open>catchM\<close>: every exception
  of the model is a \<open>std::exception\<close>, so the last of the clauses of a \<open>try\<close> is never reached
  when a clause for \<open>std::exception\<close> is present.
\<close>

section \<open>Events\<close>

definition makeEventId :: "string \<Rightarrow> string \<Rightarrow> (node, string) mon" where
  "makeEventId kind username =
     thenM (modifyM (\<lambda>n. n\<lparr>nextPresenceSeq := nextPresenceSeq n + 1\<rparr>))
       (getsM (\<lambda>n. nodeId n @ ''-'' @ kind @ ''-'' @ username @ ''-'' @ int_to_string (n_now n) @ ''-'' @
          nat_to_string (unat (nextPresenceSeq n))))"

definition rumorEvent :: "string \<Rightarrow> string \<Rightarrow> string \<Rightarrow> string \<Rightarrow> string \<Rightarrow> (node, unit) mon" where
  "rumorEvent type username content field5 room =
     bindM (makeEventId type username) (\<lambda>ident.
     bindM (getsM nodeId) (\<lambda>self.
     bindM (packetM self ''*'' GOSSIP_EVENT room (encode type ident username content field5) 0) rumor))"

definition nowText :: "(node, string) mon" where
  "nowText = getsM (\<lambda>n. int_to_string (n_now n))"

definition rumorPresence :: "string \<Rightarrow> string \<Rightarrow> (node, unit) mon" where
  "rumorPresence kind username =
     bindM nowText (\<lambda>ts. bindM (getsM nodeId) (\<lambda>self. rumorEvent kind username self ts ''''))"

definition rumorUserCreated :: "string \<Rightarrow> string \<Rightarrow> string \<Rightarrow> (node, unit) mon" where
  "rumorUserCreated username passwordHash email = rumorEvent ''USER_CREATED'' username passwordHash email ''''"

definition rumorRoomJoin :: "string \<Rightarrow> string \<Rightarrow> string \<Rightarrow> (node, unit) mon" where
  "rumorRoomJoin username newRoom prevRoom =
     bindM (getsM nodeId) (\<lambda>self. rumorEvent ''ROOM_JOIN'' username self prevRoom newRoom)"

definition rumorMessage :: "string \<Rightarrow> string \<Rightarrow> string \<Rightarrow> (node, unit) mon" where
  "rumorMessage username content room =
     bindM nowText (\<lambda>ts. rumorEvent ''MESSAGE'' username content ts room)"

definition rumorRoomCreated :: "string \<Rightarrow> room \<Rightarrow> (node, unit) mon" where
  "rumorRoomCreated username room =
     rumorEvent ''ROOM_CREATED'' username (roomTypeToString (ro_type room)) (privacyToString (ro_privacy room))
       (ro_name room)"

definition rumorAclAdd :: "string \<Rightarrow> string \<Rightarrow> bool \<Rightarrow> (node, unit) mon" where
  "rumorAclAdd username roomName creator =
     rumorEvent ''ROOM_ACL_ADD'' username (if creator then ''1'' else ''0'') '''' roomName"

definition rumorRoomKick :: "string \<Rightarrow> string \<Rightarrow> (node, unit) mon" where
  "rumorRoomKick username roomName =
     bindM (getsM nodeId) (\<lambda>self. rumorEvent ''ROOM_KICK'' username self '''' roomName)"

definition rumorRoomDeleted :: "string \<Rightarrow> string \<Rightarrow> (node, unit) mon" where
  "rumorRoomDeleted username roomName =
     bindM (getsM nodeId) (\<lambda>self. rumorEvent ''ROOM_DELETED'' username self '''' roomName)"

section \<open>Helpers\<close>

definition encodeRoomDirectory :: "(node, string) mon" where
  "encodeRoomDirectory = bindM rm_listRooms (\<lambda>rooms. returnM (serializeList rooms))"

definition pushRoomDirectory :: "SOCKET \<Rightarrow> (node, unit) mon" where
  "pushRoomDirectory skip =
     bindM encodeRoomDirectory (\<lambda>body.
     bindM (packetM ''server'' ''*'' ROOM_LIST '''' body 0) (\<lambda>push.
       thenM (broadcastAll push skip) (returnM ())))"

text \<open>\<open>encodeHistory\<close> walks the newest-first list backwards.\<close>

definition encodeHistory :: "chat_message list \<Rightarrow> string" where
  "encodeHistory messages =
     concat (map (\<lambda>m. ''['' @ u_username (m_from m) @ '']['' @ int_to_string (m_timestamp m) @ ''] '' @
        m_content m @ [CHR 0x0A]) (rev messages))"

definition isAdmin :: "clientSession \<Rightarrow> bool" where
  "isAdmin session \<longleftrightarrow> cs_authenticated session \<and> u_type (cs_user session) = ADMIN"

definition reply :: "packet \<Rightarrow> RESPONSE_CODES \<Rightarrow> string \<Rightarrow> packet" where
  "reply response code message = response\<lparr>p_code := responseCode code, p_message := message\<rparr>"

definition denyForbidden :: "packet \<Rightarrow> string \<Rightarrow> packet" where
  "denyForbidden response message = reply response FORBIDDEN message"

definition findSessionByUsername :: "node \<Rightarrow> string \<Rightarrow> SOCKET option" where
  "findSessionByUsername n username =
     (case find (\<lambda>(fd, s). cs_authenticated s \<and> u_username (cs_user s) = username) (sessions n) of
        Some (fd, _) \<Rightarrow> Some fd
      | None \<Rightarrow> None)"

section \<open>Session packets\<close>

definition alreadyLoggedIn :: "packet \<Rightarrow> packet" where
  "alreadyLoggedIn response = reply response ERROR ''user already logged in''"

definition handleLogin :: "argon2 \<Rightarrow> packet \<Rightarrow> SOCKET \<Rightarrow> packet \<Rightarrow> (node, packet) mon" where
  "handleLogin A packet fd response =
     catchM
       (bindM (dbM (loginUser A (p_sender packet) (p_message packet))) (\<lambda>dbResult.
        case dbResult of
          Inl err \<Rightarrow> returnM (reply response ERROR err)
        | Inr user \<Rightarrow>
            bindM (hasSession user) (\<lambda>local.
            bindM (if local then returnM True else dbM (isUserOnline (u_username user))) (\<lambda>online.
            if online then returnM (alreadyLoggedIn response)
            else
              bindM (sessionM fd) (\<lambda>session.
              let prevRoom = ro_name (cs_room session) in
              thenM (setUser fd user)
             (thenM (setAuthenticated fd True)
             (thenM (joinRoom (ro_name LOBBY) fd)
             (thenM (rumorPresence ''LOGIN'' (u_username user))
             (thenM (rumorRoomJoin (u_username user) (ro_name LOBBY) prevRoom)
             (bindM encodeRoomDirectory (\<lambda>dir.
              thenM (refreshServerDirectory fd)
                (returnM ((reply response SUCCESS (user_serialize user))\<lparr>p_room := dir\<rparr>)))))))))))))
       (\<lambda>_. returnM (reply response INTERNAL_SERVER_ERROR ''login failed''))"

text \<open>Whether the node that holds the user's presence row still runs the session.\<close>

definition ownerLiveM :: "user \<Rightarrow> string \<Rightarrow> (node, bool) mon" where
  "ownerLiveM user owner =
     bindM (getsM nodeId) (\<lambda>self.
       if owner = self then hasSession user else cm_isNodeLive owner)"

text \<open>The room a resumed session gets: the one asked for when it exists and is open to the user.\<close>

definition resumeRoom :: "user \<Rightarrow> SOCKET \<Rightarrow> string \<Rightarrow> (node, string) mon" where
  "resumeRoom user fd requested =
     bindM (getRoom requested) (\<lambda>room.
     bindM (sessionM fd) (\<lambda>session.
     bindM
       (case room of
          None \<Rightarrow> returnM False
        | Some r \<Rightarrow>
            if ro_privacy r = PRIVATE \<and> \<not> isAdmin session
            then bindM (dbM (isAllowed (ro_id r) (u_email user))) (\<lambda>allowed. returnM (\<not> allowed))
            else returnM False)
       (\<lambda>privateBlocked.
     bindM (if room \<noteq> None \<and> \<not> privateBlocked then joinRoom requested fd else returnM False) (\<lambda>ok.
       if ok then returnM requested
       else thenM (joinRoom (ro_name LOBBY) fd) (returnM (ro_name LOBBY))))))"

definition handleReconnect :: "packet \<Rightarrow> SOCKET \<Rightarrow> packet \<Rightarrow> (node, packet) mon" where
  "handleReconnect packet fd response =
     catchM
       (bindM (dbM (getUser (p_sender packet))) (\<lambda>found.
        case found of
          None \<Rightarrow> returnM (reply response ERROR ''unknown user'')
        | Some user \<Rightarrow>
            let username = u_username user in
            bindM (dbM (onlineNode username)) (\<lambda>holder.
            case holder of
              None \<Rightarrow> returnM (reply response ERROR ''not logged in'')
            | Some owner \<Rightarrow>
                bindM (ownerLiveM user owner) (\<lambda>ownerLive.
                bindM (hasSession user) (\<lambda>local.
                bindM (if local then returnM False else dbM (canClaimPresence username ownerLive)) (\<lambda>claim.
                if \<not> claim then returnM (alreadyLoggedIn response)
                else
                  bindM (sessionM fd) (\<lambda>session.
                  let prevRoom = ro_name (cs_room session) in
                  thenM (setUser fd user)
                 (thenM (setAuthenticated fd True)
                 (bindM (getsM nodeId) (\<lambda>self.
                  thenM (dbM (setOnline username self))
                 (thenM (dbM (moveMembership username self))
                 (bindM (resumeRoom user fd (if p_room packet = [] then ro_name LOBBY else p_room packet)) (\<lambda>joined.
                  thenM (whenM (joined \<noteq> ro_name LOBBY)
                    (bindM (getRoom joined) (\<lambda>joinedRoom.
                       case joinedRoom of
                         None \<Rightarrow> returnM ()
                       | Some r \<Rightarrow>
                           whenM (ro_privacy r = PUBLIC) (dbM (addToAllowList (ro_id r) (u_email user) False)))))
                 (thenM (rumorPresence ''RECONNECT'' username)
                 (thenM (rumorRoomJoin username joined prevRoom)
                 (bindM encodeRoomDirectory (\<lambda>dir.
                  thenM (refreshServerDirectory fd)
                    (returnM ((reply response SUCCESS (user_serialize user))\<lparr>p_room := dir\<rparr>)))))))))))))))))))
       (\<lambda>_. returnM (reply response INTERNAL_SERVER_ERROR ''reconnect failed''))"

definition saltM :: "nat \<Rightarrow> (node, string) mon" where
  "saltM k = (\<lambda>n. (Inr (map (\<lambda>d. char_of (d mod 256)) (take k (n_draws n))), n\<lparr>n_draws := drop k (n_draws n)\<rparr>))"

definition handleRegister :: "argon2 \<Rightarrow> packet \<Rightarrow> SOCKET \<Rightarrow> packet \<Rightarrow> (node, packet) mon" where
  "handleRegister A packet fd response =
     catchM
       (let username = p_sender packet; password = p_message packet; email = p_room packet in
        bindM (dbM (userExists username)) (\<lambda>exists.
        if exists then returnM (reply response ERROR ''user already exists'')
        else if username = [] \<or> password = [] \<or> email = []
        then returnM (reply response ERROR ''missing username, password, or email'')
        else
          bindM (saltM kSaltLen) (\<lambda>salt.
          bindM (liftE (hashPassword A salt password)) (\<lambda>hashedPassword.
          bindM (dbM (createUser username hashedPassword email)) (\<lambda>user.
          thenM (rumorUserCreated (u_username user) hashedPassword email)
         (bindM (sessionM fd) (\<lambda>session.
          let prevRoom = ro_name (cs_room session) in
          thenM (setUser fd user)
         (thenM (setAuthenticated fd True)
         (thenM (joinRoom (ro_name LOBBY) fd)
         (thenM (rumorPresence ''LOGIN'' (u_username user))
         (thenM (rumorRoomJoin (u_username user) (ro_name LOBBY) prevRoom)
         (bindM encodeRoomDirectory (\<lambda>dir.
          thenM (refreshServerDirectory fd)
            (returnM ((reply response SUCCESS (user_serialize user))\<lparr>p_room := dir\<rparr>)))))))))))))))
       (\<lambda>e. case e of
          ConstraintError m \<Rightarrow> returnM (reply response ERROR m)
        | _ \<Rightarrow> returnM (reply response INTERNAL_SERVER_ERROR (''register failed: '' @ what e)))"

definition handleLogout :: "SOCKET \<Rightarrow> packet \<Rightarrow> (node, packet) mon" where
  "handleLogout fd response =
     bindM (sessionM fd) (\<lambda>session.
     let wasAuth = cs_authenticated session; username = u_username (cs_user session) in
     thenM (leaveAll fd session)
    (thenM (setAuthenticated fd False)
    (thenM (bindM anonymousUserM (setUser fd))
    (thenM (joinRoom (ro_name LOBBY) fd)
    (thenM (whenM (wasAuth \<and> username \<noteq> []) (rumorPresence ''LOGOUT'' username))
      (returnM (reply response SUCCESS ''logged out'')))))))"

section \<open>Rooms and messages\<close>

definition handleMessage :: "packet \<Rightarrow> SOCKET \<Rightarrow> packet \<Rightarrow> (node, packet) mon" where
  "handleMessage packet fd response =
     (if p_message packet = [] then returnM (reply response ERROR ''empty message'')
      else catchM
        (bindM (sessionM fd) (\<lambda>session.
         let username = u_username (cs_user session); room = cs_room session in
         thenM
           (if cs_authenticated session then rumorMessage username (p_message packet) (ro_name room)
            else bindM (packetM username '''' MESSAGE (ro_name room) (p_message packet) 0) (\<lambda>push.
              thenM (broadcast room push INVALID_SOCKET) (returnM ())))
           (returnM (reply response SUCCESS ''ok''))))
        (\<lambda>e. returnM (reply response INTERNAL_SERVER_ERROR (''send failed: '' @ what e))))"

text \<open>A private room admits its allow list and administrators.\<close>

definition mayJoin :: "clientSession \<Rightarrow> room \<Rightarrow> (node, bool) mon" where
  "mayJoin session room =
     (if ro_privacy room = PRIVATE \<and> \<not> isAdmin session then
        (if \<not> cs_authenticated session then returnM False
         else dbM (isAllowed (ro_id room) (u_email (cs_user session))))
      else returnM True)"

definition handleRoomJoin :: "packet \<Rightarrow> SOCKET \<Rightarrow> packet \<Rightarrow> (node, packet) mon" where
  "handleRoomJoin packet fd response =
     catchM
       (let roomName = (if p_room packet = [] then ro_name LOBBY else p_room packet) in
        bindM (getRoom roomName) (\<lambda>found.
        case found of
          None \<Rightarrow> returnM (reply response NOT_FOUND (''unknown room: '' @ roomName))
        | Some room \<Rightarrow>
            bindM (sessionM fd) (\<lambda>session.
            bindM (mayJoin session room) (\<lambda>ok.
            if \<not> ok then returnM (reply response ERROR (''not allowed to join '' @ roomName))
            else
              bindM (joinRoom roomName fd) (\<lambda>joined.
              if \<not> joined then returnM (reply response ERROR (''failed to join '' @ roomName))
              else
                thenM (whenM (cs_authenticated session \<and> ro_privacy room = PUBLIC)
                  (dbM (addToAllowList (ro_id room) (u_email (cs_user session)) False)))
               (thenM (whenM (cs_authenticated session)
                  (rumorRoomJoin (u_username (cs_user session)) roomName (ro_name (cs_room session))))
                  (returnM ((reply response SUCCESS (''joined '' @ roomName))\<lparr>p_room := roomName\<rparr>))))))))
       (\<lambda>e. returnM (reply response INTERNAL_SERVER_ERROR (''join failed: '' @ what e)))"

definition handleRoomLeave :: "SOCKET \<Rightarrow> packet \<Rightarrow> (node, packet) mon" where
  "handleRoomLeave fd response =
     catchM
       (bindM (sessionM fd) (\<lambda>session.
        let prevRoom = ro_name (cs_room session) in
        bindM (joinRoom (ro_name LOBBY) fd) (\<lambda>ok.
        if \<not> ok then returnM (reply response ERROR ''failed to leave room'')
        else
          thenM (whenM (cs_authenticated session)
            (rumorRoomJoin (u_username (cs_user session)) (ro_name LOBBY) prevRoom))
            (returnM ((reply response SUCCESS ''left room, back in Lobby'')\<lparr>p_room := ro_name LOBBY\<rparr>)))))
       (\<lambda>e. returnM (reply response INTERNAL_SERVER_ERROR (''leave failed: '' @ what e)))"

definition notAuthenticated :: "packet \<Rightarrow> packet" where
  "notAuthenticated response = reply response ERROR ''not authenticated''"

definition handleRoomCreate :: "packet \<Rightarrow> SOCKET \<Rightarrow> packet \<Rightarrow> (node, packet) mon" where
  "handleRoomCreate packet fd response =
     bindM (sessionM fd) (\<lambda>session.
     if \<not> cs_authenticated session then returnM (notAuthenticated response)
     else catchM
       (let roomName = p_room packet in
        if roomName = [] then returnM (reply response ERROR ''missing room name'')
        else
          let privacy = (if p_message packet \<noteq> [] then stringToPrivacy (p_message packet) else PUBLIC) in
          bindM (rm_createRoom (mkRoom 0 roomName OTHER privacy) (u_email (cs_user session))) (\<lambda>ok.
          if \<not> ok then returnM (reply response ERROR ''room already exists or create failed'')
          else
            bindM (getRoom roomName) (\<lambda>created.
            case created of
              None \<Rightarrow> returnM (reply response INTERNAL_SERVER_ERROR ''create failed'')
            | Some room \<Rightarrow>
                thenM (rumorRoomCreated (u_username (cs_user session)) room)
               (thenM (pushRoomDirectory INVALID_SOCKET)
                 (returnM ((reply response SUCCESS (room_serialize room))\<lparr>p_room := roomName\<rparr>))))))
       (\<lambda>_. returnM (reply response INTERNAL_SERVER_ERROR ''create failed'')))"

definition constraintOr :: "packet \<Rightarrow> string \<Rightarrow> exn \<Rightarrow> packet" where
  "constraintOr response failed e =
     (case e of
        ConstraintError m \<Rightarrow> reply response ERROR m
      | _ \<Rightarrow> reply response INTERNAL_SERVER_ERROR failed)"

text \<open>\<open>isAdmin(session) || db.isAllowListCreator(room, email)\<close>\<close>

definition mayManage :: "clientSession \<Rightarrow> room \<Rightarrow> (node, bool) mon" where
  "mayManage session room =
     (if isAdmin session then returnM True
      else dbM (isAllowListCreator (ro_id room) (u_email (cs_user session))))"

definition handleRoomInvite :: "packet \<Rightarrow> SOCKET \<Rightarrow> packet \<Rightarrow> (node, packet) mon" where
  "handleRoomInvite packet fd response =
     bindM (sessionM fd) (\<lambda>session.
     if \<not> cs_authenticated session then returnM (notAuthenticated response)
     else catchM
       (let roomName = (if p_room packet = [] then ro_name (cs_room session) else p_room packet);
            invitee = p_message packet in
        if roomName = [] \<or> invitee = [] then returnM (reply response ERROR ''missing room or invitee username'')
        else
          bindM (getRoom roomName) (\<lambda>found.
          case found of
            None \<Rightarrow> returnM (reply response NOT_FOUND (''unknown room: '' @ roomName))
          | Some room \<Rightarrow>
              if ro_privacy room \<noteq> PRIVATE \<and> \<not> isAdmin session
              then returnM (reply response ERROR ''invite only allowed for private rooms'')
              else
                bindM (mayManage session room) (\<lambda>ok.
                if \<not> ok
                then returnM (denyForbidden response ''only the room creator or an admin can invite'')
                else
                  bindM (dbM (getUser invitee)) (\<lambda>target.
                  case target of
                    None \<Rightarrow> returnM (reply response NOT_FOUND (''unknown user: '' @ invitee))
                  | Some u \<Rightarrow>
                      thenM (dbM (addToAllowList (ro_id room) (u_email u) False))
                     (thenM (rumorAclAdd invitee roomName False)
                       (returnM ((reply response SUCCESS (''invited '' @ invitee))\<lparr>p_room := roomName\<rparr>)))))))
       (\<lambda>e. returnM (constraintOr response ''invite failed'' e)))"

definition handleRoomDelete :: "packet \<Rightarrow> SOCKET \<Rightarrow> packet \<Rightarrow> (node, packet) mon" where
  "handleRoomDelete packet fd response =
     bindM (sessionM fd) (\<lambda>session.
     if \<not> isAdmin session then returnM (denyForbidden response ''admin required'')
     else catchM
       (let roomName = (if p_room packet = [] then ro_name (cs_room session) else p_room packet) in
        if roomName = [] then returnM (reply response ERROR ''missing room name'')
        else if roomName = ro_name LOBBY \<or> roomName = ro_name GENERAL
        then returnM (reply response ERROR ''cannot delete Lobby or General'')
        else
          bindM (rm_deleteRoom roomName) (\<lambda>ok.
          if \<not> ok then returnM (reply response ERROR ''unknown room or delete failed'')
          else
            thenM (rumorRoomDeleted (u_username (cs_user session)) roomName)
           (thenM (pushRoomDirectory INVALID_SOCKET)
             (returnM ((reply response SUCCESS (''deleted '' @ roomName))\<lparr>p_room := ro_name LOBBY\<rparr>)))))
       (\<lambda>_. returnM (reply response INTERNAL_SERVER_ERROR ''delete failed'')))"

text \<open>The part of a kick that moves a session on this node.\<close>

definition evictTarget :: "string \<Rightarrow> string \<Rightarrow> (node, unit) mon" where
  "evictTarget target roomName =
     bindM (getsM (\<lambda>n. findSessionByUsername n target)) (\<lambda>found.
     case found of
       None \<Rightarrow> returnM ()
     | Some tfd \<Rightarrow>
         bindM (sessionM tfd) (\<lambda>ts.
           whenM (ro_name (cs_room ts) = roomName)
             (thenM (joinRoom (ro_name LOBBY) tfd)
             (thenM (rumorRoomJoin target (ro_name LOBBY) roomName)
               (pushLobbyTo tfd)))))"

definition handleRoomKick :: "packet \<Rightarrow> SOCKET \<Rightarrow> packet \<Rightarrow> (node, packet) mon" where
  "handleRoomKick packet fd response =
     bindM (sessionM fd) (\<lambda>session.
     if \<not> cs_authenticated session then returnM (notAuthenticated response)
     else catchM
       (let roomName = (if p_room packet = [] then ro_name (cs_room session) else p_room packet);
            target = p_message packet in
        if roomName = [] \<or> target = [] then returnM (reply response ERROR ''missing room or username'')
        else if roomName = ro_name LOBBY then returnM (reply response ERROR ''cannot kick from Lobby'')
        else if target = u_username (cs_user session)
        then returnM (reply response ERROR ''cannot kick yourself'')
        else
          bindM (getRoom roomName) (\<lambda>found.
          case found of
            None \<Rightarrow> returnM (reply response NOT_FOUND (''unknown room: '' @ roomName))
          | Some room \<Rightarrow>
              bindM (mayManage session room) (\<lambda>ok.
              if \<not> ok then returnM (denyForbidden response ''only the room creator or an admin can kick'')
              else
                bindM (dbM (getUser target)) (\<lambda>user.
                case user of
                  None \<Rightarrow> returnM (reply response NOT_FOUND (''unknown user: '' @ target))
                | Some u \<Rightarrow>
                    thenM (dbM (removeFromAllowList (ro_id room) (u_email u)))
                   (thenM (evictTarget target roomName)
                   (thenM (rumorRoomKick target roomName)
                     (returnM ((reply response SUCCESS (''kicked '' @ target))\<lparr>p_room := roomName\<rparr>))))))))
       (\<lambda>e. returnM (constraintOr response ''kick failed'' e)))"

section \<open>History and profile\<close>

definition handleLoadHistory :: "packet \<Rightarrow> SOCKET \<Rightarrow> packet \<Rightarrow> (node, packet) mon" where
  "handleLoadHistory packet fd response =
     catchM
       (bindM (sessionM fd) (\<lambda>session.
        let roomName = (if p_room packet = [] then ro_name (cs_room session) else p_room packet) in
        bindM (getRoom roomName) (\<lambda>found.
        case found of
          None \<Rightarrow> returnM (reply response NOT_FOUND (''unknown room: '' @ roomName))
        | Some room \<Rightarrow>
            bindM (dbM (loadHistory (ro_id room))) (\<lambda>history.
              returnM ((reply response SUCCESS (encodeHistory history))\<lparr>p_room := roomName\<rparr>)))))
       (\<lambda>e. returnM (reply response INTERNAL_SERVER_ERROR (''load history failed: '' @ what e)))"

definition handleUpdateUser :: "argon2 \<Rightarrow> packet \<Rightarrow> SOCKET \<Rightarrow> packet \<Rightarrow> (node, packet) mon" where
  "handleUpdateUser A packet fd response =
     bindM (sessionM fd) (\<lambda>session.
     if \<not> cs_authenticated session then returnM (notAuthenticated response)
     else catchM
       (let newUsername = p_sender packet; newPassword = p_message packet; email = p_room packet in
        if newUsername = [] \<or> email = [] then returnM (reply response ERROR ''missing username or email'')
        else
          bindM (if newPassword \<noteq> [] then saltM kSaltLen else returnM []) (\<lambda>salt.
          bindM (dbM (updateUser A salt (u_username (cs_user session)) newUsername newPassword email)) (\<lambda>updated.
          thenM (setUser fd updated)
            (returnM (reply response SUCCESS (user_serialize updated))))))
       (\<lambda>e. returnM (reply response ERROR (what e))))"

section \<open>The dispatcher\<close>

definition processPacket :: "argon2 \<Rightarrow> packet \<Rightarrow> SOCKET \<Rightarrow> (node, packet) mon" where
  "processPacket A packet fd =
     bindM (getsM n_now) (\<lambda>now.
     let response = packet\<lparr>p_timestamp := of_int now, p_sender := ''server'', p_receiver := p_sender packet\<rparr> in
     case p_type packet of
       HEARTBEAT \<Rightarrow> returnM (reply response SUCCESS ''pong'')
     | GOSSIP_HELLO \<Rightarrow> returnM (reply response ERROR ''unsupported on client port'')
     | GOSSIP_EVENT \<Rightarrow> returnM (reply response ERROR ''unsupported on client port'')
     | GOSSIP_DIGEST \<Rightarrow> returnM (reply response ERROR ''unsupported on client port'')
     | GOSSIP_PULL \<Rightarrow> returnM (reply response ERROR ''unsupported on client port'')
     | ROOM_LIST \<Rightarrow> returnM (reply response ERROR ''unsupported on client port'')
     | SERVER_DIRECTORY \<Rightarrow> returnM (reply response ERROR ''unsupported on client port'')
     | LOGIN \<Rightarrow> handleLogin A packet fd response
     | RECONNECT \<Rightarrow> handleReconnect packet fd response
     | REGISTER \<Rightarrow> handleRegister A packet fd response
     | LOGOUT \<Rightarrow> handleLogout fd response
     | MESSAGE \<Rightarrow> handleMessage packet fd response
     | ROOM_JOIN \<Rightarrow> handleRoomJoin packet fd response
     | ROOM_LEAVE \<Rightarrow> handleRoomLeave fd response
     | ROOM_CREATE \<Rightarrow> handleRoomCreate packet fd response
     | ROOM_INVITE \<Rightarrow> handleRoomInvite packet fd response
     | ROOM_DELETE \<Rightarrow> handleRoomDelete packet fd response
     | ROOM_KICK \<Rightarrow> handleRoomKick packet fd response
     | LOAD_MESSAGE_HISTORY \<Rightarrow> handleLoadHistory packet fd response
     | UPDATE_USER \<Rightarrow> handleUpdateUser A packet fd response
     | _ \<Rightarrow> returnM (reply response ERROR ''unknown packet type''))"

end
