(* ===== verification/Server_Node.thy ===== *)
theory Server_Node
  imports Packet_Processor
begin

text \<open>
  The outer layer of a node: \<open>dispatchPacket\<close>, \<open>acceptLoop\<close>, \<open>handleClient\<close> and the listening state
  of src/server/connection_manager.cpp, and one ping round of src/server/heartbeat.cpp. A handler thread is a fold over the packets its socket
  delivers; the end of the list is the read that fails.
\<close>

section \<open>Client connections\<close>

definition dispatchPacket :: "argon2 \<Rightarrow> SOCKET \<Rightarrow> packet \<Rightarrow> (node, bool) mon" where
  "dispatchPacket A fd packet =
     bindM (getsM (\<lambda>n. map_of (sessions n) fd)) (\<lambda>it.
     if it = None then returnM False
     else
       thenM (touch fd)
         (if p_type packet = HEARTBEAT \<and> p_message packet \<noteq> ''ping'' then returnM True
          else bindM (processPacket A packet fd) (\<lambda>response. sendPacket fd response)))"

fun clientLoop :: "argon2 \<Rightarrow> SOCKET \<Rightarrow> packet list \<Rightarrow> (node, unit) mon" where
  "clientLoop A fd [] = returnM ()"
| "clientLoop A fd (p # ps) =
     bindM (getsM listening) (\<lambda>on.
       if \<not> on then returnM ()
       else bindM (dispatchPacket A fd p) (\<lambda>ok. if ok then clientLoop A fd ps else returnM ()))"

definition handleClient :: "argon2 \<Rightarrow> SOCKET \<Rightarrow> packet list \<Rightarrow> (node, unit) mon" where
  "handleClient A fd incoming = thenM (clientLoop A fd incoming) (releaseClient fd)"

text \<open>The result says whether a handler is spawned.\<close>

definition spawnClientHandler :: "SOCKET \<Rightarrow> (node, bool) mon" where
  "spawnClientHandler fd =
     bindM (getsM listening) (\<lambda>on.
       if on then returnM True
       else thenM (closeClient fd) (thenM (removeSession fd) (returnM False)))"

text \<open>One turn of \<open>acceptLoop\<close>.\<close>

definition acceptClient :: "SOCKET \<Rightarrow> (node, bool) mon" where
  "acceptClient fd =
     bindM (openSession fd) (\<lambda>ok. if \<not> ok then returnM False else spawnClientHandler fd)"

definition startListening :: "bool \<Rightarrow> (node, bool) mon" where
  "startListening listen_ok =
     bindM (getsM listening) (\<lambda>on.
       if on then returnM False
       else if \<not> listen_ok then returnM False
       else thenM (modifyM (\<lambda>n. n\<lparr>listening := True\<rparr>)) (returnM True))"

text \<open>The handlers of the closed sockets leave their loops and release their sessions; \<open>join\<close>
  waits for them.\<close>

definition joinClientThreads :: "SOCKET list \<Rightarrow> (node, unit) mon" where
  "joinClientThreads fds = forM fds releaseClient"

definition stopListening :: "(node, unit) mon" where
  "stopListening =
     bindM (getsM (\<lambda>n. (listening n, map (\<lambda>(_, s). cs_socket s) (sessions n)))) (\<lambda>(on, fds).
       thenM (modifyM (\<lambda>n. n\<lparr>listening := False\<rparr>))
         (if \<not> on then returnM ()
          else thenM (forM fds closeClient) (joinClientThreads fds)))"

section \<open>Heartbeat\<close>

text \<open>\<open>pingOnce\<close> over the snapshot of the session table, with the worker not stopped meanwhile.\<close>

definition pingSession :: "packet \<Rightarrow> SOCKET \<Rightarrow> (node, unit) mon" where
  "pingSession pkt fd =
     bindM (sessionM fd) (\<lambda>session.
     bindM (getsM n_steady) (\<lambda>now.
       if cs_closed session then returnM ()
       else
         bindM (if isAlive now session then sendPacket (cs_socket session) pkt else returnM False) (\<lambda>ok.
           whenM (\<not> ok) (closeClient (cs_socket session)))))"

definition pingOnce :: "(node, unit) mon" where
  "pingOnce =
     bindM (getsM (\<lambda>n. map fst (sessions n))) (\<lambda>fds.
     bindM (packetM ''server'' '''' HEARTBEAT '''' ''ping'' 0) (\<lambda>pkt.
       forM fds (pingSession pkt)))"

end
