(* ===== verification/Node_Safety.thy ===== *)
theory Node_Safety
  imports Event_Safety Server_Node Machine
begin

text \<open>
  Every operation of a server node keeps it consistent and throws nothing while the database works:
  opening and removing sessions, every packet a client can send, the heartbeat. A \<open>node_event\<close> is one
  accepted client, one packet, one closed connection, one timer round and so on; the node is a
  \<open>total_machine\<close> over these events.
\<close>



section \<open>Processing packets\<close>

lemma safe_rumor [node_safe]: "safe (node_inv F {} {}) (rumor e)"
  unfolding rumor_def by (intro safe_intros node_safe)

lemma safe_events [node_safe]:
  "safe (node_inv F {} {}) (makeEventId k u)" "safe (node_inv F {} {}) (rumorEvent k u c f r)"
proof -
  show m: "safe (node_inv F {} {}) (makeEventId k u)" for k u
    unfolding makeEventId_def by (intro safe_intros safe_modifyM) simp
  show "safe (node_inv F {} {}) (rumorEvent k u c f r)"
    unfolding rumorEvent_def by (intro safe_intros node_safe m)
qed

lemma safe_rumors [node_safe]:
  "safe (node_inv F {} {}) (rumorPresence k u)" "safe (node_inv F {} {}) (rumorUserCreated u h e)"
  "safe (node_inv F {} {}) (rumorRoomJoin u r q)" "safe (node_inv F {} {}) (rumorMessage u c r)"
  "safe (node_inv F {} {}) (rumorRoomCreated u R)" "safe (node_inv F {} {}) (rumorAclAdd u r b)"
  "safe (node_inv F {} {}) (rumorRoomKick u r)" "safe (node_inv F {} {}) (rumorRoomDeleted u r)"
  unfolding rumorPresence_def rumorUserCreated_def rumorRoomJoin_def rumorMessage_def nowText_def
    rumorRoomCreated_def rumorAclAdd_def rumorRoomKick_def rumorRoomDeleted_def
  by (intro safe_intros node_safe)+

lemma safe_processor_helpers [node_safe]:
  "safe (node_inv F X Y) encodeRoomDirectory" "safe (node_inv F X Y) (pushRoomDirectory k)"
  "safe (node_inv F X Y) (refreshServerDirectory fd)" "safe (node_inv F X Y) (cm_isNodeLive nd)"
proof -
  show e: "safe (node_inv F X Y) encodeRoomDirectory"
    unfolding encodeRoomDirectory_def by (intro safe_intros node_safe)
  show "safe (node_inv F X Y) (pushRoomDirectory k)"
    unfolding pushRoomDirectory_def by (intro safe_intros node_safe e)
  show "safe (node_inv F X Y) (refreshServerDirectory fd)" "safe (node_inv F X Y) (cm_isNodeLive nd)"
    unfolding refreshServerDirectory_def cm_isNodeLive_def by (intro safe_intros node_safe)+
qed

lemma safe_saltM [node_safe]: "safe (node_inv F X Y) (saltM k)"
  by (auto intro!: safeI simp: saltM_def)

lemma safe_ownerLiveM [node_safe]: "safe (node_inv F X Y) (ownerLiveM u o1)"
  unfolding ownerLiveM_def by (intro safe_intros node_safe)

lemma safe_resumeRoom [node_safe]: "fd \<in> F \<Longrightarrow> safe (node_inv F {} {}) (resumeRoom u fd r)"
  unfolding resumeRoom_def by (intro safe_intros node_safe)

lemma safe_mays [node_safe]:
  "safe (node_inv F X Y) (mayJoin s r)" "safe (node_inv F X Y) (mayManage s r)"
  unfolding mayJoin_def mayManage_def by (intro safe_intros node_safe)+

lemma safe_evictTarget [node_safe]: "safe (node_inv F {} {}) (evictTarget u r)"
proof -
  have key: "findSessionByUsername n u = Some fd \<Longrightarrow> fd \<in> F \<union> fst ` set (sessions n)" for n fd F
    by (auto simp: findSessionByUsername_def find_Some_iff split: option.splits)
      (metis fst_conv image_eqI nth_mem)
  show ?thesis
    unfolding evictTarget_def by (rule safe_snapshot) (intro safe_intros node_safe key)
qed

lemma safe_logins [node_safe]:
  assumes "fd \<in> F"
  shows "safe (node_inv F {} {}) (handleLogin A p fd q)" "safe (node_inv F {} {}) (handleReconnect p fd q)"
    "safe (node_inv F {} {}) (handleRegister A p fd q)"
  unfolding handleLogin_def handleReconnect_def handleRegister_def Let_def
  by (intro safe_intros safe_catchM keeps_intros node_db_keeps node_safe [THEN safe_keeps] assms)+

lemma safe_handleLogout [node_safe]: assumes "fd \<in> F" shows "safe (node_inv F {} {}) (handleLogout fd q)"
proof -
  have split: "handleLogout fd q = bindM (sessionM fd) (\<lambda>s. thenM (bindM (sessionM fd) (leaveAll fd))
     (thenM (thenM (setAuthenticated fd False) (bindM anonymousUserM (setUser fd)))
     (thenM (joinRoom (ro_name LOBBY) fd)
     (thenM (whenM (cs_authenticated s \<and> u_username (cs_user s) \<noteq> []) (rumorPresence ''LOGOUT'' (u_username (cs_user s))))
       (returnM (reply q SUCCESS ''logged out''))))))"
    by (auto simp: fun_eq_iff handleLogout_def sessionM_def Let_def mon_simps split: prod.split sum.split)
  have "safe (node_inv F {} {}) (thenM (bindM (sessionM fd) (leaveAll fd))
     (thenM (thenM (setAuthenticated fd False) (bindM anonymousUserM (setUser fd)))
     (thenM (joinRoom (ro_name LOBBY) fd)
     (thenM (whenM (cs_authenticated s \<and> u_username (cs_user s) \<noteq> []) (rumorPresence ''LOGOUT'' (u_username (cs_user s))))
       (returnM (reply q SUCCESS ''logged out''))))))" for s
    unfolding safe_def
    by (rule hoare_thenM [OF leaveAll_session [OF assms]])
      (intro hoare_relobby assms safe_intros node_safe)
  then show ?thesis unfolding split by (intro safe_bindM node_safe)
qed

lemma safe_room_handlers [node_safe]:
  assumes "fd \<in> F"
  shows "safe (node_inv F {} {}) (handleMessage p fd q)" "safe (node_inv F {} {}) (handleRoomJoin p fd q)"
    "safe (node_inv F {} {}) (handleRoomLeave fd q)" "safe (node_inv F {} {}) (handleRoomCreate p fd q)"
    "safe (node_inv F {} {}) (handleRoomInvite p fd q)" "safe (node_inv F {} {}) (handleRoomDelete p fd q)"
    "safe (node_inv F {} {}) (handleRoomKick p fd q)" "safe (node_inv F {} {}) (handleLoadHistory p fd q)"
    "safe (node_inv F {} {}) (handleUpdateUser A p fd q)"
  unfolding handleMessage_def handleRoomJoin_def handleRoomLeave_def handleRoomCreate_def handleRoomInvite_def
    handleRoomDelete_def handleRoomKick_def handleLoadHistory_def handleUpdateUser_def Let_def
  by (intro safe_intros safe_catchM keeps_intros node_db_keeps node_safe node_safe [THEN safe_keeps] assms)+

lemma safe_processPacket [node_safe]: "fd \<in> F \<Longrightarrow> safe (node_inv F {} {}) (processPacket A p fd)"
  by (cases "p_type p"; simp only: processPacket_def Let_def packetType.case; intro safe_intros node_safe)

section \<open>Opening and closing sessions\<close>

lemma removed_inv:
  assumes inv: "node_inv F {} {} n" and s: "map_of (sessions n) fd = Some s"
  shows "node_inv (F - {fd}) {} {} (n\<lparr>webSockets := w,
     members := drop_member fd (ro_name (cs_room s)) (members n), sessions := AList.delete fd (sessions n)\<rparr>)" (is "node_inv _ {} {} ?n")
proof -
  have sess: "map_of (sessions ?n) k = (if k = fd then None else map_of (sessions n) k)" for k
    by (simp add: AList.delete_conv')
  have here: "fd \<in> set (members_of n r) \<Longrightarrow> r = ro_name (cs_room s)" for r
    using inv s placed_room [of "{}" "{}" n fd r s] by (simp add: node_inv_def eff_room_def)
  have mem: "set (members_of ?n r) = set (members_of n r) - {fd}" for r
    using here [of r] by (auto simp: members_of_mem mem_drop)
  have dm: "distinct (members_of ?n r)" for r
    using inv by (auto simp: members_of_mem mem_drop node_inv_def placed_def distinct_removeAll)
  have pl: "placed {} {} n" and so: "sessions_ok {} n" using inv by (simp_all add: node_inv_def)
  have "placed {} {} ?n"
    unfolding placed_def sess mem
  proof (intro conjI allI impI)
    show "distinct (map fst (members ?n))" using pl by (simp add: placed_def)
    show "distinct (members_of ?n r)" for r by (rule dm)
    fix k r
    assume "k \<in> set (members_of n r) - {fd}"
    then show "\<exists>s. (if k = fd then None else map_of (sessions n) k) = Some s \<and> ro_name (eff_room {} k s) = r"
      using pl unfolding placed_def by auto
  next
    fix k s'
    assume "(if k = fd then None else map_of (sessions n) k) = Some s'"
    then show "k \<in> set (members_of n (ro_name (eff_room {} k s'))) - {fd}"
      using pl unfolding placed_def by (auto split: if_splits)
  qed
  moreover have "sessions_ok {} ?n"
    using so unfolding sessions_ok_def sess by (auto simp: AList.distinct_delete split: if_splits)
  moreover have "F - {fd} \<subseteq> dom (map_of (sessions ?n))"
    using inv unfolding sess by (auto simp: node_inv_def dom_def)
  ultimately show ?thesis using inv by (simp add: node_inv_def rooms_known_def known_ids_def)
qed

lemma map_entry_absent: "map_of xs k = None \<Longrightarrow> AList.map_entry k f xs = xs"
  by (induction xs) (auto split: if_splits)

lemma safe_dropLogout [node_safe]: "safe (node_inv F {} {}) (dropLogout u)"
  unfolding dropLogout_def Let_def
  by (intro safe_intros safe_catchM keeps_intros safe_modifyM node_safe node_db_keeps) simp

lemma removeSession_inv: "hoare (node_inv F {} {}) (removeSession fd) (\<lambda>_. node_inv (F - {fd}) {} {})"
proof (rule hoareI)
  fix n
  assume inv: "node_inv F {} {} n"
  show "\<exists>a t. removeSession fd n = (Inr a, t) \<and> node_inv (F - {fd}) {} {} t"
  proof (cases "map_of (sessions n) fd")
    case None
    then show ?thesis
      using node_inv_weaken [OF inv, of "F - {fd}"] by (auto simp: removeSession_def bindM_run)
  next
    case (Some s)
    let ?n = "n\<lparr>webSockets := removeAll fd (webSockets n),
       members := drop_member fd (ro_name (cs_room s)) (members n), sessions := AList.delete fd (sessions n)\<rparr>"
    let ?rest = "thenM (whenM (cs_authenticated s \<and> u_username (cs_user s) \<noteq> [])
        (catchM (dbM (clearAllMembership (u_username (cs_user s)))) (\<lambda>_. returnM ())))
        (if \<not> cs_authenticated s \<or> u_username (cs_user s) = [] then returnM ()
         else dropLogout (u_username (cs_user s)))"
    have "AList.map_entry fd f (AList.delete fd (sessions n)) = AList.delete fd (sessions n)" for f
      by (simp add: map_entry_absent AList.delete_conv')
    then have "removeSession fd n = ?rest ?n"
      using Some by (simp add: removeSession_def bindM_run thenM_run leaveAll_def removeSocketLocked_run setRoom_run)
    moreover have "safe (node_inv (F - {fd}) {} {}) ?rest"
      by (intro safe_intros safe_catchM node_db_keeps node_safe)
    ultimately show ?thesis using removed_inv [OF inv Some] safeD by fastforce
  qed
qed

lemma releaseClient_inv: "hoare (node_inv F {} {}) (releaseClient fd) (\<lambda>_. node_inv (F - {fd}) {} {})"
  unfolding releaseClient_def
  by (rule hoare_thenM [OF _ removeSession_inv]) (use safe_closeClient in \<open>simp add: safe_def\<close>)

lemma added_inv:
  assumes inv: "node_inv F {} {} n" and fresh: "map_of (sessions n) fd = None"
  shows "node_inv (insert fd F) {fd} {} (n\<lparr>sessions := AList.update fd (mkSession fd u LOBBY t) (sessions n)\<rparr>)"
    (is "node_inv _ _ _ ?n")
proof -
  have sess: "map_of (sessions ?n) k = (if k = fd then Some (mkSession fd u LOBBY t) else map_of (sessions n) k)" for k
    by (simp add: AList.update_conv')
  have pl: "placed {} {} n" and so: "sessions_ok {} n" and rk: "rooms_known n" using inv by (simp_all add: node_inv_def)
  have no: "fd \<notin> set (members_of n r)" for r using pl fresh by (fastforce simp: placed_def)
  have "placed {fd} {} ?n"
    unfolding placed_def sess
  proof (intro conjI allI impI)
    show "distinct (map fst (members ?n))" "distinct (members_of ?n r)" for r using pl by (auto simp: placed_def)
    fix k r
    assume "k \<in> set (members_of ?n r)"
    then have "k \<in> set (members_of n r)" by simp
    moreover from this have "k \<noteq> fd" using no by blast
    ultimately show "\<exists>s. (if k = fd then Some (mkSession fd u LOBBY t) else map_of (sessions n) k) = Some s \<and>
        ro_name (eff_room {} k s) = r"
      using pl unfolding placed_def by auto
  next
    fix k s
    assume "(if k = fd then Some (mkSession fd u LOBBY t) else map_of (sessions n) k) = Some s" "k \<notin> {fd}"
    then show "k \<in> set (members_of ?n (ro_name (eff_room {} k s)))" using pl by (auto simp: placed_def)
  qed
  moreover have "sessions_ok {} ?n"
    using so rk unfolding sessions_ok_def sess
    by (auto simp: AList.distinct_update mkSession_def eff_room_def rooms_known_def split: if_splits)
  moreover have "insert fd F \<subseteq> dom (map_of (sessions ?n))"
    using inv unfolding sess by (auto simp: node_inv_def dom_def)
  ultimately show ?thesis using inv by (simp add: node_inv_def rooms_known_def)
qed

text \<open>Both failure exits of \<open>openSession\<close> and of the accept loop.\<close>

lemma hoare_reject:
  "hoare (node_inv (insert fd F) {} {}) (thenM (closeClient fd) (thenM (removeSession fd) (returnM b)))
     (\<lambda>_. node_inv (F - {fd}) {} {})"
proof (rule hoare_thenM)
  show "hoare (node_inv (insert fd F) {} {}) (closeClient fd) (\<lambda>_. node_inv (insert fd F) {} {})"
    using safe_closeClient by (simp add: safe_def)
  have "hoare (node_inv (insert fd F) {} {}) (removeSession fd) (\<lambda>_. node_inv (F - {fd}) {} {})"
    using removeSession_inv [of "insert fd F" fd] by simp
  then show "hoare (node_inv (insert fd F) {} {}) (thenM (removeSession fd) (returnM b)) (\<lambda>_. node_inv (F - {fd}) {} {})"
    by (rule hoare_thenM) (rule hoare_returnM)
qed

lemma hoare_if: "(b \<Longrightarrow> hoare P m Q) \<Longrightarrow> (\<not> b \<Longrightarrow> hoare P k Q) \<Longrightarrow> hoare P (if b then m else k) Q"
  by simp

lemma hoare_safe_bind: "safe P m \<Longrightarrow> (\<And>a. hoare P (f a) Q) \<Longrightarrow> hoare P (bindM m f) Q"
  unfolding safe_def by (rule hoare_bindM)

lemma hoare_safe_then: "safe P m \<Longrightarrow> hoare P k Q \<Longrightarrow> hoare P (thenM m k) Q"
  unfolding safe_def by (rule hoare_thenM)

lemma openSession_inv:
  "hoare (\<lambda>n. node_inv F {} {} n \<and> map_of (sessions n) fd = None) (openSession fd)
     (\<lambda>_. node_inv (F - {fd}) {} {})"
proof -
  let ?P = "node_inv (insert fd F) {} {}" and ?Q = "\<lambda>_::bool. node_inv (F - {fd}) {} {}"
  have finish: "hoare ?P (thenM (whenM g (pushServerDirectory body fd)) (returnM True)) ?Q" for g body
    by (rule hoare_safe_then, intro safe_intros node_safe, rule hoare_returnM) (auto elim: node_inv_weaken)
  have greet: "hoare ?P (bindM rm_listRooms (\<lambda>rooms.
       bindM (sessionM fd) (\<lambda>s.
       bindM (packetM ''server'' (user_serialize (cs_user s)) ROOM_LIST (ro_name LOBBY)
                (serializeList (if rooms = [] then [LOBBY, GENERAL] else rooms)) 0) (\<lambda>welcome.
       bindM (sendPacket fd welcome) (\<lambda>sent.
       if \<not> sent then thenM (closeClient fd) (thenM (removeSession fd) (returnM False))
       else
         bindM (getsM (\<lambda>n. (gossip_wired n, buildServerDirectory n))) (\<lambda>(g, body).
           thenM (whenM g (pushServerDirectory body fd)) (returnM True))))))) ?Q"
    by (intro hoare_safe_bind hoare_if hoare_reject safe_intros node_safe) (auto simp only: prod.case split: prod.split intro: finish)
  have place: "hoare (node_inv (insert fd F) {fd} {}) (joinRoom (ro_name LOBBY) fd) (\<lambda>_. ?P)"
    using joinRoom_lobby [of fd "insert fd F" "{fd}"] by simp
  have add: "hoare (\<lambda>n. node_inv F {} {} n \<and> map_of (sessions n) fd = None) (addSession fd (mkSession fd u LOBBY t))
      (\<lambda>_. node_inv (insert fd F) {fd} {})" for u t
    unfolding addSession_def by (rule hoare_modifyM) (simp add: added_inv)
  have quiet: "safe (\<lambda>n. node_inv F {} {} n \<and> map_of (sessions n) fd = None) anonymousUserM"
    by (auto intro!: safeI simp: anonymousUserM_def drawM_def bindM_run)
  show ?thesis
    unfolding openSession_def Let_def
    by (intro hoare_safe_bind quiet safe_getsM hoare_thenM [OF add] hoare_bindM [OF place] hoare_if hoare_reject greet)
qed

section \<open>Connections and timers\<close>

lemma node_inv_focus:
  assumes "node_inv F {} {} n" and "map_of (sessions n) fd \<noteq> None"
  shows "node_inv (insert fd F) {} {} n"
  using assms by (auto simp: node_inv_def)

lemma safe_dispatchPacket [node_safe]: "safe (node_inv F {} {}) (dispatchPacket A fd p)"
proof (rule safeI)
  fix n
  assume inv: "node_inv F {} {} n"
  define rest where "rest = thenM (touch fd)
         (if p_type p = HEARTBEAT \<and> p_message p \<noteq> ''ping'' then returnM True
          else bindM (processPacket A p fd) (\<lambda>response. sendPacket fd response))"
  show "\<exists>a t. dispatchPacket A fd p n = (Inr a, t) \<and> node_inv F {} {} t"
  proof (cases "map_of (sessions n) fd = None")
    case True
    then show ?thesis using inv by (auto simp: dispatchPacket_def bindM_run)
  next
    case False
    have safe: "safe (node_inv (insert fd F) {} {}) rest" unfolding rest_def by (intro safe_intros node_safe) simp
    obtain a t where "rest n = (Inr a, t)" "node_inv (insert fd F) {} {} t"
      using safeD [OF safe node_inv_focus [OF inv False]] by blast
    moreover have "dispatchPacket A fd p n = rest n"
      using False by (auto simp: dispatchPacket_def bindM_run rest_def)
    ultimately show ?thesis using node_inv_weaken [of "insert fd F" "{}" "{}" t F "{}"] by auto
  qed
qed

lemma safe_clientLoop [node_safe]: "safe (node_inv F {} {}) (clientLoop A fd ps)"
proof (induction ps)
  case Nil
  show ?case unfolding clientLoop.simps by (rule safe_returnM)
next
  case (Cons p ps)
  show ?case unfolding clientLoop.simps by (intro safe_intros node_safe Cons)
qed

lemma safe_pingOnce [node_safe]: "safe (node_inv F {} {}) pingOnce"
  unfolding pingOnce_def pingSession_def by (intro safe_intros node_safe)

lemma acceptClient_inv:
  "hoare (\<lambda>n. node_ok n \<and> map_of (sessions n) fd = None) (acceptClient fd) (\<lambda>_. node_ok)"
proof -
  have reject: "hoare node_ok (thenM (closeClient fd) (thenM (removeSession fd) (returnM False))) (\<lambda>_. node_ok)"
    using removeSession_inv [of "{}" fd] safe_closeClient [of "{}" "{}" "{}" fd]
    by (auto simp: safe_def intro!: hoare_thenM hoare_returnM)
  have "hoare (\<lambda>n. node_ok n \<and> map_of (sessions n) fd = None) (openSession fd) (\<lambda>_. node_ok)"
    using openSession_inv [of "{}" fd] by simp
  then show ?thesis
    unfolding acceptClient_def spawnClientHandler_def
    by (rule hoare_bindM) (intro hoare_if hoare_safe_bind reject safe_intros hoare_returnM; simp)
qed

section \<open>Histories of a node\<close>

datatype node_event =
    Accept SOCKET
  | ClientPacket SOCKET packet
  | Release SOCKET
  | BrowserSocket SOCKET
  | HeartbeatRound
  | PeerAccept SOCKET
  | PeerPacket SOCKET bool packet
  | PeerGone SOCKET
  | DialRound "string \<Rightarrow> u16 \<Rightarrow> SOCKET"
  | AntiEntropyRound
  | Environment int int "nat list" "SOCKET list"

text \<open>The environment of a node. Two things it does not do in these histories: SQLite fails no statement (no
  event changes \<open>db_faults\<close>, which is empty after a start; what a failure leaves behind is stated where
  it matters), and the operating system gives no new connection the number of a socket whose session is
  still in the table. The second is an assumption: \<open>closeClient\<close> frees the number, and the session
  leaves the table only when its handler thread has noticed.\<close>

fun enabled :: "node_event \<Rightarrow> node \<Rightarrow> bool" where
  "enabled (Accept fd) n \<longleftrightarrow> map_of (sessions n) fd = None"
| "enabled _ n \<longleftrightarrow> True"

fun node_exec :: "argon2 \<Rightarrow> node_event \<Rightarrow> (node, unit) mon" where
  "node_exec A (Accept fd) = ignoreM (acceptClient fd)"
| "node_exec A (ClientPacket fd p) = ignoreM (dispatchPacket A fd p)"
| "node_exec A (Release fd) = releaseClient fd"
| "node_exec A (BrowserSocket fd) = markWebSocket fd"
| "node_exec A HeartbeatRound = pingOnce"
| "node_exec A (PeerAccept fd) = acceptPeer fd"
| "node_exec A (PeerPacket fd reg p) = ignoreM (peerPacket fd reg p)"
| "node_exec A (PeerGone fd) = handlePeer fd []"
| "node_exec A (DialRound connect) = bindM (getsM (\<lambda>n. PEERS (n_cfg n))) (dialRound connect)"
| "node_exec A AntiEntropyRound = antiEntropyRound"
| "node_exec A (Environment now steady draws broken) =
     modifyM (\<lambda>n. n\<lparr>n_now := now, n_steady := steady, n_draws := draws, n_broken := broken\<rparr>)"

lemma node_inv_env [simp]: "node_inv F X Y (n\<lparr>n_now := a, n_steady := b, n_draws := c, n_broken := d\<rparr>) = node_inv F X Y n"
  by (rule node_inv_cong) simp_all

lemma hoare_at: "safe I m \<Longrightarrow> I n \<Longrightarrow> hoare (\<lambda>x. x = n) m (\<lambda>_. I)"
  by (simp add: safe_def hoare_def)

lemma node_exec_ok:
  assumes ok: "node_ok n" and en: "enabled ev n"
  shows "\<exists>n'. node_exec A ev n = (Inr (), n') \<and> node_ok n'"
proof -
  have "hoare (\<lambda>m. m = n) (node_exec A ev) (\<lambda>_. node_ok)"
  proof (cases ev)
    case (Accept fd)
    have "hoare (\<lambda>n. node_ok n \<and> map_of (sessions n) fd = None) (ignoreM (acceptClient fd)) (\<lambda>_. node_ok)"
      unfolding ignoreM_def by (rule hoare_thenM [OF acceptClient_inv]) (rule hoare_returnM)
    then show ?thesis unfolding Accept node_exec.simps by (rule hoare_weaken) (use ok en Accept in auto)
  next
    case (Release fd)
    have "hoare node_ok (releaseClient fd) (\<lambda>_. node_ok)" using releaseClient_inv [of "{}" fd] by simp
    then show ?thesis unfolding Release node_exec.simps by (rule hoare_weaken) (use ok in auto)
  next
    case (Environment a b c d)
    show ?thesis
      unfolding Environment node_exec.simps by (rule hoare_at [where I = node_ok and n = n, OF _ ok], rule safe_modifyM) simp
  qed (simp only: node_exec.simps, intro hoare_at [where I = node_ok and n = n, OF _ ok] safe_ignoreM safe_intros node_safe)+
  then show ?thesis by (auto dest: hoareD)
qed

interpretation node: total_machine enabled "node_exec A" node_ok
proof
  fix n e
  assume "node_ok n" and "enabled e n"
  then obtain n' where "node_exec A e n = (Inr (), n')" "node_ok n'" using node_exec_ok by blast
  then show "node_ok (snd (node_exec A e n))" and "\<exists>n'. node_exec A e n = (Inr (), n')" by simp_all
qed

section \<open>Start of a node\<close>

text \<open>The state of a process on a new database file, with nothing received yet.\<close>

definition fresh_node :: "config \<Rightarrow> node" where
  "fresh_node c =
     \<lparr>n_cfg = c, n_db = empty_db, n_now = 0, n_steady = 0, n_draws = [], n_broken = [], n_sent = [],
      n_closedFds = [], knownRooms = [], members = [], sessions = [], webSockets = [], listening = True,
      gossip_wired = True, g_stopped = False, outboundAddrs = [], clientPeers = [], seenEvents = [],
      recentEventIds = [], eventLog = [], openPeerSockets = [], nextPresenceSeq = 0, dropLogoutSeq = 0\<rparr>"

definition boot :: "(node, unit) mon" where
  "boot = thenM (dbM (open_database None)) room_manager_start"

definition booted :: "config \<Rightarrow> node" where
  "booted c = snd (boot (fresh_node c))"

lemma listed_rooms:
  "db_listRooms ((sql_init empty_db)\<lparr>fk_on := True\<rparr>) = (Inr [LOBBY, GENERAL], (sql_init empty_db)\<lparr>fk_on := True\<rparr>)"
proof -
  have "c_str ''Lobby'' = ''Lobby''" "c_str ''PUBLIC'' = ''PUBLIC''" "c_str ''General'' = ''General''"
    "c_str ''Other'' = ''Other''" by (simp_all add: c_str_def)
  then show ?thesis
    by (simp add: db_listRooms_def query_def bindM_run sql_list_rooms_def seeded_rooms room_cells_def
        lobby_row_def general_row_def roomFromRow_def std_stoi_small liftE_def
        stringToRoomType_def typeMap_def stringToPrivacy_def privacyMap_def LOBBY_def GENERAL_def)
qed

lemma booted_eq:
  "booted c = (fresh_node c)\<lparr>n_db := (sql_init empty_db)\<lparr>fk_on := True\<rparr>,
     knownRooms := [(ro_name LOBBY, LOBBY), (ro_name GENERAL, GENERAL)]\<rparr>"
proof -
  have "n_db (fresh_node c) = empty_db" "knownRooms (fresh_node c) = []" by (simp_all add: fresh_node_def)
  moreover have "ro_name LOBBY \<noteq> ro_name GENERAL" by (simp add: LOBBY_def GENERAL_def mkRoom_def)
  ultimately show ?thesis
    by (simp add: booted_def boot_def room_manager_start_def bindM_run thenM_run dbM_def zoomM_def seeded_db listed_rooms)
qed

lemma booted_ok: "node_ok (booted c)"
  by (simp add: booted_eq node_inv_defs known_ids_def db_live_def rooms_kept_def seeded_ok seeded_rooms
      members_of_def fresh_node_def LOBBY_def GENERAL_def mkRoom_def lobby_row_def general_row_def)

end
