(* ===== verification/Event_Log.thy ===== *)
theory Event_Log
  imports Node_Safety
begin

text \<open>
  The log of recent gossip events: \<open>seenEvents\<close>, \<open>recentEventIds\<close> and \<open>eventLog\<close> always hold the same
  ids, each once and at most \<open>MAX_EVENT_LOG\<close> of them, and an id is that of the packet stored under it.
  Only \<open>noteEvent\<close> writes them. The locale \<open>log_frame\<close> says so once for everything that depends on
  these three fields only; it is interpreted for the invariant and for the log itself. The collection
  \<open>log_keeps\<close> holds one rule per operation.
\<close>

definition log_inv :: "node \<Rightarrow> bool" where
  "log_inv n \<longleftrightarrow> length (recentEventIds n) \<le> MAX_EVENT_LOG \<and> distinct (recentEventIds n) \<and>
     set (seenEvents n) = set (recentEventIds n) \<and> fst ` set (eventLog n) = set (recentEventIds n) \<and>
     distinct (map fst (eventLog n)) \<and> (\<forall>(i, p)\<in>set (eventLog n). i = eventIdFromPacket p \<and> i \<noteq> [])"

definition log_of :: "node \<Rightarrow> string list \<times> string list \<times> (string \<times> packet) list" where
  "log_of n = (seenEvents n, recentEventIds n, eventLog n)"

named_theorems log_keeps \<open>operations that keep the event log\<close>

section \<open>Eviction\<close>

lemma evict_small: "length ids \<le> MAX_EVENT_LOG \<Longrightarrow> evict ids lg sn = (ids, lg, sn)"
  by (cases ids) auto

lemma evict_spec:
  assumes "evict ids lg sn = (ids', lg', sn')" and "distinct ids" and "set sn = set ids"
    and "fst ` set lg = set ids" and "distinct (map fst lg)"
  shows "(\<exists>k. ids' = drop k ids) \<and> length ids' \<le> MAX_EVENT_LOG \<and> distinct ids' \<and> set sn' = set ids' \<and>
     fst ` set lg' = set ids' \<and> distinct (map fst lg') \<and>
     (\<forall>i\<in>set ids'. map_of lg' i = map_of lg i) \<and> (length ids \<le> MAX_EVENT_LOG \<longrightarrow> ids' = ids)"
  using assms
proof (induction ids lg sn rule: evict.induct)
  case (1 lg sn)
  then show ?case by (auto simp: MAX_EVENT_LOG_def)
next
  case (2 old ids lg sn)
  show ?case
  proof (cases "length (old # ids) > MAX_EVENT_LOG")
    case False
    then show ?thesis using 2 by (auto intro: exI [of _ 0])
  next
    case True
    have run: "evict ids (AList.delete old lg) (removeAll old sn) = (ids', lg', sn')" using 2(2) True by simp
    have "set (map fst (AList.delete old lg)) = set (map fst lg) - {old}" by (simp only: AList.delete_keys set_removeAll)
    then have keys: "fst ` set (AList.delete old lg) = set ids" "distinct (map fst (AList.delete old lg))"
      using 2(3,5,6) by (auto simp: AList.distinct_delete)
    have seen: "set (removeAll old sn) = set ids" using 2 by auto
    note IH = 2(1) [OF True run _ seen keys]
    have "distinct ids" "old \<notin> set ids" using 2(3) by simp_all
    note r = IH [OF \<open>distinct ids\<close>]
    have "\<exists>k. ids' = drop k (old # ids)" using r by (metis drop_Suc_Cons)
    moreover have "map_of lg' i = map_of lg i" if i: "i \<in> set ids'" for i
    proof -
      have "i \<in> set ids" using r i by (metis in_set_dropD)
      then have "i \<noteq> old" using \<open>old \<notin> set ids\<close> by blast
      then show ?thesis using r i by (simp add: AList.delete_conv')
    qed
    ultimately show ?thesis using r True by auto
  qed
qed

lemma noteEvent_fresh:
  assumes inv: "log_inv n" and fresh: "i \<notin> set (seenEvents n)" and run: "noteEvent i p n = (Inr b, n')"
    and ident: "i = eventIdFromPacket p" "i \<noteq> []"
  shows "b \<and> log_inv n' \<and> i \<in> set (seenEvents n') \<and> map_of (eventLog n') i = Some p \<and>
    (length (recentEventIds n) < MAX_EVENT_LOG \<longrightarrow> recentEventIds n' = recentEventIds n @ [i])"
proof -
  obtain ids lg sn where ev: "evict (recentEventIds n @ [i]) (AList.update i p (eventLog n)) (seenEvents n @ [i]) = (ids, lg, sn)"
    by (metis prod_cases3)
  have n': "b" "n' = n\<lparr>seenEvents := seenEvents n @ [i], recentEventIds := ids, eventLog := lg, seenEvents := sn\<rparr>"
    using run fresh ev by (auto simp: noteEvent_def rememberEventLocked_def)
  have "i \<notin> set (recentEventIds n)" using inv fresh by (simp add: log_inv_def)
  then have spec: "(\<exists>k. ids = drop k (recentEventIds n @ [i])) \<and> length ids \<le> MAX_EVENT_LOG \<and> distinct ids \<and>
      set sn = set ids \<and> fst ` set lg = set ids \<and> distinct (map fst lg) \<and>
      (\<forall>j\<in>set ids. map_of lg j = map_of (AList.update i p (eventLog n)) j) \<and>
      (length (recentEventIds n @ [i]) \<le> MAX_EVENT_LOG \<longrightarrow> ids = recentEventIds n @ [i])"
    using inv by (intro evict_spec [OF ev]) (auto simp: log_inv_def AList.dom_update AList.distinct_update)
  have "i \<in> set ids"
  proof (cases "length (recentEventIds n) < MAX_EVENT_LOG")
    case True
    then show ?thesis using spec by auto
  next
    case False
    then obtain o1 os where os: "recentEventIds n = o1 # os" "length os < MAX_EVENT_LOG"
      using inv by (cases "recentEventIds n") (auto simp: log_inv_def MAX_EVENT_LOG_def)
    then have "ids = os @ [i]" using ev False by (auto simp: evict_small split: if_splits)
    then show ?thesis by simp
  qed
  moreover have "j = eventIdFromPacket q \<and> j \<noteq> []" if j: "(j, q) \<in> set lg" for j q
  proof -
    have "distinct (map fst lg)" "fst ` set lg = set ids" "\<forall>k\<in>set ids. map_of lg k = map_of (AList.update i p (eventLog n)) k"
      using spec by blast+
    moreover from this(1) j have "map_of lg j = Some q" by (rule map_of_is_SomeI)
    moreover have "j \<in> fst ` set lg" using j by (metis fst_conv imageI)
    ultimately have "map_of (AList.update i p (eventLog n)) j = Some q" by metis
    then have "(j, q) = (i, p) \<or> (j, q) \<in> set (eventLog n)"
      by (auto simp: AList.update_conv' dest: map_of_SomeD split: if_splits)
    then show ?thesis using ident inv by (auto simp: log_inv_def)
  qed
  ultimately show ?thesis using spec n' by (auto simp: log_inv_def AList.update_conv')
qed

section \<open>Operations that leave the log alone\<close>

locale log_frame =
  fixes I :: "node \<Rightarrow> bool"
  assumes frame: "seenEvents n' = seenEvents n \<Longrightarrow> recentEventIds n' = recentEventIds n \<Longrightarrow>
    eventLog n' = eventLog n \<Longrightarrow> I n \<Longrightarrow> I n'"
begin

lemma keeps_log_modify:
  assumes "\<And>n. seenEvents (f n) = seenEvents n" and "\<And>n. recentEventIds (f n) = recentEventIds n"
    and "\<And>n. eventLog (f n) = eventLog n"
  shows "keeps I (modifyM f)"
  by (rule keeps_modifyM) (metis assms frame)

lemma keeps_log_small [log_keeps]:
  "keeps I (upd_session fd f)" "keeps I (dbM m)" "keeps I drawM" "keeps I (writeM fd w)"
  "keeps I (closeFd fd)" "keeps I (markWebSocket fd)" "keeps I (addSession fd s)"
  "keeps I (removeSocketLocked fd r)" "keeps I (insertSocket fd r)" "keeps I (saltM k)"
proof -
  show "keeps I (dbM m)"
    by (auto simp: keeps_def dbM_def zoomM_def split: prod.split elim!: frame [rotated 3])
  show "keeps I drawM" "keeps I (writeM fd w)" "keeps I (saltM k)"
    by (auto simp: keeps_def drawM_def writeM_def saltM_def elim!: frame [rotated 3])
  show "keeps I (removeSocketLocked fd r)" "keeps I (insertSocket fd r)"
    by (auto simp: keeps_def removeSocketLocked_run insertSocket_run elim!: frame [rotated 3])
qed (simp_all add: upd_session_def closeFd_def markWebSocket_def addSession_def keeps_log_modify)

lemma keeps_log_sessions [log_keeps]:
  "keeps I (setUser fd u)" "keeps I (setRoom fd r)" "keeps I (setAuthenticated fd b)"
  "keeps I (touch fd)" "keeps I (sessionM fd)" "keeps I (packetM a1 a2 a3 a4 a5 a6)"
  "keeps I (hasSession u)" "keeps I (getRoom q)" "keeps I rm_listRooms"
  "keeps I anonymousUserM" "keeps I (sendPacket fd p)" "keeps I (sendTo fd p)"
  "keeps I (closeClient fd)" "keeps I (pushServerDirectory body o1)"
  unfolding setUser_def setRoom_def setAuthenticated_def touch_def sessionM_def packetM_def hasSession_def
    getRoom_def rm_listRooms_def anonymousUserM_def sendPacket_def sendTo_def closeClient_def markClosed_def
    pushServerDirectory_def
  by (intro keeps_intros log_keeps)+

lemma keeps_log_sendAll [log_keeps]: "keeps I (sendAll fds p k)" "keeps I (broadcast r p k)"
proof -
  show "keeps I (sendAll fds p k)" for fds
    by (induction fds) (auto simp only: sendAll.simps intro!: keeps_intros log_keeps)
  then show "keeps I (broadcast r p k)" unfolding broadcast_def by (intro keeps_intros)
qed

lemma keeps_log_broadcastAll [log_keeps]: "keeps I (broadcastAll p k)"
proof -
  have "keeps I (broadcastRooms rs p k)" for rs
    by (induction rs) (auto simp only: broadcastRooms.simps intro!: keeps_intros log_keeps)
  then show ?thesis unfolding broadcastAll_def by (intro keeps_intros)
qed

lemma keeps_log_rooms [log_keeps]:
  "keeps I (joinRoom r fd)" "keeps I (leaveAll fd s)" "keeps I (rm_createRoom R e)"
  "keeps I (moveToLobby i fd)" "keeps I (pushRoomList k)" "keeps I (pushLobbyTo fd)"
  "keeps I notifyServerDirectoryChanged"
  unfolding joinRoom_def leaveAll_def rm_createRoom_def moveToLobby_def pushRoomList_def pushLobbyTo_def
    notifyServerDirectoryChanged_def Let_def
  by (intro keeps_intros log_keeps keeps_log_modify; simp)+

lemma keeps_log_rm_deleteRoom [log_keeps]: "keeps I (rm_deleteRoom r)"
  unfolding rm_deleteRoom_def by (intro keeps_intros log_keeps keeps_log_modify; simp)

lemma keeps_log_demotions [log_keeps]: "keeps I (demoteSession u fd)" "keeps I (kickSession u r fd)"
  unfolding demoteSession_def kickSession_def by (intro keeps_intros log_keeps)+

lemma keeps_log_applies [log_keeps]:
  "keeps I (applyLogin u c)" "keeps I (applyReconnect u c)" "keeps I (applyLogout u)"
  "keeps I (applyUserCreated u c e)" "keeps I (applyRoomCreated r u c t)"
  "keeps I (applyAclAdd r u c)" "keeps I (applyRoomDeleted r)" "keeps I (applyRoomKick r u)"
  "keeps I (applyRoomJoin r u c t)" "keeps I (applyRoomLeave r u t)"
  "keeps I (applyMessage r i u c t)"
  unfolding applyLogin_def applyReconnect_def applyLogout_def applyUserCreated_def applyRoomCreated_def
    applyAclAdd_def applyRoomDeleted_def applyRoomKick_def applyRoomJoin_def applyRoomLeave_def
    applyMessage_def Let_def
  by (intro keeps_intros log_keeps)+

lemma keeps_log_applyEvent [log_keeps]: "keeps I (applyEvent e)"
  unfolding applyEvent_def Let_def by (intro keeps_intros log_keeps)

lemma keeps_log_gossip [log_keeps]:
  "keeps I (gossipSend fd p)" "keeps I (gossipSend_all fds p)"
  "keeps I (registerPeer fd nd h q)" "keeps I (removePeer fd)"
  "keeps I helloPacket" "keeps I (acceptPeer fd)" "keeps I antiEntropyRound"
proof -
  show s: "keeps I (gossipSend fd p)" for fd p unfolding gossipSend_def by (rule log_keeps)
  show all: "keeps I (gossipSend_all fds p)" for fds p unfolding gossipSend_all_def by (intro keeps_intros s)
  show "keeps I (registerPeer fd nd h q)"
    unfolding registerPeer_def by (intro keeps_intros keeps_log_modify; simp)
  show hello: "keeps I helloPacket" unfolding helloPacket_def by (intro keeps_intros log_keeps)
  show "keeps I (removePeer fd)" "keeps I (acceptPeer fd)"
    unfolding removePeer_def acceptPeer_def by (intro keeps_intros log_keeps keeps_log_modify s hello; simp)+
  show "keeps I antiEntropyRound"
    unfolding antiEntropyRound_def by (intro keeps_intros log_keeps all)
qed

lemma keeps_log_asks [log_keeps]:
  "keeps I (peerHello fd p)" "keeps I (peerDigest fd p)" "keeps I (peerPull fd p)"
  unfolding peerHello_def peerDigest_def peerPull_def Let_def by (intro keeps_intros log_keeps)+

lemma keeps_log_dialRound [log_keeps]: "keeps I (dialRound c as)"
proof (induction as)
  case (Cons a as)
  show ?case
    unfolding dialRound.simps Let_def by (intro keeps_intros log_keeps keeps_log_modify Cons; simp)
qed (simp only: dialRound.simps keeps_returnM)

end

lemma log_inv_frame:
  "seenEvents n' = seenEvents n \<Longrightarrow> recentEventIds n' = recentEventIds n \<Longrightarrow> eventLog n' = eventLog n \<Longrightarrow>
   log_inv n \<Longrightarrow> log_inv n'"
  by (simp add: log_inv_def)

interpretation logged: log_frame log_inv
  by unfold_locales (rule log_inv_frame)

interpretation same_log: log_frame "\<lambda>n. log_of n = L" for L
  by unfold_locales (simp add: log_of_def)

section \<open>Operations that write the log\<close>

lemma keeps_log_noteEvent:
  assumes ident: "i = eventIdFromPacket p" "i \<noteq> []"
  shows "keeps log_inv (noteEvent i p)"
proof (rule keepsI)
  fix n
  assume inv: "log_inv n"
  show "log_inv (snd (noteEvent i p n))"
  proof (cases "i \<in> set (seenEvents n)")
    case True
    then show ?thesis using inv by (simp add: noteEvent_def)
  next
    case False
    then obtain b n' where "noteEvent i p n = (Inr b, n')" by (auto simp: noteEvent_def)
    then show ?thesis using noteEvent_fresh [OF inv False _ ident] by simp
  qed
qed

lemma keeps_log_events_in [log_keeps]: "keeps log_inv (gossipRumor e)" "keeps log_inv (peerEvent p)"
proof -
  have "eventIdFromPacket (e\<lparr>p_type := t, p_sender := a, p_receiver := b\<rparr>) = eventIdFromPacket e" for t a b
    by (simp add: eventIdFromPacket_def)
  then have "eventIdFromPacket e \<noteq> [] \<Longrightarrow>
      keeps log_inv (noteEvent (eventIdFromPacket e) (e\<lparr>p_type := t, p_sender := a, p_receiver := b\<rparr>))" for t a b
    using keeps_log_noteEvent by metis
  then show "keeps log_inv (gossipRumor e)"
    unfolding gossipRumor_def Let_def by (intro keeps_intros log_keeps)
  show "keeps log_inv (peerEvent p)"
    unfolding peerEvent_def Let_def by (intro keeps_intros log_keeps keeps_log_noteEvent) simp_all
qed

lemma keeps_log_peerPacket [log_keeps]: "keeps log_inv (peerPacket fd reg p)"
  by (cases "p_type p"; simp only: peerPacket_def packetType.case; intro keeps_intros log_keeps)

lemma keeps_log_handlePeer [log_keeps]: "keeps log_inv (handlePeer fd ps)"
proof -
  have "keeps log_inv (peerLoop fd reg ps)" for reg
    by (induction ps arbitrary: reg) (auto simp only: peerLoop.simps intro!: keeps_intros log_keeps)
  then show ?thesis
    unfolding handlePeer_def by (intro keeps_intros log_keeps logged.keeps_log_modify; simp)
qed

lemma keeps_log_rumors [log_keeps]:
  "keeps log_inv (rumor e)" "keeps log_inv (rumorEvent k u c f r)" "keeps log_inv (dropLogout u)"
  unfolding rumor_def rumorEvent_def makeEventId_def dropLogout_def Let_def
  by (intro keeps_intros log_keeps logged.keeps_log_modify; simp)+

lemma keeps_log_connections [log_keeps]:
  "keeps log_inv (refreshServerDirectory fd)" "keeps log_inv (removeSession fd)"
  "keeps log_inv (cm_isNodeLive nd)"
  unfolding refreshServerDirectory_def removeSession_def cm_isNodeLive_def
  by (intro keeps_intros log_keeps logged.keeps_log_modify; simp)+

lemma keeps_log_events [log_keeps]:
  "keeps log_inv (rumorPresence k u)" "keeps log_inv (rumorUserCreated u h e)" "keeps log_inv (rumorRoomJoin u r q)"
  "keeps log_inv (rumorMessage u c r)" "keeps log_inv (rumorRoomCreated u R)" "keeps log_inv (rumorAclAdd u r b)"
  "keeps log_inv (rumorRoomKick u r)" "keeps log_inv (rumorRoomDeleted u r)" "keeps log_inv encodeRoomDirectory"
  "keeps log_inv (pushRoomDirectory sk)"
  unfolding rumorPresence_def rumorUserCreated_def rumorRoomJoin_def rumorMessage_def nowText_def
    rumorRoomCreated_def rumorAclAdd_def rumorRoomKick_def rumorRoomDeleted_def pushRoomDirectory_def
    encodeRoomDirectory_def
  by (intro keeps_intros log_keeps)+

lemma keeps_log_processPacket [log_keeps]: "keeps log_inv (processPacket A p fd)"
  by (cases "p_type p"; simp only: processPacket_def Let_def packetType.case;
      (unfold handleLogin_def handleReconnect_def handleRegister_def handleLogout_def handleMessage_def
        handleRoomJoin_def handleRoomLeave_def handleRoomCreate_def handleRoomInvite_def handleRoomDelete_def
        handleRoomKick_def handleLoadHistory_def handleUpdateUser_def mayJoin_def mayManage_def ownerLiveM_def
        resumeRoom_def evictTarget_def Let_def)?;
      intro keeps_intros keeps_liftE log_keeps)

lemma keeps_log_pings [log_keeps]: "keeps log_inv pingOnce" "keeps log_inv (dispatchPacket A fd p)"
  unfolding pingOnce_def pingSession_def dispatchPacket_def by (intro keeps_intros log_keeps)+

lemma keeps_log_accepts [log_keeps]: "keeps log_inv (acceptClient fd)" "keeps log_inv (releaseClient fd)"
  unfolding acceptClient_def spawnClientHandler_def openSession_def releaseClient_def Let_def by (intro keeps_intros log_keeps)+

lemma keeps_log_exec: "keeps log_inv (node_exec A ev)"
proof (cases ev)
  case (Environment a b c d)
  then show ?thesis by (simp add: logged.keeps_log_modify)
qed (simp only: node_exec.simps, intro keeps_ignoreM keeps_intros log_keeps)+

interpretation log: machine enabled "node_exec A" log_inv
  by unfold_locales (rule keepsD [OF keeps_log_exec])

lemma log_inv_booted: "log_inv (booted c)"
  by (simp add: booted_eq fresh_node_def log_inv_def)

end
