(* ===== verification/Store_Theorems.thy ===== *)
theory Store_Theorems
  imports Database_Live
begin

text \<open>
  What \<open>DatabaseManager\<close> promises its callers. The hypothesis \<open>db_live D d\<close> says that the stored data
  satisfy the schema and the database file is readable; \<open>new_db\<close> is the database of a first start.
\<close>

definition new_db :: db where
  "new_db = snd (open_database None empty_db)"

lemma new_db_live: "db_live {1, 2} new_db"
  unfolding new_db_def by (rule seeded_live)

lemma new_db_eq: "new_db = (sql_init empty_db)\<lparr>fk_on := True\<rparr>"
  by (simp add: new_db_def seeded_db)

lemma new_db_tables:
  "t_rooms new_db = [lobby_row, general_row]" "t_messages new_db = []" "t_membership new_db = []"
  "t_online new_db = []" "t_allow new_db = []" "db_faults new_db = []" "fk_on new_db"
  "map ur_username (t_users new_db) = [''admin'', ''user'']"
  "map ur_email (t_users new_db) = [''admin@example.com'', ''user@example.com'']"
  by (simp_all add: new_db_eq empty_db_def sql_init_def seed_user_def seed_room_def lobby_row_def general_row_def)

lemma new_db_names:
  "has_username new_db u \<longleftrightarrow> u \<in> {''admin'', ''user''}"
  "has_email new_db e \<longleftrightarrow> e \<in> {''admin@example.com'', ''user@example.com''}"
  using arg_cong [OF new_db_tables(8), of set] arg_cong [OF new_db_tables(9), of set]
  by (simp_all add: has_username_def has_email_def)

lemma find_user_None: "\<not> has_username d u \<Longrightarrow> find (\<lambda>r. ur_username r = u) (t_users d) = None"
  by (auto simp: find_None_iff has_username_def)

lemma find_last: "find P xs = None \<Longrightarrow> P y \<Longrightarrow> find P (xs @ [y]) = Some y"
  by (induction xs) (auto split: if_splits)

lemma run_sql_one:
  "db_live D d \<Longrightarrow> execute [st] d = (case st d of Inl m \<Rightarrow> (Inl (ConstraintError m), d) | Inr (n, d') \<Rightarrow> (Inr n, d'))"
  by (simp add: execute_def step_stmt_ready bindM_run db_live_simps(2) split: sum.split prod.split)

text \<open>A stand-in for Argon2 with which the examples compute: the encoded value is the password.\<close>

definition plain_argon2 :: argon2 where
  "plain_argon2 = \<lparr>argon2id_hash_encoded = (\<lambda>password salt. Inr password),
     argon2id_verify = (\<lambda>encoded password. if encoded = password then ARGON2_OK else ARGON2_VERIFY_MISMATCH)\<rparr>"

section \<open>Histories\<close>

text \<open>C14: after any sequence of operations on a new database every constraint of the schema holds: names,
  addresses, room ids, message ids and membership pairs are unique, every reference points to a row,
  and the two default rooms exist. Refused operations are included, and so are failures of SQLite
  itself at any statement of any operation (a script cut off in the middle included), with one
  exception: no such failure strikes a statement of a rename, which switches foreign keys off and runs
  four updates without a transaction (the rename theorem below shows what one leaves behind).\<close>

theorem stored_data_stay_consistent:
  assumes "reach db_enabled db_exec new_db d"
  shows "db_ok d"
  using database.reach_inv [OF assms] db_live_simps(1) [OF new_db_live] by blast

theorem stored_data_stay_consistent_witness:
  "db_ok (run_all db_exec [CreateUser ''ada'' ''h'' ''ada@x'', CreateRoom ''r'' OTHER PRIVATE ''ada@x'', DeleteRoom 1,
     CreateUser ''ada'' ''h'' ''other@x'', SetMembership ''nobody'' 1 ''n'', SetMembership ''ada'' 3 ''n'',
     Disk [None, None, Some ''disk I/O error''], DeleteRoom 3] new_db)"
  by (rule stored_data_stay_consistent, rule run_all_reach) simp

section \<open>Users\<close>

lemma create_user_run:
  assumes live: "db_live D d"
  shows "createUser u h e d =
    (if has_username d u \<or> has_email d e then (Inl (ConstraintError ''User already exists''), d)
     else (Inr \<lparr>u_username = u, u_email = e, u_type = USER\<rparr>,
           d\<lparr>t_users := t_users d @ [\<lparr>ur_username = u, ur_email = e, ur_password = h, ur_type = ''USER''\<rparr>]\<rparr>))"
proof -
  have t: "typeToString USER = ''USER''" "user_type_check ''USER''"
    by (simp_all add: typeToString_def userTypeToStringMap_def user_type_check_def)
  have "(\<exists>r\<in>set (t_users d). ur_username r = u \<or> ur_email r = e) = (has_username d u \<or> has_email d e)"
    by (auto simp: has_username_def has_email_def)
  then show ?thesis
    using assms t by (auto simp: createUser_def run_sql_def thenM_run catchM_run run_sql_one sql_create_user_def)
qed

text \<open>Registering a name or an address that is in use is refused and changes nothing; any other
  registration stores exactly one new row of type USER.\<close>

theorem create_user_spec:
  assumes "db_live D d"
  shows "createUser u h e d =
    (if has_username d u \<or> has_email d e then (Inl (ConstraintError ''User already exists''), d)
     else (Inr \<lparr>u_username = u, u_email = e, u_type = USER\<rparr>,
           d\<lparr>t_users := t_users d @ [\<lparr>ur_username = u, ur_email = e, ur_password = h, ur_type = ''USER''\<rparr>]\<rparr>))"
  using assms by (rule create_user_run)

theorem create_user_spec_witness:
  "createUser ''admin'' ''h'' ''new@x'' new_db = (Inl (ConstraintError ''User already exists''), new_db) \<and>
   fst (createUser ''ada'' ''h'' ''ada@x'' new_db) = Inr \<lparr>u_username = ''ada'', u_email = ''ada@x'', u_type = USER\<rparr>"
proof -
  show ?thesis
    using create_user_spec [OF new_db_live, of "''admin''" "''h''" "''new@x''"]
      create_user_spec [OF new_db_live, of "''ada''" "''h''" "''ada@x''"]
    by (simp add: new_db_names)
qed

definition auth_failed :: string where "auth_failed = ''Invalid username or password''"

lemma login_user_run:
  assumes "db_live D d"
  shows "loginUser A u p d =
    (Inr (case find (\<lambda>r. ur_username r = u) (t_users d) of
            None \<Rightarrow> Inl auth_failed
          | Some r \<Rightarrow> if checkPassword A p (c_str (ur_password r)) then Inr (user_of_row r) else Inl auth_failed), d)"
proof (cases "filter (\<lambda>r. ur_username r = u) (t_users d)")
  case Nil
  then show ?thesis
    using assms by (simp add: loginUser_def bindM_run query_run sql_login_user_def find_filter auth_failed_def)
next
  case (Cons r rs)
  then show ?thesis
    using assms by (simp add: loginUser_def bindM_run query_run sql_login_user_def find_filter auth_failed_def
        userFromRow_def liftE_def user_of_row_def)
qed

text \<open>A login is answered with the stored user exactly when the name is stored and the password
  matches the stored value; an unknown name and a wrong password give the same answer, and the
  database is not changed.\<close>

theorem login_user_spec:
  assumes "db_live D d"
  shows "loginUser A u p d =
    (Inr (case find (\<lambda>r. ur_username r = u) (t_users d) of
            None \<Rightarrow> Inl auth_failed
          | Some r \<Rightarrow> if checkPassword A p (c_str (ur_password r)) then Inr (user_of_row r) else Inl auth_failed), d)"
  using assms by (rule login_user_run)

theorem login_user_spec_witness:
  "loginUser plain_argon2 ''nobody'' ''pw'' new_db = (Inr (Inl auth_failed), new_db)"
proof -
  have "find (\<lambda>r. ur_username r = ''nobody'') (t_users new_db) = None"
    by (rule find_user_None) (simp add: new_db_names)
  then show ?thesis using login_user_spec [OF new_db_live, of plain_argon2 "''nobody''" "''pw''"] by simp
qed

text \<open>C35: a registered user can log in: if Argon2 accepts the hash it made of a password, then after
  \<open>createUser\<close> with that hash a login with the password returns the new user (name and address without
  NUL, both unused).\<close>

theorem register_then_login:
  assumes "db_live D d" and "nul_free u" and "nul_free e"
    and "hashPassword A salt p = Inr h" and "argon2id_verify A h p = ARGON2_OK"
    and "\<not> has_username d u" and "\<not> has_email d e"
  shows "\<exists>d'. createUser u h e d = (Inr \<lparr>u_username = u, u_email = e, u_type = USER\<rparr>, d') \<and>
     loginUser A u p d' = (Inr (Inr \<lparr>u_username = u, u_email = e, u_type = USER\<rparr>), d')"
proof -
  let ?r = "\<lparr>ur_username = u, ur_email = e, ur_password = h, ur_type = ''USER''\<rparr>"
  let ?d = "d\<lparr>t_users := t_users d @ [?r]\<rparr>"
  have c: "createUser u h e d = (Inr \<lparr>u_username = u, u_email = e, u_type = USER\<rparr>, ?d)"
    using create_user_run [OF assms(1)] assms(6,7) by simp
  have live: "db_live D ?d" using keepsE [OF live_all(10) assms(1) c] .
  have f: "find (\<lambda>r. ur_username r = u) (t_users ?d) = Some ?r"
    using find_user_None [OF assms(6)] by (simp add: find_last)
  have "nul_free h" using assms(4) by (auto simp: hashPassword_def split: sum.splits)
  then have "checkPassword A p (c_str h)" using assms(5) by (simp add: checkPassword_def)
  moreover have "user_of_row ?r = \<lparr>u_username = u, u_email = e, u_type = USER\<rparr>"
    using assms(2,3) by (simp add: user_of_row_def stringToType_def userTypeToStringMap_def)
  ultimately have "loginUser A u p ?d = (Inr (Inr \<lparr>u_username = u, u_email = e, u_type = USER\<rparr>), ?d)"
    using login_user_run [OF live, of A u p] f by simp
  then show ?thesis using c by blast
qed

theorem register_then_login_witness:
  "\<exists>d'. createUser ''ada'' ''secret'' ''ada@x'' new_db = (Inr \<lparr>u_username = ''ada'', u_email = ''ada@x'', u_type = USER\<rparr>, d') \<and>
     loginUser plain_argon2 ''ada'' ''secret'' d' = (Inr (Inr \<lparr>u_username = ''ada'', u_email = ''ada@x'', u_type = USER\<rparr>), d')"
  by (rule register_then_login [OF new_db_live, where salt = "[]"])
    (simp_all add: plain_argon2_def hashPassword_def c_str_def new_db_names)

section \<open>Renaming\<close>

lemma find_renamed:
  assumes "new \<noteq> old" and "new \<notin> ur_username ` set us"
  shows "find (\<lambda>x. ur_username x = new) (map (rename_user_row new old) us) =
    map_option (\<lambda>x. x\<lparr>ur_username := new\<rparr>) (find (\<lambda>x. ur_username x = old) us)"
  using assms by (induction us) auto

text \<open>\<open>updateUser\<close> up to and after the four updates, when every statement is executed.\<close>

lemma update_user_ready:
  assumes live: "db_live D d" and r: "find (\<lambda>r. ur_username r = old) (t_users d) = Some r"
    and e: "c_str (ur_email r) = e" and new: "new \<noteq> []" "\<not> has_username d new"
    and x: "execute (sql_update_user new old) (d\<lparr>fk_on := False\<rparr>) = (res, d2\<lparr>fk_on := False\<rparr>)"
    and d2: "db_faults d2 = []" "t_users d2 = map (rename_user_row new old) (t_users d)" "fk_on d2"
  shows "updateUser A salt old new [] e d =
    (case res of Inl ex \<Rightarrow> (Inl ex, d2) | Inr _ \<Rightarrow> (Inr (user_of_row (r\<lparr>ur_username := new\<rparr>)), d2))"
proof -
  have ne: "new \<noteq> old" using r new(2) by (auto simp: has_username_def find_Some_iff)
  have f: "db_faults d = []" using live by (simp add: db_live_simps)
  have "getUser old d = (Inr (Some (user_of_row r)), d)" using getUser_run [OF live] r by simp
  moreover have "userExists new d = (Inr False, d)"
    using live new(2) by (auto simp: userExists_def bindM_run query_run sql_user_exists_def has_username_def filter_empty_conv)
  moreover have "getUser new d2 = (Inr (Some (user_of_row (r\<lparr>ur_username := new\<rparr>))), d2)"
    using find_renamed [OF ne] new(2) r d2 by (subst getUser_find) (simp_all add: has_username_def)
  moreover have "d2\<lparr>fk_on := True\<rparr> = d2" using d2(3) by (cases d2) simp
  ultimately show ?thesis
    using ne new(1) e f x d2(1)
    by (cases res) (simp_all add: updateUser_def bindM_run thenM_run catchM_run run_sql_def exec_foreign_keys_def user_of_row_def)
qed

lemma rename_cut_off:
  assumes live: "db_live D d" and r: "find (\<lambda>r. ur_username r = old) (t_users d) = Some r"
    and e: "c_str (ur_email r) = e" and new: "new \<noteq> []" "\<not> has_username d new"
  shows "updateUser A salt old new [] e (d\<lparr>db_faults := [None, None, None, None, Some msg]\<rparr>) =
    (Inl (RuntimeError (''Failed to step SQL: '' @ msg)), d\<lparr>t_users := map (rename_user_row new old) (t_users d)\<rparr>)"
proof -
  have ne: "new \<noteq> old" using r new(2) by (auto simp: has_username_def find_Some_iff)
  obtain rs where old: "filter (\<lambda>r. ur_username r = old) (t_users d) = r # rs"
    using r by (auto simp: find_filter split: list.splits)
  have none: "filter (\<lambda>r. ur_username r = new) (t_users d) = []"
    using new(2) by (auto simp: has_username_def filter_empty_conv)
  have same: "(d\<lparr>t_users := us, db_faults := [], fk_on := True\<rparr>) = d\<lparr>t_users := us\<rparr>" for us
    using db_live_simps(2,3) [OF live] by (cases d) simp
  have fresh: "\<not> (\<exists>x\<in>set (t_users d). ur_username x = new)" using new(2) by (auto simp: has_username_def)
  show ?thesis
    using ne new(1) e old none fresh same
    by (simp add: updateUser_def getUser_def userExists_def query_def bindM_run thenM_run catchM_run run_sql_def
        exec_foreign_keys_def execute_def sql_update_user_def step_stmt_def sql_get_user_def sql_user_exists_def
        userFromRow_def liftE_def sql_rename_users_def Let_def)
qed

text \<open>C34: changing a user's name to an unused one (the password kept). The name is changed in all four
  tables, users, membership, online users and messages, foreign keys are checked again, and the reply
  is the renamed user; except when the old and the new name both have a row of online users (a peer's
  LOGIN event can bring one for a name no user has): then the third update is refused, the caller gets
  the error, and the user stays renamed in users and membership only. And when SQLite fails the second
  update, only the row of users is renamed: the memberships keep naming a user that does not exist.\<close>

theorem rename_user_spec:
  assumes live: "db_live D d" and r: "find (\<lambda>r. ur_username r = old) (t_users d) = Some r"
    and e: "c_str (ur_email r) = e" and new: "new \<noteq> []" "\<not> has_username d new"
  shows "(\<not> {old, new} \<subseteq> on_username ` set (t_online d) \<longrightarrow>
    updateUser A salt old new [] e d = (Inr (user_of_row (r\<lparr>ur_username := new\<rparr>)),
      d\<lparr>t_users := map (\<lambda>x. if ur_username x = old then x\<lparr>ur_username := new\<rparr> else x) (t_users d),
        t_membership := map (\<lambda>m. if ms_username m = old then m\<lparr>ms_username := new\<rparr> else m) (t_membership d),
        t_online := map (\<lambda>x. if on_username x = old then x\<lparr>on_username := new\<rparr> else x) (t_online d),
        t_messages := map (\<lambda>m. if mr_username m = old then m\<lparr>mr_username := new\<rparr> else m) (t_messages d)\<rparr>)) \<and>
   ({old, new} \<subseteq> on_username ` set (t_online d) \<longrightarrow>
    updateUser A salt old new [] e d = (Inl (ConstraintError ''UNIQUE constraint failed: online_users.username''),
      d\<lparr>t_users := map (\<lambda>x. if ur_username x = old then x\<lparr>ur_username := new\<rparr> else x) (t_users d),
        t_membership := map (\<lambda>m. if ms_username m = old then m\<lparr>ms_username := new\<rparr> else m) (t_membership d)\<rparr>)) \<and>
   updateUser A salt old new [] e (d\<lparr>db_faults := [None, None, None, None, Some msg]\<rparr>) =
     (Inl (RuntimeError (''Failed to step SQL: '' @ msg)),
      d\<lparr>t_users := map (\<lambda>x. if ur_username x = old then x\<lparr>ur_username := new\<rparr> else x) (t_users d)\<rparr>)"
    (is "(_ \<longrightarrow> _ = (_, ?all)) \<and> (_ \<longrightarrow> _ = (_, ?two)) \<and> _")
proof (intro conjI impI)
  have ne: "new \<noteq> old" using r new(2) by (auto simp: has_username_def find_Some_iff)
  let ?off = "d\<lparr>fk_on := False\<rparr>"
  have f: "db_faults d = []" "fk_on d" "db_wf ?off"
    using live by (simp_all add: db_live_simps) (simp add: db_live_def db_ok_def)
  have "\<not> (\<exists>x. sql_rename_users new old ?off = Inl x)"
    using new(2) by (auto simp: sql_rename_users_def has_username_def Let_def)
  then obtain n d1 m where first: "sql_rename_users new old ?off = Inr (n, d1)"
    "db_faults d1 = []" "sql_rename_membership new old d1 = Inr (m, renamed new old ?off)"
    using rename_first_two [OF f(3) _ ne] f(1) by auto
  note run = execute_def sql_update_user_def step_stmt_ready bindM_run sql_rename_online_def
    sql_rename_messages_def renamed_def Let_def
  show "updateUser A salt old new [] e d = (Inr (user_of_row (r\<lparr>ur_username := new\<rparr>)), ?all)"
    if "\<not> {old, new} \<subseteq> on_username ` set (t_online d)"
  proof -
    have "execute (sql_update_user new old) ?off =
        (Inr (length (filter (\<lambda>m. mr_username m = old) (t_messages d))), ?all\<lparr>fk_on := False\<rparr>)"
      using first f that ne by (auto simp: run image_iff filter_empty_conv)
    from update_user_ready [OF live r e new this] f show ?thesis by simp
  qed
  show "updateUser A salt old new [] e d = (Inl (ConstraintError ''UNIQUE constraint failed: online_users.username''), ?two)"
    if "{old, new} \<subseteq> on_username ` set (t_online d)"
  proof -
    have "execute (sql_update_user new old) ?off =
        (Inl (ConstraintError ''UNIQUE constraint failed: online_users.username''), ?two\<lparr>fk_on := False\<rparr>)"
      using first f that ne by (auto simp: run filter_empty_conv)
    from update_user_ready [OF live r e new this] f show ?thesis by simp
  qed
  show "updateUser A salt old new [] e (d\<lparr>db_faults := [None, None, None, None, Some msg]\<rparr>) =
     (Inl (RuntimeError (''Failed to step SQL: '' @ msg)),
      d\<lparr>t_users := map (\<lambda>x. if ur_username x = old then x\<lparr>ur_username := new\<rparr> else x) (t_users d)\<rparr>)"
    using live r e new by (rule rename_cut_off)
qed

lemma set_online_ready:
  "db_faults d = [] \<Longrightarrow> snd (setOnline u nd d) =
    d\<lparr>t_online := filter (\<lambda>r. on_username r \<noteq> u) (t_online d) @ [\<lparr>on_username = u, on_node = nd\<rparr>]\<rparr>"
  by (simp add: setOnline_def run_sql_def execute_def step_stmt_ready bindM_run thenM_run sql_set_online_def)

text \<open>The witness: a rename in the seeded database, and the same rename while a row of online users
  carries the new name.\<close>

theorem rename_user_spec_witness:
  "(\<exists>d' r. updateUser plain_argon2 [] ''user'' ''usher'' [] ''user@example.com'' new_db = (Inr r, d') \<and>
     u_username r = ''usher'' \<and> map ur_username (t_users d') = [''admin'', ''usher'']) \<and>
   (\<exists>d'. updateUser plain_argon2 [] ''user'' ''usher'' [] ''user@example.com''
       (snd (setOnline ''usher'' ''b'' (snd (setOnline ''user'' ''a'' new_db)))) =
       (Inl (ConstraintError ''UNIQUE constraint failed: online_users.username''), d') \<and>
     map ur_username (t_users d') = [''admin'', ''usher''] \<and> map on_username (t_online d') = [''user'', ''usher''])"
proof -
  obtain r1 r2 where us: "t_users new_db = [r1, r2]" "ur_username r1 = ''admin''" "ur_username r2 = ''user''"
    "ur_email r2 = ''user@example.com''"
    using new_db_tables(8,9) by (auto simp: map_eq_Cons_conv)
  let ?d = "snd (setOnline ''usher'' ''b'' (snd (setOnline ''user'' ''a'' new_db)))"
  have on: "t_users ?d = [r1, r2]" "map on_username (t_online ?d) = [''user'', ''usher'']"
    using us(1) new_db_tables(4,6) by (simp_all add: set_online_ready)
  have live: "db_live {1, 2} ?d" by (intro keepsD [OF live_all(3)] new_db_live)
  have u: "find (\<lambda>r. ur_username r = ''user'') (t_users new_db) = Some r2"
    "find (\<lambda>r. ur_username r = ''user'') (t_users ?d) = Some r2" using us on by simp_all
  have both: "{''user'', ''usher''} \<subseteq> on_username ` set (t_online ?d)"
    using arg_cong [OF on(2), of set] by simp
  have no: "\<not> has_username ?d ''usher''" using on us by (simp add: has_username_def)
  have e: "c_str (ur_email r2) = ''user@example.com''" using us by (simp add: c_str_def)
  have "\<not> has_username new_db ''usher''" "\<not> {''user'', ''usher''} \<subseteq> on_username ` set (t_online new_db)"
    by (simp_all add: new_db_names new_db_tables)
  then have 1: "\<exists>d'. updateUser plain_argon2 [] ''user'' ''usher'' [] ''user@example.com'' new_db =
      (Inr (user_of_row (r2\<lparr>ur_username := ''usher''\<rparr>)), d') \<and>
      t_users d' = map (rename_user_row ''usher'' ''user'') (t_users new_db)"
    using rename_user_spec [OF new_db_live u(1) e, of "''usher''" plain_argon2 "[]"] by simp
  have 2: "\<exists>d'. updateUser plain_argon2 [] ''user'' ''usher'' [] ''user@example.com'' ?d =
      (Inl (ConstraintError ''UNIQUE constraint failed: online_users.username''), d') \<and>
      t_users d' = map (rename_user_row ''usher'' ''user'') (t_users ?d) \<and> t_online d' = t_online ?d"
    using rename_user_spec [OF live u(2) e _ no, of plain_argon2 "[]"] both by simp
  show ?thesis
  proof (intro conjI)
    show "\<exists>d' r. updateUser plain_argon2 [] ''user'' ''usher'' [] ''user@example.com'' new_db = (Inr r, d') \<and>
       u_username r = ''usher'' \<and> map ur_username (t_users d') = [''admin'', ''usher'']"
      using 1 us by (force simp: user_of_row_def c_str_def)
    show "\<exists>d'. updateUser plain_argon2 [] ''user'' ''usher'' [] ''user@example.com'' ?d =
       (Inl (ConstraintError ''UNIQUE constraint failed: online_users.username''), d') \<and>
       map ur_username (t_users d') = [''admin'', ''usher''] \<and> map on_username (t_online d') = [''user'', ''usher'']"
      using 2 us on by auto
  qed
qed

end
