(* ===== verification/Node_Theorems.thy ===== *)
theory Node_Theorems
  imports Event_Log Store_Theorems
begin

text \<open>
  What a server node promises: in every state that some history of clients, peers, timers and network
  failures leads to, rooms and sessions agree and no operation throws; and the effect of single
  operations on such states.
\<close>

declare map_of_eq_Some_iff [simp del] Some_eq_map_of_iff [simp del]

section \<open>Histories\<close>

text \<open>C2: in every state a node reaches from its start, through any sequence of accepted connections, client
  and peer packets, released connections and timer rounds, the socket set of a room holds each socket
  once, and a socket is in it exactly when its session is in that room; every session is in exactly one
  room, which the room manager knows and the database stores. Two conditions on the environment: SQLite
  executes every statement (no disk or lock failure; constraint violations are included), and the
  operating system does not give a new connection the number of a socket that was closed but whose
  session is still in the table.\<close>

theorem sessions_and_rooms_agree:
  assumes "reach enabled (node_exec A) (booted c) n"
  shows "distinct (members_of n r) \<and>
    (fd \<in> set (members_of n r) \<longleftrightarrow> (\<exists>s. map_of (sessions n) fd = Some s \<and> ro_name (cs_room s) = r)) \<and>
    (\<forall>s. map_of (sessions n) fd = Some s \<longrightarrow>
       map_of (knownRooms n) (ro_name (cs_room s)) = Some (cs_room s) \<and> has_room (n_db n) (ro_id (cs_room s)))"
proof -
  have ok: "node_ok n" using node.reach_inv [OF assms booted_ok] .
  have "has_room (n_db n) (ro_id q)" if "map_of (knownRooms n) k = Some q" for k q
    using ok map_of_SomeD [OF that] by (force simp: node_inv_def known_ids_def intro: db_live_simps(4))
  then show ?thesis
    using ok by (auto simp: node_inv_def sessions_ok_def placed_def eff_room_def)
qed

text \<open>A node that has accepted one client.\<close>

definition one_client :: node where
  "one_client = run_all (node_exec plain_argon2) [Accept 5] (booted default_config)"

lemma one_client_reach: "reach enabled (node_exec plain_argon2) (booted default_config) one_client"
  unfolding one_client_def by (rule run_all_reach) (simp add: booted_eq fresh_node_def)

theorem sessions_and_rooms_agree_witness:
  "(5 \<in> set (members_of one_client ''Lobby'')) =
     (\<exists>s. map_of (sessions one_client) 5 = Some s \<and> ro_name (cs_room s) = ''Lobby'')"
  using sessions_and_rooms_agree [OF one_client_reach, of "''Lobby''" 5] by blast

text \<open>C4: as long as SQLite executes its statements (no disk or lock failure; constraint violations are
  included) and no new connection gets the number of a socket whose session is still in the table, no
  event ends in an exception, whatever the history: neither a packet of a client or a peer, however
  malformed, nor an accepted or closed connection, nor a timer round. The threads of the gossip manager
  and the reader threads have no handler, so an exception there would end the process.\<close>

theorem node_never_throws:
  assumes "reach enabled (node_exec A) (booted c) n" and "enabled e n"
  shows "\<exists>n'. node_exec A e n = (Inr (), n')"
  using node.reach_total [OF assms(1) booted_ok assms(2)] by blast

theorem node_never_throws_witness:
  "\<exists>n'. node_exec plain_argon2 (ClientPacket 5 (mkPacket 0 ''admin'' ''x'' LOGIN [] ''guess'' 0)) one_client = (Inr (), n')"
  by (rule node_never_throws [OF one_client_reach]) simp

text \<open>What a failing statement does there: the first query of a LOGIN event throws, and nothing between it
  and the end of the reader thread catches.\<close>

lemma failing_database_throws:
  assumes "db_faults (n_db n) = Some e # fs" and "decode (p_message p) = Some f" and "f_type f = ''LOGIN''"
    and "f_username f \<noteq> []" and "f_content f \<noteq> []" and "eventIdFromPacket p \<noteq> []" and "eventIdFromPacket p \<notin> set (seenEvents n)"
  shows "\<exists>x n'. peerEvent p n = (Inl x, n')"
  using assms
  by (simp add: peerEvent_def bindM_run thenM_run noteEvent_def rememberEventLocked_def applyEvent_def applyLogin_def Let_def
      dbM_def zoomM_def onlineNode_def query_def split: prod.split)

text \<open>C16: the memory of past events is bounded and coherent in every reachable state: at most
  \<open>MAX_EVENT_LOG\<close> ids, each once, the same in all three tables, and each logged packet carries the id
  it is stored under.\<close>

theorem event_log_bounded:
  assumes "reach enabled (node_exec A) (booted c) n"
  shows "length (recentEventIds n) \<le> 256 \<and> distinct (recentEventIds n) \<and>
    set (seenEvents n) = set (recentEventIds n) \<and> fst ` set (eventLog n) = set (recentEventIds n) \<and>
    (\<forall>i p. map_of (eventLog n) i = Some p \<longrightarrow> eventIdFromPacket p = i)"
proof -
  have "log_inv n" using log.reach_inv [OF assms log_inv_booted] .
  then show ?thesis by (auto simp: log_inv_def MAX_EVENT_LOG_def dest!: map_of_SomeD)
qed

theorem event_log_bounded_witness:
  "length (recentEventIds one_client) \<le> 256 \<and> distinct (recentEventIds one_client)"
  using event_log_bounded [OF one_client_reach] by blast

section \<open>Sending to a room\<close>

text \<open>A packet reaches the socket of an open session when the connection works and the packet fits a
  frame.\<close>

definition reachable_fd :: "node \<Rightarrow> packet \<Rightarrow> SOCKET \<Rightarrow> bool" where
  "reachable_fd n p fd \<longleftrightarrow> (\<exists>s. map_of (sessions n) fd = Some s \<and> \<not> cs_closed s) \<and>
     fd \<notin> set (n_broken n) \<and> serialize p \<noteq> []"

definition wire_of :: "node \<Rightarrow> packet \<Rightarrow> SOCKET \<Rightarrow> SOCKET \<times> wire" where
  "wire_of n p fd = (fd, if fd \<in> set (webSockets n) then Web p else Tcp p)"

lemma sendPacket_run:
  "sendPacket fd p n = (if reachable_fd n p fd then (Inr True, n\<lparr>n_sent := n_sent n @ [wire_of n p fd]\<rparr>) else (Inr False, n))"
  by (auto simp: sendPacket_def bindM_run reachable_fd_def wire_of_def writeM_def split: option.split)

lemma sent_frame [simp]:
  "reachable_fd (n\<lparr>n_sent := ws\<rparr>) = reachable_fd n" "wire_of (n\<lparr>n_sent := ws\<rparr>) = wire_of n"
  by (simp_all add: fun_eq_iff reachable_fd_def wire_of_def)

lemma sendAll_run:
  "sendAll fds p skip n = (Inr (\<forall>fd\<in>set fds. fd \<noteq> skip \<longrightarrow> reachable_fd n p fd),
     n\<lparr>n_sent := n_sent n @ map (wire_of n p) (filter (\<lambda>fd. fd \<noteq> skip \<and> reachable_fd n p fd) fds)\<rparr>)"
  by (induction fds arbitrary: n) (auto simp: bindM_run sendPacket_run)

lemma broadcast_run:
  "broadcast room p skip n =
    (Inr (list_all (reachable_fd n p) (filter (\<lambda>fd. fd \<noteq> skip) (members_of n (ro_name room)))),
     n\<lparr>n_sent := n_sent n @ map (wire_of n p)
        (filter (\<lambda>fd. fd \<noteq> skip \<and> reachable_fd n p fd) (members_of n (ro_name room)))\<rparr>)"
  by (auto simp: broadcast_def bindM_run sendAll_run list_all_iff)

text \<open>A broadcast writes the packet once to every member of the room except the skipped socket
  whose session is open and whose connection works, in the frame its connection uses, to nobody
  else, and changes nothing but the network; it reports success exactly when nobody was missed.\<close>

theorem broadcast_spec:
  "broadcast room p skip n =
    (Inr (list_all (reachable_fd n p) (filter (\<lambda>fd. fd \<noteq> skip) (members_of n (ro_name room)))),
     n\<lparr>n_sent := n_sent n @ map (wire_of n p)
        (filter (\<lambda>fd. fd \<noteq> skip \<and> reachable_fd n p fd) (members_of n (ro_name room)))\<rparr>)"
  by (rule broadcast_run)

section \<open>Access\<close>

text \<open>The reply to a packet before its type is looked at.\<close>

definition response_to :: "node \<Rightarrow> packet \<Rightarrow> packet" where
  "response_to n p = p\<lparr>p_timestamp := of_int (n_now n), p_sender := ''server'', p_receiver := p_sender p\<rparr>"

lemma dbM_query: "db_live D (n_db n) \<Longrightarrow> dbM (bindM (query sel) (\<lambda>rows. returnM (f rows))) n = (Inr (f (map (map c_str) (sel (n_db n)))), n)"
  by (simp add: dbM_def zoomM_def bindM_run query_run)

lemma isAllowed_run:
  "db_live D (n_db n) \<Longrightarrow>
   dbM (isAllowed i e) n = (Inr (\<exists>a\<in>set (t_allow (n_db n)). al_room a = i \<and> al_email a = e), n)"
  by (auto simp: isAllowed_def dbM_query sql_is_allowed_def filter_empty_conv)

declare session_of_Some [simp]

lemma reach_live: "reach enabled (node_exec A) (booted c) n \<Longrightarrow> db_live (known_ids n) (n_db n)"
  using node.reach_inv [OF _ booted_ok] by (simp add: node_inv_def)

text \<open>Who may enter a private room: administrators and logged-in users on its allow list.\<close>

definition admitted :: "node \<Rightarrow> clientSession \<Rightarrow> room \<Rightarrow> bool" where
  "admitted n s room \<longleftrightarrow> isAdmin s \<or>
     (cs_authenticated s \<and> (\<exists>a\<in>set (t_allow (n_db n)). al_room a = ro_id room \<and> al_email a = u_email (cs_user s)))"

lemma mayJoin_run:
  "db_live D (n_db n) \<Longrightarrow> mayJoin s room n = (Inr (ro_privacy room = PRIVATE \<longrightarrow> admitted n s room), n)"
  by (auto simp: mayJoin_def admitted_def isAllowed_run)

text \<open>Whether a user counts as logged in here: a live session on this node or a presence row.\<close>

definition logged_in :: "node \<Rightarrow> user \<Rightarrow> bool" where
  "logged_in n u \<longleftrightarrow> (\<exists>(fd, s)\<in>set (sessions n). cs_authenticated s \<and> user_eq (cs_user s) u) \<or>
     u_username u \<in> on_username ` set (t_online (n_db n))"

lemma isUserOnline_run:
  "db_live D (n_db n) \<Longrightarrow> dbM (isUserOnline u) n = (Inr (u \<in> on_username ` set (t_online (n_db n))), n)"
  by (auto simp: isUserOnline_def dbM_query sql_is_user_online_def filter_empty_conv)

section \<open>Messages\<close>

text \<open>The id \<open>makeEventId\<close> gives next.\<close>

definition next_id :: "node \<Rightarrow> string \<Rightarrow> string \<Rightarrow> string" where
  "next_id n kind u = nodeId n @ ''-'' @ kind @ ''-'' @ u @ ''-'' @ int_to_string (n_now n) @ ''-'' @
     nat_to_string (unat (nextPresenceSeq n + 1))"

definition event_packet :: "node \<Rightarrow> string \<Rightarrow> string \<Rightarrow> string \<Rightarrow> string \<Rightarrow> string \<Rightarrow> packet" where
  "event_packet n kind u content f room =
     mkPacket (of_int (n_now n)) (nodeId n) ''*'' GOSSIP_EVENT room (encode kind (next_id n kind u) u content f) 0"

definition logged :: "string \<Rightarrow> packet \<Rightarrow> node \<Rightarrow> node" where
  "logged i p n = rememberEventLocked i p (n\<lparr>seenEvents := seenEvents n @ [i]\<rparr>)"

lemma logged_frame [simp]:
  "n_db (logged i p n) = n_db n" "n_cfg (logged i p n) = n_cfg n" "n_now (logged i p n) = n_now n"
  "n_draws (logged i p n) = n_draws n" "n_broken (logged i p n) = n_broken n" "n_sent (logged i p n) = n_sent n"
  "knownRooms (logged i p n) = knownRooms n" "members (logged i p n) = members n" "sessions (logged i p n) = sessions n"
  "webSockets (logged i p n) = webSockets n" "clientPeers (logged i p n) = clientPeers n"
  "gossip_wired (logged i p n) = gossip_wired n" "g_stopped (logged i p n) = g_stopped n"
  "n_closedFds (logged i p n) = n_closedFds n" "n_steady (logged i p n) = n_steady n"
  "nextPresenceSeq (logged i p n) = nextPresenceSeq n" "dropLogoutSeq (logged i p n) = dropLogoutSeq n"
  by (simp_all add: logged_def rememberEventLocked_def split: prod.split)

lemma gossipRumor_run:
  assumes "p_type e = GOSSIP_EVENT" and "p_sender e = nodeId n" and "p_receiver e = ''*''"
    and "eventIdFromPacket e = i" and "i \<noteq> []" and "i \<notin> set (seenEvents n)"
  shows "gossipRumor e n = thenM (applyEvent e) (bindM (getsM peerSocketsLocked) (\<lambda>fds. gossipSend_all fds e)) (logged i e n)"
proof -
  have "e\<lparr>p_type := GOSSIP_EVENT, p_sender := if p_sender e = [] then nodeId n else p_sender e,
      p_receiver := if p_receiver e = [] then ''*'' else p_receiver e\<rparr> = e"
    using assms(1-3) by (cases e) simp
  moreover have "noteEvent i e n = (Inr True, logged i e n)" using assms(6) by (simp add: noteEvent_def logged_def)
  ultimately show ?thesis
    unfolding gossipRumor_def Let_def assms(4) using assms(5) by (simp only: bindM_run getsM_run) simp
qed

lemma rumorEvent_run:
  assumes "gossip_wired n" and "next_id n kind u \<notin> set (seenEvents n)"
    and "short kind" "short (next_id n kind u)" "short u" "short content" "short f"
  shows "rumorEvent kind u content f room n =
    thenM (applyEvent (event_packet n kind u content f room))
      (bindM (getsM peerSocketsLocked) (\<lambda>fds. gossipSend_all fds (event_packet n kind u content f room)))
      (logged (next_id n kind u) (event_packet n kind u content f room) (n\<lparr>nextPresenceSeq := nextPresenceSeq n + 1\<rparr>))"
proof -
  let ?p = "event_packet n kind u content f room" and ?n = "n\<lparr>nextPresenceSeq := nextPresenceSeq n + 1\<rparr>"
  have "eventIdFromPacket ?p = next_id n kind u"
    using eventId_encode [OF assms(3-7)] by (simp add: eventIdFromPacket_def event_packet_def mkPacket_def)
  moreover have "next_id n kind u \<noteq> []" by (simp add: next_id_def)
  ultimately have "gossipRumor ?p ?n = thenM (applyEvent ?p) (bindM (getsM peerSocketsLocked) (\<lambda>fds. gossipSend_all fds ?p))
      (logged (next_id n kind u) ?p ?n)"
    using assms(2) by (intro gossipRumor_run) (simp_all add: event_packet_def mkPacket_def nodeId_def)
  then show ?thesis
    using assms(1) by (simp add: rumorEvent_def makeEventId_def bindM_run thenM_run packetM_def rumor_def
        nodeId_def next_id_def event_packet_def)
qed

lemma send_frame [simp]:
  "reachable_fd (n\<lparr>n_db := d\<rparr>) = reachable_fd n" "wire_of (n\<lparr>n_db := d\<rparr>) = wire_of n"
  "reachable_fd (n\<lparr>n_draws := ds\<rparr>) = reachable_fd n" "wire_of (n\<lparr>n_draws := ds\<rparr>) = wire_of n"
  "reachable_fd (n\<lparr>nextPresenceSeq := k\<rparr>) = reachable_fd n" "wire_of (n\<lparr>nextPresenceSeq := k\<rparr>) = wire_of n"
  "reachable_fd (logged i q n) = reachable_fd n" "wire_of (logged i q n) = wire_of n"
  "members_of (n\<lparr>n_draws := ds\<rparr>) = members_of n" "members_of (n\<lparr>nextPresenceSeq := k\<rparr>) = members_of n"
  "members_of (logged i q n) = members_of n"
  by (simp_all add: fun_eq_iff reachable_fd_def wire_of_def members_of_def)

lemma gossipSend_all_run:
  assumes "serialize p \<noteq> []"
  shows "gossipSend_all fds p n =
    (Inr (), n\<lparr>n_sent := n_sent n @ map (\<lambda>fd. (fd, Tcp p)) (filter (\<lambda>fd. fd \<notin> set (n_broken n)) fds)\<rparr>)"
  using assms unfolding gossipSend_all_def
  by (induction fds arbitrary: n) (auto simp: thenM_run gossipSend_def writeM_def)

definition message_of :: "node \<Rightarrow> string \<Rightarrow> room \<Rightarrow> user_row \<Rightarrow> string \<Rightarrow> int \<Rightarrow> message_row" where
  "message_of n i room r content t = \<lparr>mr_id = i, mr_room = ro_id room, mr_username = ur_username r, mr_email = ur_email r,
     mr_content = content, mr_created = t, mr_origin = nodeId n\<rparr>"

definition message_push :: "node \<Rightarrow> string \<Rightarrow> string \<Rightarrow> string \<Rightarrow> int \<Rightarrow> packet" where
  "message_push n u rn content t = (mkPacket (of_int (n_now n)) u [] MESSAGE rn content 0)\<lparr>p_timestamp := of_int t\<rparr>"

lemma saveMessage_run:
  assumes "db_live D d" and "\<not> (\<exists>m\<in>set (t_messages d). mr_id m = m_id msg)" and "has_room d i" "has_email d (u_email (m_from msg))"
  shows "saveMessage node msg i d = (Inr True, d\<lparr>t_messages := t_messages d @
    [\<lparr>mr_id = m_id msg, mr_room = i, mr_username = u_username (m_from msg), mr_email = u_email (m_from msg),
      mr_content = m_content msg, mr_created = m_timestamp msg, mr_origin = node\<rparr>]\<rparr>)"
  using assms by (simp add: saveMessage_def bindM_run run_sql_one sql_save_message_def)

lemma applyMessage_run:
  assumes live: "db_live D (n_db n)" and room: "map_of (knownRooms n) rn = Some room" "rn \<noteq> []" "ro_name room = rn" "ro_id room \<in> D"
    and row: "find (\<lambda>r. ur_username r = u) (t_users (n_db n)) = Some r" "nul_free u" "nul_free (ur_email r)"
    and new: "\<not> (\<exists>m\<in>set (t_messages (n_db n)). mr_id m = i)" and ts: "std_stoll ts = Some t"
  shows "\<exists>n'. applyMessage rn i u content ts n = (Inr True, n') \<and>
    n' = n\<lparr>n_draws := tl (n_draws n), n_db := (n_db n)\<lparr>t_messages := t_messages (n_db n) @ [message_of n i room r content t]\<rparr>,
      n_sent := n_sent n @ map (wire_of n (message_push n u rn content t))
        (filter (\<lambda>fd. fd \<noteq> INVALID_SOCKET \<and> reachable_fd n (message_push n u rn content t) fd) (members_of n rn))\<rparr>"
proof -
  have r: "r \<in> set (t_users (n_db n))" "ur_username r = u" using row(1) by (auto simp: find_Some_iff)
  then have "has_email (n_db n) (ur_email r)" by (auto simp: has_email_def)
  moreover have "has_room (n_db n) (ro_id room)" using db_live_simps(4) [OF live room(4)] .
  moreover have "getUser u (n_db n) = (Inr (Some \<lparr>u_username = u, u_email = ur_email r, u_type = stringToType (c_str (ur_type r))\<rparr>), n_db n)"
    using getUser_run [OF live, of u] row r by (simp add: user_of_row_def)
  ultimately show ?thesis
    using room(1-3) new ts r(2)
    by (simp add: applyMessage_def bindM_run thenM_run catchM_run getRoom_def dbM_def zoomM_def anonymousUserM_def drawM_def
        saveMessage_run [OF live] packetM_def broadcast_run message_of_def message_push_def nodeId_def)
qed

section \<open>An example history\<close>

lemma serialize_nonempty:
  "serialize p \<noteq> [] \<longleftrightarrow> isValidPacketType (p_type p) \<and>
     29 + length (p_sender p) + length (p_receiver p) + length (p_room p) + length (p_message p) \<le> MAX_PAYLOAD_BYTES"
  by (simp add: serialize_def Let_def length_serializePayload appendU32BE_def)

lemma one_client_eq:
  "\<exists>ws. one_client = (relocated 5 (ro_name LOBBY) LOBBY ((booted default_config)\<lparr>n_draws := [],
     sessions := [(5, mkSession 5 (anonymousUser 0) LOBBY 0)]\<rparr>))\<lparr>n_sent := ws\<rparr>"
proof -
  let ?b = "booted default_config"
  let ?s = "mkSession 5 (anonymousUser 0) LOBBY 0"
  define n1 where "n1 = relocated 5 (ro_name LOBBY) LOBBY (?b\<lparr>n_draws := [], sessions := [(5, ?s)]\<rparr>)"
  have b: "n_draws ?b = []" "n_steady ?b = 0" "sessions ?b = []" "listening ?b" "gossip_wired ?b" "n_broken ?b = []"
    "map_of (knownRooms ?b) (ro_name LOBBY) = Some LOBBY"
    by (simp_all add: booted_eq fresh_node_def)
  have cs: "cs_authenticated ?s = False" "cs_room ?s = LOBBY" "cs_user ?s = anonymousUser 0" by (simp_all add: mkSession_def)
  then have join: "joinRoom (ro_name LOBBY) 5 (?b\<lparr>n_draws := [], sessions := [(5, ?s)]\<rparr>) = (Inr True, n1)"
    using b(7) unfolding joinRoom_def Let_def
    by (simp add: bindM_run sessionM_def session_of_def relocate_run n1_def)
  have f: "sessions n1 = [(5, ?s)]" "webSockets n1 = webSockets ?b" "gossip_wired n1" "listening n1" "n_broken n1 = []"
    "knownRooms n1 = [(ro_name LOBBY, LOBBY), (ro_name GENERAL, GENERAL)]"
    using b by (simp_all add: n1_def relocated_def mkSession_def) (simp add: booted_eq)
  define w where "w = mkPacket (of_int (n_now n1)) ''server'' (user_serialize (anonymousUser 0)) ROOM_LIST (ro_name LOBBY) (serializeList [LOBBY, GENERAL]) 0"
  have "length (ro_name LOBBY) \<le> 100" by (simp add: LOBBY_def mkRoom_def)
  moreover have "length (user_serialize (anonymousUser 0)) \<le> 100" "length (serializeList [LOBBY, GENERAL]) \<le> 100"
    by (simp_all add: user_serialize_def anonymousUser_def pad7_def typeToString_def userTypeToStringMap_def serializeList_def
        room_serialize_def LOBBY_def GENERAL_def mkRoom_def roomTypeToString_def typeMap_def privacyToString_def privacyMap_def
        Let_def nat_to_string.simps int_to_string_def)
  ultimately have r: "reachable_fd n1 w 5"
    using f by (simp add: reachable_fd_def mkSession_def serialize_nonempty w_def mkPacket_def isValidPacketType_iff MAX_PAYLOAD_BYTES_def)
  have "\<exists>ws. acceptClient 5 ?b = (Inr True, n1\<lparr>n_sent := ws\<rparr>)"
    using b join f r cs(3)
    by (auto simp: acceptClient_def spawnClientHandler_def openSession_def anonymousUserM_def drawM_def bindM_run thenM_run addSession_def
        rm_listRooms_def Let_def sessionM_def session_of_def packetM_def w_def [symmetric] sendPacket_run
        pushServerDirectory_def INVALID_SOCKET_def)
  then show ?thesis by (auto simp: one_client_def ignoreM_def thenM_run n1_def)
qed

lemma one_client_facts:
  "sessions one_client = [(5, mkSession 5 (anonymousUser 0) LOBBY 0)]" "n_db one_client = new_db" "seenEvents one_client = []"
  "gossip_wired one_client" "n_now one_client = 0" "nextPresenceSeq one_client = 0" "n_cfg one_client = default_config"
  "knownRooms one_client = [(ro_name LOBBY, LOBBY), (ro_name GENERAL, GENERAL)]" "n_broken one_client = []"
  "map_of (members one_client) (ro_name LOBBY) = Some [5]" "peerSocketsLocked one_client = []"
    "n_steady one_client = 0"
proof -
  obtain ws where eq: "one_client = (relocated 5 (ro_name LOBBY) LOBBY ((booted default_config)\<lparr>n_draws := [],
     sessions := [(5, mkSession 5 (anonymousUser 0) LOBBY 0)]\<rparr>))\<lparr>n_sent := ws\<rparr>" using one_client_eq by blast
  note defs = relocated_def booted_eq fresh_node_def new_db_eq mkSession_def add_member_def drop_member_def
      set_insert_def mem_def peerSocketsLocked_def
  show "sessions one_client = [(5, mkSession 5 (anonymousUser 0) LOBBY 0)]" "n_db one_client = new_db" "seenEvents one_client = []"
    "gossip_wired one_client" "n_now one_client = 0" "nextPresenceSeq one_client = 0" "n_cfg one_client = default_config"
    "knownRooms one_client = [(ro_name LOBBY, LOBBY), (ro_name GENERAL, GENERAL)]" "n_broken one_client = []"
    "map_of (members one_client) (ro_name LOBBY) = Some [5]" "peerSocketsLocked one_client = []"
    "n_steady one_client = 0"
    unfolding eq by (simp_all add: defs)
qed

end
