(* ===== verification/Anti_Entropy.thy ===== *)
theory Anti_Entropy
  imports Node_Theorems
begin

text \<open>
  Two nodes of the cluster: one anti-entropy exchange between them. Node \<open>a\<close> sends its digest
  (\<open>antiEntropyRound\<close>), node \<open>b\<close> answers with a pull for the ids it has not seen, \<open>a\<close> sends the events
  it still has, \<open>b\<close> applies them. \<open>exchange\<close> carries the packets from the send log of one node to the
  packet handler of the other; the theorem says that afterwards \<open>b\<close> has seen everything in the log of
  \<open>a\<close>.
\<close>

section \<open>Writing to a peer\<close>

lemma gossipSend_ok:
  "fd \<notin> set (n_broken n) \<Longrightarrow> serialize p \<noteq> [] \<Longrightarrow>
   gossipSend fd p n = (Inr True, n\<lparr>n_sent := n_sent n @ [(fd, Tcp p)]\<rparr>)"
  by (simp add: gossipSend_def writeM_def)

text \<open>The packets a node wrote to a socket between two states.\<close>

definition written :: "SOCKET \<Rightarrow> node \<Rightarrow> node \<Rightarrow> packet list" where
  "written fd n n' = map (wire_packet \<circ> snd) (filter (\<lambda>(f, _). f = fd) (drop (length (n_sent n)) (n_sent n')))"

lemma written_append:
  "n_sent n' = n_sent n @ ws \<Longrightarrow> written fd n n' = map (wire_packet \<circ> snd) (filter (\<lambda>(f, _). f = fd) ws)"
  by (simp add: written_def)

section \<open>The exchange\<close>

definition deliver :: "SOCKET \<Rightarrow> packet list \<Rightarrow> node \<Rightarrow> node" where
  "deliver fd ps n = snd (forM ps (\<lambda>p. ignoreM (peerPacket fd True p)) n)"

definition exchange :: "node \<Rightarrow> SOCKET \<Rightarrow> node \<Rightarrow> SOCKET \<Rightarrow> node \<times> node" where
  "exchange a fda b fdb =
     (let a1 = snd (antiEntropyRound a);
          b1 = deliver fdb (written fda a a1) b;
          a2 = deliver fda (written fdb b b1) a1;
          b2 = deliver fdb (written fda a1 a2) b1
      in (a2, b2))"

section \<open>Digest and pull\<close>

lemma digest_text_join:
  "\<forall>i\<in>set ids. i \<noteq> [] \<Longrightarrow>
   digest_text ids out = (if out = [] then join_with (CHR ''|'') ids else if ids = [] then out
      else out @ ''|'' @ join_with (CHR ''|'') ids)"
proof (induction ids arbitrary: out)
  case (Cons i ids)
  have "digest_text (i # ids) out = digest_text ids ((if out \<noteq> [] then out @ ''|'' else out) @ i)" by simp
  also have "\<dots> = (if ids = [] then (if out \<noteq> [] then out @ ''|'' else out) @ i
      else ((if out \<noteq> [] then out @ ''|'' else out) @ i) @ ''|'' @ join_with (CHR ''|'') ids)"
    using Cons.prems by (subst Cons.IH) simp_all
  finally show ?case by (cases ids) simp_all
qed simp

lemma log_ids:
  assumes "log_inv n" and "i \<in> set (recentEventIds n)"
  obtains p where "map_of (eventLog n) i = Some p" "eventIdFromPacket p = i" "i \<noteq> []"
proof -
  have "i \<in> fst ` set (eventLog n)" "distinct (map fst (eventLog n))" using assms by (simp_all add: log_inv_def)
  then obtain p where "(i, p) \<in> set (eventLog n)" "map_of (eventLog n) i = Some p" by auto
  then show thesis using assms(1) that [of p] by (auto simp: log_inv_def)
qed

lemma log_id_nonempty: "log_inv n \<Longrightarrow> i \<in> set (recentEventIds n) \<Longrightarrow> i \<noteq> []"
  by (metis log_ids)

lemma buildDigest_join:
  assumes "log_inv n"
  shows "buildDigestLocked n = join_with (CHR ''|'') (recentEventIds n)"
proof -
  have "\<forall>i\<in>set (recentEventIds n). i \<noteq> []" using log_id_nonempty [OF assms] by blast
  then show ?thesis by (simp add: buildDigestLocked_def digest_text_join)
qed

lemma missing_of_digest:
  assumes "log_inv a" and "\<forall>i\<in>set (recentEventIds a). CHR ''|'' \<notin> set i"
  shows "missingIds b (buildDigestLocked a) = filter (\<lambda>i. i \<notin> set (seenEvents b)) (recentEventIds a)"
proof -
  have ne: "\<forall>i\<in>set (recentEventIds a). i \<noteq> []" using log_id_nonempty [OF assms(1)] by blast
  then have "getlines (CHR ''|'') (buildDigestLocked a) = recentEventIds a"
    using assms by (simp add: buildDigest_join getlines_join)
  then show ?thesis using ne by (auto simp: missingIds_def intro: filter_cong)
qed

definition answers :: "node \<Rightarrow> string list \<Rightarrow> packet list" where
  "answers n ids = map (\<lambda>p. p\<lparr>p_type := GOSSIP_EVENT\<rparr>) (List.map_filter (map_of (eventLog n)) ids)"

lemma peerPull_run:
  assumes "\<forall>i\<in>set ids. i \<noteq> [] \<and> CHR ''|'' \<notin> set i" and "fd \<notin> set (n_broken n)"
    and "\<forall>(i, p)\<in>set (eventLog n). serialize (p\<lparr>p_type := GOSSIP_EVENT\<rparr>) \<noteq> []"
    and "p_message pull = join_with (CHR ''|'') ids"
  shows "peerPull fd pull n = (Inr (), n\<lparr>n_sent := n_sent n @ map (\<lambda>p. (fd, Tcp p)) (answers n ids)\<rparr>)"
proof -
  define step where "step = (\<lambda>ident. whenM (ident \<noteq> [])
         (bindM (getsM (\<lambda>n. map_of (eventLog n) ident)) (\<lambda>full.
            case full of
              None \<Rightarrow> returnM ()
            | Some p \<Rightarrow> thenM (gossipSend fd (p\<lparr>p_type := GOSSIP_EVENT\<rparr>)) (returnM ()))))"
  have one: "step i m = (Inr (), m\<lparr>n_sent := n_sent m @ map (\<lambda>p. (fd, Tcp p)) (answers m [i])\<rparr>)"
    if "i \<noteq> []" "n_broken m = n_broken n" "eventLog m = eventLog n" for i m
  proof (cases "map_of (eventLog n) i")
    case None
    then show ?thesis using that by (simp add: step_def bindM_run answers_def map_filter_def)
  next
    case (Some p)
    have "serialize (p\<lparr>p_type := GOSSIP_EVENT\<rparr>) \<noteq> []" using assms(3) map_of_SomeD [OF Some] by blast
    then show ?thesis
      using that assms(2) Some by (simp add: step_def bindM_run thenM_run gossipSend_ok answers_def map_filter_def)
  qed
  have "forM ids step m = (Inr (), m\<lparr>n_sent := n_sent m @ map (\<lambda>p. (fd, Tcp p)) (answers m ids)\<rparr>)"
    if "\<forall>i\<in>set ids. i \<noteq> []" "n_broken m = n_broken n" "eventLog m = eventLog n" for ids m
    using that
  proof (induction ids arbitrary: m)
    case (Cons i ids)
    then show ?case by (simp add: thenM_run one answers_def map_filter_def)
  qed (simp add: answers_def map_filter_def)
  moreover have "getlines (CHR ''|'') (p_message pull) = ids" using assms(1,4) by (simp add: getlines_join)
  ultimately show ?thesis using assms(1) by (simp add: peerPull_def step_def [symmetric])
qed

section \<open>Delivering events\<close>

lemma peerEvent_log:
  assumes ok: "node_ok n" and log: "log_inv n" and ident: "eventIdFromPacket p = i" "i \<noteq> []" "i \<notin> set (seenEvents n)"
    and room: "length (recentEventIds n) < MAX_EVENT_LOG"
  shows "\<exists>n'. peerEvent p n = (Inr (), n') \<and> node_ok n' \<and> log_inv n' \<and> recentEventIds n' = recentEventIds n @ [i]"
proof -
  obtain n' where run: "peerEvent p n = (Inr (), n')" "node_ok n'"
    using safeD [OF safe_peer_steps(2) ok] by force
  obtain b m where noted: "noteEvent i p n = (Inr b, m)" using ident(3) by (simp add: noteEvent_def)
  then have m: "b" "recentEventIds m = recentEventIds n @ [i]"
    using noteEvent_fresh [OF log ident(3) noted] ident(1,2) room by auto
  have "keeps (\<lambda>x. log_of x = log_of m) (thenM (applyEvent p) (returnM ()))"
    by (intro keeps_intros log_keeps)
  then have "log_of (snd (thenM (applyEvent p) (returnM ()) m)) = log_of m" by (rule keepsD) simp
  moreover have "peerEvent p n = thenM (applyEvent p) (returnM ()) m"
    using noted m(1) ident(1,2) by (simp add: peerEvent_def bindM_run)
  ultimately have "log_of n' = log_of m" using run(1) by (metis snd_conv)
  moreover have "log_inv n'" using keepsE [OF keeps_log_events_in(2) log run(1)] .
  ultimately show ?thesis using run m by (auto simp: log_of_def)
qed

lemma deliver_Nil [simp]: "deliver fd [] n = n"
  by (simp add: deliver_def)

lemma deliver_Cons: "peerPacket fd True p n = (Inr r, n') \<Longrightarrow> deliver fd (p # ps) n = deliver fd ps n'"
  by (simp add: deliver_def ignoreM_def thenM_run)

lemma deliver_events:
  assumes "node_ok n" and "log_inv n" and "\<forall>p\<in>set ps. p_type p = GOSSIP_EVENT \<and> eventIdFromPacket p \<noteq> []"
    and "distinct (map eventIdFromPacket ps)" and "eventIdFromPacket ` set ps \<inter> set (seenEvents n) = {}"
    and "length (recentEventIds n) + length ps \<le> MAX_EVENT_LOG"
  shows "node_ok (deliver fd ps n) \<and> log_inv (deliver fd ps n) \<and>
    recentEventIds (deliver fd ps n) = recentEventIds n @ map eventIdFromPacket ps"
  using assms
proof (induction ps arbitrary: n)
  case (Cons p ps)
  obtain n' where n': "peerEvent p n = (Inr (), n')" "node_ok n'" "log_inv n'"
    "recentEventIds n' = recentEventIds n @ [eventIdFromPacket p]"
    using Cons.prems peerEvent_log [OF Cons.prems(1,2), of p "eventIdFromPacket p"] by auto
  have "peerPacket fd True p n = (Inr (True, False), n')"
    using Cons.prems(3) n'(1) by (simp add: peerPacket_def thenM_run)
  then have step: "deliver fd (p # ps) n = deliver fd ps n'" by (rule deliver_Cons)
  have "set (seenEvents n') = insert (eventIdFromPacket p) (set (seenEvents n))"
    using n'(3,4) Cons.prems(2) by (auto simp: log_inv_def)
  then have "node_ok (deliver fd ps n') \<and> log_inv (deliver fd ps n') \<and>
      recentEventIds (deliver fd ps n') = recentEventIds n' @ map eventIdFromPacket ps"
    using Cons.prems n' by (intro Cons.IH) auto
  then show ?case using step n'(4) by simp
qed simp

section \<open>One round\<close>

definition digest_of :: "node \<Rightarrow> packet" where
  "digest_of n = mkPacket (of_int (n_now n)) (nodeId n) ''*'' GOSSIP_DIGEST [] (buildDigestLocked n) 0"

lemma antiEntropyRound_run:
  assumes "\<not> g_stopped n" and "serialize (digest_of n) \<noteq> []"
  shows "antiEntropyRound n = (Inr (), n\<lparr>n_sent := n_sent n @
    map (\<lambda>fd. (fd, Tcp (digest_of n))) (filter (\<lambda>fd. fd \<notin> set (n_broken n)) (peerSocketsLocked n))\<rparr>)"
  using assms by (simp add: antiEntropyRound_def bindM_run packetM_def gossipSend_all_run digest_of_def mkPacket_def)

lemma digest_written:
  assumes "\<not> g_stopped a" and "serialize (digest_of a) \<noteq> []" and "fd \<notin> set (n_broken a)"
    and "filter (\<lambda>f. f = fd) (peerSocketsLocked a) = [fd]"
  shows "written fd a (snd (antiEntropyRound a)) = [digest_of a]"
proof -
  have "filter (\<lambda>f. f = fd \<and> f \<notin> set (n_broken a)) xs = filter (\<lambda>f. f = fd) xs" for xs
    using assms(3) by (metis (mono_tags, lifting))
  then show ?thesis
    using assms by (simp add: antiEntropyRound_run written_append filter_map comp_def conj_commute)
qed

lemma peerDigest_run:
  assumes "fd \<notin> set (n_broken b)" and "M = missingIds b (p_message d)"
    and "serialize (mkPacket (of_int (n_now b)) (nodeId b) (p_sender d) GOSSIP_PULL [] (join_with (CHR ''|'') M) 0) \<noteq> []"
  shows "peerDigest fd d b = (Inr (), if M = [] then b else b\<lparr>n_sent := n_sent b @
    [(fd, Tcp (mkPacket (of_int (n_now b)) (nodeId b) (p_sender d) GOSSIP_PULL [] (join_with (CHR ''|'') M) 0))]\<rparr>)"
  using assms by (simp add: peerDigest_def bindM_run thenM_run packetM_def gossipSend_ok mkPacket_def)

lemma length_join: "length (join_with c xs) = sum_list (map length xs) + (length xs - 1)"
  by (induction c xs rule: join_with.induct) auto

lemma length_join_filter: "length (join_with c (filter P xs)) \<le> length (join_with c xs)"
proof -
  have "sum_list (map length (filter P xs)) \<le> sum_list (map length xs)" by (induction xs) auto
  moreover have "length (filter P xs) \<le> length xs" by simp
  ultimately show ?thesis unfolding length_join by linarith
qed

lemma answers_ids:
  assumes "log_inv n" and "set ids \<subseteq> set (recentEventIds n)"
  shows "map eventIdFromPacket (answers n ids) = ids"
  using assms(2)
proof (induction ids)
  case (Cons i ids)
  obtain p where "map_of (eventLog n) i = Some p" "eventIdFromPacket p = i"
    using log_ids [OF assms(1), of i] Cons.prems by auto
  then show ?case using Cons by (simp add: answers_def map_filter_def eventIdFromPacket_def)
qed (simp add: answers_def map_filter_def)

lemma exchange_run:
  assumes a: "log_inv a" and run: "\<not> g_stopped a" and peer: "filter (\<lambda>f. f = fda) (peerSocketsLocked a) = [fda]"
    and link: "fda \<notin> set (n_broken a)" "fdb \<notin> set (n_broken b)"
    and clean: "\<forall>i\<in>set (recentEventIds a). CHR ''|'' \<notin> set i"
    and fits: "30 + length (nodeId a) + length (nodeId b) + length (buildDigestLocked a) \<le> MAX_PAYLOAD_BYTES"
      "\<forall>(i, p)\<in>set (eventLog a). serialize (p\<lparr>p_type := GOSSIP_EVENT\<rparr>) \<noteq> []"
    and M: "M = filter (\<lambda>i. i \<notin> set (seenEvents b)) (recentEventIds a)"
  shows "\<exists>a' b1. exchange a fda b fdb = (a', deliver fdb (answers a M) b1) \<and> log_of a' = log_of a \<and>
     (\<exists>ws. b1 = b\<lparr>n_sent := n_sent b @ ws\<rparr>)"
proof -
  let ?pull = "mkPacket (of_int (n_now b)) (nodeId b) (nodeId a) GOSSIP_PULL [] (join_with (CHR ''|'') M) 0"
  let ?a1 = "snd (antiEntropyRound a)"
  have D: "serialize (digest_of a) \<noteq> []"
    using fits(1) by (simp add: serialize_nonempty digest_of_def mkPacket_def isValidPacketType_iff)
  have P: "serialize ?pull \<noteq> []"
    using fits(1) length_join_filter [of "CHR ''|''" "\<lambda>i. i \<notin> set (seenEvents b)" "recentEventIds a"]
    by (simp add: serialize_nonempty mkPacket_def isValidPacketType_iff buildDigest_join [OF a] M)
  have a1: "log_of ?a1 = log_of a" "n_broken ?a1 = n_broken a"
    using antiEntropyRound_run [OF run D] by (simp_all add: log_of_def)
  have miss: "missingIds b (p_message (digest_of a)) = M"
    by (simp add: digest_of_def mkPacket_def missing_of_digest [OF a clean] M)
  have "peerPacket fdb True (digest_of a) b =
      (Inr (True, False), if M = [] then b else b\<lparr>n_sent := n_sent b @ [(fdb, Tcp ?pull)]\<rparr>)"
    using peerDigest_run [OF link(2) miss [symmetric], unfolded digest_of_def] P
    by (simp add: peerPacket_def thenM_run digest_of_def mkPacket_def)
  then have b1: "deliver fdb (written fda a ?a1) b = (if M = [] then b else b\<lparr>n_sent := n_sent b @ [(fdb, Tcp ?pull)]\<rparr>)"
    using digest_written [OF run D link(1) peer] by (simp add: deliver_Cons)
  show ?thesis
  proof (cases "M = []")
    case True
    then have "exchange a fda b fdb = (?a1, deliver fdb (answers a M) b)"
      using b1 by (simp add: exchange_def written_def answers_def map_filter_def)
    moreover have "b = b\<lparr>n_sent := n_sent b @ []\<rparr>" by simp
    ultimately show ?thesis using a1 by blast
  next
    case False
    have "\<forall>i\<in>set M. i \<noteq> [] \<and> CHR ''|'' \<notin> set i" using clean log_id_nonempty [OF a] by (simp add: M)
    then have "peerPull fda ?pull ?a1 = (Inr (), ?a1\<lparr>n_sent := n_sent ?a1 @ map (\<lambda>p. (fda, Tcp p)) (answers ?a1 M)\<rparr>)"
      using link(1) fits(2) a1 by (intro peerPull_run) (auto simp: log_of_def mkPacket_def)
    then have "peerPacket fda True ?pull ?a1 =
        (Inr (True, False), ?a1\<lparr>n_sent := n_sent ?a1 @ map (\<lambda>p. (fda, Tcp p)) (answers a M)\<rparr>)"
      using a1(1) by (simp add: peerPacket_def thenM_run mkPacket_def answers_def log_of_def)
    then show ?thesis
      using False b1 a1
      by (simp add: exchange_def written_def deliver_Cons Let_def filter_map comp_def log_of_def) blast
  qed
qed

text \<open>C1: one anti-entropy exchange brings the receiving node up to date. If node \<open>a\<close> (reachable, its
  peer loop running) has node \<open>b\<close> as a registered peer, the connection works in both directions, the
  ids contain no separator, the packets fit a frame and the log of \<open>b\<close> has room for what it misses,
  then after digest, pull and events \<open>b\<close> has seen exactly what it had seen before and everything in
  the log of \<open>a\<close>, the log of \<open>a\<close> is unchanged and \<open>b\<close> is consistent.\<close>

theorem anti_entropy_converges:
  assumes a: "reach enabled (node_exec A) (booted ca) a" and b: "reach enabled (node_exec A) (booted cb) b"
    and run: "\<not> g_stopped a" and peer: "filter (\<lambda>f. f = fda) (peerSocketsLocked a) = [fda]"
    and link: "fda \<notin> set (n_broken a)" "fdb \<notin> set (n_broken b)"
    and clean: "\<forall>i\<in>set (recentEventIds a). CHR ''|'' \<notin> set i"
    and fits: "30 + length (nodeId a) + length (nodeId b) + length (buildDigestLocked a) \<le> MAX_PAYLOAD_BYTES"
      "\<forall>(i, p)\<in>set (eventLog a). serialize (p\<lparr>p_type := GOSSIP_EVENT\<rparr>) \<noteq> []"
    and space: "length (recentEventIds b) + length (filter (\<lambda>i. i \<notin> set (seenEvents b)) (recentEventIds a)) \<le> MAX_EVENT_LOG"
    and final: "exchange a fda b fdb = (a', b')"
  shows "set (seenEvents b') = set (seenEvents b) \<union> set (recentEventIds a) \<and> log_of a' = log_of a \<and> node_ok b'"
proof -
  define M where "M = filter (\<lambda>i. i \<notin> set (seenEvents b)) (recentEventIds a)"
  have inv: "log_inv a" "log_inv b" "node_ok b"
    using log.reach_inv [OF a log_inv_booted] log.reach_inv [OF b log_inv_booted] node.reach_inv [OF b booted_ok] by auto
  obtain b1 ws where ex: "b' = deliver fdb (answers a M) b1" "log_of a' = log_of a" "b1 = b\<lparr>n_sent := n_sent b @ ws\<rparr>"
    using exchange_run [OF inv(1) run peer link clean fits M_def] final by auto
  have ids: "map eventIdFromPacket (answers a M) = M" using inv(1) by (rule answers_ids) (auto simp: M_def)
  have M: "distinct M" "set M \<inter> set (seenEvents b) = {}" "set M = set (recentEventIds a) - set (seenEvents b)"
    using inv(1) by (auto simp: M_def log_inv_def)
  have b1: "log_inv b1" "node_ok b1" "recentEventIds b1 = recentEventIds b" "seenEvents b1 = seenEvents b"
    using inv(2,3) by (auto simp: ex(3) log_inv_def)
  have "\<forall>p\<in>set (answers a M). p_type p = GOSSIP_EVENT \<and> eventIdFromPacket p \<noteq> []"
  proof
    fix p
    assume p: "p \<in> set (answers a M)"
    then have "eventIdFromPacket p \<in> set M" using ids by (metis image_eqI set_map)
    then have "eventIdFromPacket p \<noteq> []" using log_id_nonempty [OF inv(1)] M(3) by blast
    then show "p_type p = GOSSIP_EVENT \<and> eventIdFromPacket p \<noteq> []" using p by (auto simp: answers_def)
  qed
  moreover have "length (answers a M) = length M" using ids by (metis length_map)
  moreover have "eventIdFromPacket ` set (answers a M) = set M" using ids by (metis set_map)
  ultimately have d: "node_ok b' \<and> log_inv b' \<and> recentEventIds b' = recentEventIds b @ M"
    using deliver_events [OF b1(2,1), of "answers a M" fdb] M(1,2) b1(3,4) space ids ex(1) by (simp add: M_def)
  then have "set (seenEvents b') = set (recentEventIds b) \<union> set M" by (simp add: log_inv_def)
  moreover have "set (recentEventIds b) = set (seenEvents b)" using inv(2) by (simp add: log_inv_def)
  ultimately show ?thesis using d ex(2) M(3) by blast
qed

text \<open>A node that has one registered peer and one event, and a node that has just started.\<close>

definition note_payload :: string where
  "note_payload = encode ''NOTE'' ''e1'' [] [] []"

definition node_with_event :: node where
  "node_with_event = run_all (node_exec plain_argon2)
     [PeerPacket 7 False (mkPacket 0 ''node2'' ''*'' GOSSIP_HELLO [] [] 0),
      PeerPacket 7 True (mkPacket 0 ''node2'' ''*'' GOSSIP_EVENT [] note_payload 0)] (booted default_config)"

lemma note_payload_fields:
  "decode note_payload = Some \<lparr>f_type = ''NOTE'', f_eventId = ''e1'', f_username = [], f_content = [], f_field5 = []\<rparr>"
  using decode_encode [of "\<lparr>f_type = ''NOTE'', f_eventId = ''e1'', f_username = [], f_content = [], f_field5 = []\<rparr>"]
  by (simp add: note_payload_def encodeFields_def fields_short_def)

lemma node_with_event_eq:
  "node_with_event = (booted default_config)
     \<lparr>clientPeers := [(''node2'', \<lparr>ce_nodeId = ''node2'', ce_host = [], ce_port = 0, ce_socket = 7\<rparr>)],
      seenEvents := [''e1''], recentEventIds := [''e1''],
      eventLog := [(''e1'', mkPacket 0 ''node2'' ''*'' GOSSIP_EVENT [] note_payload 0)]\<rparr>"
proof -
  have start: "clientPeers (booted c) = []" "seenEvents (booted c) = []" "recentEventIds (booted c) = []"
    "eventLog (booted c) = []" "nodeId (booted default_config) = ''node1''" for c
    by (simp_all add: booted_eq fresh_node_def nodeId_def default_config_def)
  have "parseHostPort [] = None" by (simp add: parseHostPort_def rfind_char_def find_char_def)
  then have hello: "peerPacket 7 False (mkPacket 0 ''node2'' ''*'' GOSSIP_HELLO [] [] 0) (booted default_config) =
      (Inr (True, False), (booted default_config)\<lparr>clientPeers :=
        [(''node2'', \<lparr>ce_nodeId = ''node2'', ce_host = [], ce_port = 0, ce_socket = 7\<rparr>)]\<rparr>)"
    by (simp add: peerPacket_def mkPacket_def peerHello_def registerPeer_def bindM_run thenM_run start)
  have "eventId note_payload = ''e1''" using eventId_decode [OF note_payload_fields] by simp
  then have event: "peerPacket 7 True (mkPacket 0 ''node2'' ''*'' GOSSIP_EVENT [] note_payload 0) n =
      (Inr (True, False), n\<lparr>seenEvents := [''e1''], recentEventIds := [''e1''],
        eventLog := [(''e1'', mkPacket 0 ''node2'' ''*'' GOSSIP_EVENT [] note_payload 0)], seenEvents := [''e1'']\<rparr>)"
    if "seenEvents n = []" "recentEventIds n = []" "eventLog n = []" for n
    using that note_payload_fields
    by (simp add: peerPacket_def mkPacket_def peerEvent_def eventIdFromPacket_def noteEvent_def rememberEventLocked_def
        MAX_EVENT_LOG_def applyEvent_def bindM_run thenM_run Let_def)
  show ?thesis
    by (simp add: node_with_event_def ignoreM_def thenM_run hello event start)
qed

theorem anti_entropy_converges_witness:
  "set (seenEvents (snd (exchange node_with_event 7 (booted default_config) 9))) = {''e1''}"
proof -
  let ?b = "booted default_config" and ?a = "node_with_event"
  obtain a' b' where ex: "exchange ?a 7 ?b 9 = (a', b')" by force
  have b: "recentEventIds ?b = []" "seenEvents ?b = []" "n_broken ?b = []" "nodeId ?b = ''node1''" "\<not> g_stopped ?b"
    by (simp_all add: booted_eq fresh_node_def nodeId_def default_config_def)
  have a: "recentEventIds ?a = [''e1'']" "n_broken ?a = []" "nodeId ?a = ''node1''" "\<not> g_stopped ?a"
    "eventLog ?a = [(''e1'', mkPacket 0 ''node2'' ''*'' GOSSIP_EVENT [] note_payload 0)]" "peerSocketsLocked ?a = [7]"
    using b by (simp_all add: node_with_event_eq nodeId_def peerSocketsLocked_def INVALID_SOCKET_def)
  have "reach enabled (node_exec plain_argon2) (booted default_config) ?a"
    unfolding node_with_event_def by (rule run_all_reach) simp
  from anti_entropy_converges [OF this reach_start, where cb = default_config and fda = 7 and fdb = 9 and a' = a' and b' = b'] show ?thesis
    using ex a b by (simp add: buildDigestLocked_def MAX_EVENT_LOG_def MAX_PAYLOAD_BYTES_def serialize_nonempty
        mkPacket_def isValidPacketType_iff note_payload_def encode_put)
qed

end
