(* ===== verification/Ring_Buffer.thy ===== *)
theory Ring_Buffer
  imports Prelude
begin

text \<open>
  Bounded histories: a container that keeps the latest \<open>cap\<close> entries of everything pushed into it. The
  logger and the event log of the gossip manager both implement it with a queue whose front is popped
  while it is too long; the locale states what they promise and derives what a sequence of pushes leaves.
\<close>

definition lastn :: "nat \<Rightarrow> 'a list \<Rightarrow> 'a list" where
  "lastn n xs = drop (length xs - n) xs"

lemma length_lastn [simp]: "length (lastn n xs) = min n (length xs)"
  by (simp add: lastn_def)

lemma lastn_short: "length xs \<le> n \<Longrightarrow> lastn n xs = xs"
  by (simp add: lastn_def)

lemma lastn_append: "lastn n (lastn n xs @ ys) = lastn n (xs @ ys)"
proof (cases "length xs \<le> n")
  case False
  then have "lastn n xs @ ys = drop (length xs - n) (xs @ ys)" by (simp add: lastn_def)
  then have "lastn n (lastn n xs @ ys) = drop (length ys + (length xs - n)) (xs @ ys)"
    using False by (simp add: lastn_def)
  moreover have "length xs + length ys - n = length ys + (length xs - n)" using False by simp
  ultimately show ?thesis by (simp add: lastn_def)
qed (simp add: lastn_short)

lemma set_lastn: "set (lastn n xs) \<subseteq> set xs"
  by (simp add: lastn_def set_drop_subset)

text \<open>The loop \<open>while (q.size() > cap) q.pop_front()\<close>.\<close>

fun trim :: "nat \<Rightarrow> 'a list \<Rightarrow> 'a list" where
  "trim cap [] = []"
| "trim cap (x # xs) = (if length (x # xs) > cap then trim cap xs else x # xs)"

lemma trim_lastn: "trim cap xs = lastn cap xs"
  by (induction xs) (auto simp: lastn_def Suc_diff_le)

text \<open>\<open>item x s\<close> is the entry that pushing \<open>x\<close> in state \<open>s\<close> makes.\<close>

locale ring_buffer =
  fixes contents :: "'s \<Rightarrow> 'a list" and push :: "'x \<Rightarrow> 's \<Rightarrow> 's" and item :: "'x \<Rightarrow> 's \<Rightarrow> 'a" and cap :: nat
  assumes push_contents: "contents (push x s) = lastn cap (contents s @ [item x s])"
begin

primrec items :: "'x list \<Rightarrow> 's \<Rightarrow> 'a list" where
  "items [] s = []"
| "items (x # xs) s = item x s # items xs (push x s)"

lemma length_items [simp]: "length (items xs s) = length xs"
  by (induction xs arbitrary: s) auto

text \<open>The buffer refines the unbounded history: it shows its last \<open>cap\<close> entries.\<close>

lemma contents_fold: "lastn cap (contents (fold push xs s)) = lastn cap (contents s @ items xs s)"
proof (induction xs arbitrary: s)
  case (Cons x xs)
  have "lastn cap (contents (fold push (x # xs) s)) = lastn cap (lastn cap (contents s @ [item x s]) @ items xs (push x s))"
    using Cons [of "push x s"] by (simp add: push_contents)
  then show ?case by (simp add: lastn_append)
qed simp

lemma contents_bounded: "length (contents s) \<le> cap \<Longrightarrow> length (contents (fold push xs s)) \<le> cap"
  by (induction xs arbitrary: s) (simp_all add: push_contents)

lemma contents_fold_bounded:
  "length (contents s) \<le> cap \<Longrightarrow> contents (fold push xs s) = lastn cap (contents s @ items xs s)"
  using contents_fold [of xs s] lastn_short [OF contents_bounded, of s xs] by simp

end

end
