(* ===== verification/Event_History.thy ===== *)
theory Event_History
  imports Anti_Entropy Ring_Buffer
begin

text \<open>
  The event log as a window on the history of events: of everything a node ever accepted it knows the
  latest \<open>MAX_EVENT_LOG\<close> ids, with the packet noted under each. What follows for an event that arrives
  again: it is applied once among any 256 events in a row.
\<close>

lemma evict_ids: "fst (evict ids lg sn) = lastn MAX_EVENT_LOG ids"
proof (induction ids lg sn rule: evict.induct)
  case (2 old ids lg sn)
  then show ?case by (cases "length (old # ids) > MAX_EVENT_LOG") (auto simp: lastn_def Suc_diff_le)
qed (simp add: lastn_def)

interpretation evq: ring_buffer recentEventIds "\<lambda>(i, p). rememberEventLocked i p" "\<lambda>(i, p) n. i" MAX_EVENT_LOG
proof
  fix x :: "string \<times> packet" and n
  show "recentEventIds ((case x of (i, p) \<Rightarrow> rememberEventLocked i p) n) =
      lastn MAX_EVENT_LOG (recentEventIds n @ [(case x of (i, p) \<Rightarrow> \<lambda>n. i) n])"
    using evict_ids [of "recentEventIds n @ [fst x]" "AList.update (fst x) (snd x) (eventLog n)" "seenEvents n"]
    by (auto simp: rememberEventLocked_def split: prod.splits)
qed

section \<open>The abstract log\<close>

type_synonym history = "(string \<times> packet) list"

text \<open>The abstract state is every event ever accepted. An event counts as new when its id is not in the
  window of the latest 256 of them; an id that has left the window is new again.\<close>

definition is_new :: "string \<Rightarrow> history \<Rightarrow> bool" where
  "is_new i H \<longleftrightarrow> i \<notin> fst ` set (lastn MAX_EVENT_LOG H)"

definition note_abs :: "string \<times> packet \<Rightarrow> history \<Rightarrow> history" where
  "note_abs e H = (if is_new (fst e) H then H @ [e] else H)"

definition ev_refines :: "node \<Rightarrow> history \<Rightarrow> bool" where
  "ev_refines n H \<longleftrightarrow> log_inv n \<and> recentEventIds n = map fst (lastn MAX_EVENT_LOG H) \<and>
     (\<forall>(i, p)\<in>set (lastn MAX_EVENT_LOG H). map_of (eventLog n) i = Some p)"

lemma lastn_map: "lastn k (map f xs) = map f (lastn k xs)"
  by (simp add: lastn_def drop_map)

lemma noteEvent_ids:
  assumes "i \<notin> set (seenEvents n)" and "noteEvent i p n = (Inr b, n')"
  shows "recentEventIds n' = lastn MAX_EVENT_LOG (recentEventIds n @ [i])"
proof -
  have "n' = rememberEventLocked i p (n\<lparr>seenEvents := seenEvents n @ [i]\<rparr>)" using assms by (auto simp: noteEvent_def)
  then show ?thesis using evq.push_contents [of "(i, p)" "n\<lparr>seenEvents := seenEvents n @ [i]\<rparr>"] by simp
qed

lemma noteEvent_keeps_packets:
  assumes inv: "log_inv n" and fresh: "i \<notin> set (seenEvents n)" and run: "noteEvent i p n = (Inr b, n')"
    and j: "j \<in> set (recentEventIds n')" "j \<noteq> i"
  shows "map_of (eventLog n') j = map_of (eventLog n) j"
proof -
  obtain ids lg sn where ev: "evict (recentEventIds n @ [i]) (AList.update i p (eventLog n)) (seenEvents n @ [i]) = (ids, lg, sn)"
    by (metis prod_cases3)
  have n': "eventLog n' = lg" "recentEventIds n' = ids"
    using run fresh ev by (auto simp: noteEvent_def rememberEventLocked_def)
  have "i \<notin> set (recentEventIds n)" using inv fresh by (simp add: log_inv_def)
  then have "\<forall>k\<in>set ids. map_of lg k = map_of (AList.update i p (eventLog n)) k"
    using evict_spec [OF ev] inv by (auto simp: log_inv_def AList.dom_update AList.distinct_update)
  then show ?thesis using j n' by (simp add: AList.update_conv')
qed

lemma note_refines:
  assumes r: "ev_refines n H" and ident: "i = eventIdFromPacket p" "i \<noteq> []"
  shows "\<exists>n'. noteEvent i p n = (Inr (is_new i H), n') \<and> ev_refines n' (note_abs (i, p) H)"
proof (cases "i \<in> set (seenEvents n)")
  case True
  then have "\<not> is_new i H" using r by (auto simp: ev_refines_def log_inv_def is_new_def)
  then show ?thesis using True r by (simp add: noteEvent_def note_abs_def)
next
  case False
  have inv: "log_inv n" using r by (simp add: ev_refines_def)
  have new: "is_new i H" using False r by (auto simp: ev_refines_def log_inv_def is_new_def)
  obtain n' where run: "noteEvent i p n = (Inr True, n')" using False by (simp add: noteEvent_def)
  note f = noteEvent_fresh [OF inv False run ident]
  have ids: "recentEventIds n' = map fst (lastn MAX_EVENT_LOG (H @ [(i, p)]))"
    using noteEvent_ids [OF False run] r lastn_append [of MAX_EVENT_LOG "map fst H" "[i]"] lastn_map [of MAX_EVENT_LOG fst H]
      lastn_map [of MAX_EVENT_LOG fst "H @ [(i, p)]"] by (simp add: ev_refines_def)
  have "map_of (eventLog n') j = Some q" if jq: "(j, q) \<in> set (lastn MAX_EVENT_LOG (H @ [(i, p)]))" for j q
  proof (cases "(j, q) = (i, p)")
    case False
    have "lastn MAX_EVENT_LOG (H @ [(i, p)]) = lastn MAX_EVENT_LOG (lastn MAX_EVENT_LOG H @ [(i, p)])" by (simp add: lastn_append)
    with jq False have old: "(j, q) \<in> set (lastn MAX_EVENT_LOG H)"
      using set_lastn [of MAX_EVENT_LOG "lastn MAX_EVENT_LOG H @ [(i, p)]"] by auto
    then have "j \<noteq> i" using new by (force simp: is_new_def)
    moreover have "j \<in> set (recentEventIds n')" using jq ids by force
    ultimately show ?thesis using noteEvent_keeps_packets [OF inv \<open>i \<notin> set (seenEvents n)\<close> run] old r by (auto simp: ev_refines_def)
  qed (use f in simp)
  then show ?thesis using run new f ids by (auto simp: ev_refines_def note_abs_def)
qed

primrec note_all :: "history \<Rightarrow> (node, bool list) mon" where
  "note_all [] = returnM []"
| "note_all (e # es) = bindM (noteEvent (fst e) (snd e)) (\<lambda>b. bindM (note_all es) (\<lambda>bs. returnM (b # bs)))"

primrec news :: "history \<Rightarrow> history \<Rightarrow> bool list" where
  "news [] H = []"
| "news (e # es) H = is_new (fst e) H # news es (note_abs e H)"

lemma note_all_refines:
  assumes "ev_refines n H" and "\<forall>(i, p)\<in>set es. i = eventIdFromPacket p \<and> i \<noteq> []"
  shows "\<exists>n'. note_all es n = (Inr (news es H), n') \<and> ev_refines n' (fold note_abs es H)"
  using assms
proof (induction es arbitrary: n H)
  case (Cons e es)
  obtain i p where e: "e = (i, p)" by (cases e)
  obtain n1 where n1: "noteEvent i p n = (Inr (is_new i H), n1)" "ev_refines n1 (note_abs (i, p) H)"
    using note_refines [OF Cons.prems(1), of i p] Cons.prems(2) e by auto
  then show ?case using Cons.IH [OF n1(2)] Cons.prems(2) e by (auto simp: bindM_run)
qed simp

text \<open>The answers of a log that never forgets.\<close>

primrec unbounded_news :: "history \<Rightarrow> history \<Rightarrow> bool list" where
  "unbounded_news [] H = []"
| "unbounded_news (e # es) H =
     (fst e \<notin> fst ` set H) # unbounded_news es (if fst e \<notin> fst ` set H then H @ [e] else H)"

lemma news_unbounded: "length H + length es \<le> MAX_EVENT_LOG \<Longrightarrow> news es H = unbounded_news es H"
proof (induction es arbitrary: H)
  case (Cons e es)
  then have "is_new (fst e) H \<longleftrightarrow> fst e \<notin> fst ` set H" by (simp add: is_new_def lastn_short)
  then show ?case using Cons.IH [of "note_abs e H"] Cons.prems by (simp add: note_abs_def)
qed simp

text \<open>C17: the event log of a node against the history \<open>H\<close> of all events it ever accepted. For every
  sequence of events the answers (is this event new?) are those of a window on the history: an event
  is refused exactly when its id is among the latest 256 accepted ones, so an id that has left the
  window is accepted again. What the node keeps at the end, the ids and the packets stored under them,
  is that window of the history; and as long as no more than 256 events came in, the answers are those
  of a log that forgets nothing.\<close>

theorem event_log_refines_history:
  assumes "ev_refines n H" and "\<forall>(i, p)\<in>set es. i = eventIdFromPacket p \<and> i \<noteq> []"
  shows "(\<exists>n'. note_all es n = (Inr (news es H), n') \<and> ev_refines n' (fold note_abs es H)) \<and>
    (length H + length es \<le> 256 \<longrightarrow> news es H = unbounded_news es H)"
  using note_all_refines [OF assms] news_unbounded [of H es] by (simp add: MAX_EVENT_LOG_def)

definition note_packet :: packet where
  "note_packet = mkPacket 0 ''node2'' ''*'' GOSSIP_EVENT [] note_payload 0"

theorem event_log_refines_history_witness:
  "\<exists>n'. note_all [(''e1'', note_packet), (''e1'', note_packet)] (booted default_config) = (Inr [True, False], n') \<and>
    recentEventIds n' = [''e1'']"
proof -
  have e: "eventIdFromPacket note_packet = ''e1''"
    using eventId_decode [OF note_payload_fields] by (simp add: eventIdFromPacket_def note_packet_def mkPacket_def)
  have "ev_refines (booted default_config) []"
    using log_inv_booted by (simp add: ev_refines_def lastn_def booted_eq fresh_node_def)
  from event_log_refines_history [OF this, of "[(''e1'', note_packet), (''e1'', note_packet)]"] show ?thesis
    using e by (auto simp: is_new_def note_abs_def lastn_def ev_refines_def MAX_EVENT_LOG_def)
qed

section \<open>Events that arrive again\<close>

text \<open>The id \<open>i\<close> is in the window, at most \<open>k\<close> ids after it.\<close>

definition aged :: "nat \<Rightarrow> string \<Rightarrow> node \<Rightarrow> bool" where
  "aged k i n \<longleftrightarrow> log_inv n \<and> (\<exists>xs ys. recentEventIds n = xs @ i # ys \<and> length ys \<le> k)"

interpretation aged: log_frame "aged k i" for k i
  by unfold_locales (simp add: aged_def log_inv_def)

lemma aged_seen: "aged k i n \<Longrightarrow> i \<in> set (seenEvents n)"
  by (auto simp: aged_def log_inv_def)

lemma aged_later: "aged k i n \<Longrightarrow> aged (Suc k) i n"
  by (auto simp: aged_def intro: le_SucI)

lemma lastn_keeps:
  assumes "length ys < k"
  shows "\<exists>zs. lastn k (xs @ i # ys) = zs @ i # ys"
  using assms by (intro exI [of _ "drop (length (xs @ i # ys) - k) xs"]) (simp add: lastn_def)

lemma aged_note:
  assumes "aged k i n" and "Suc k < MAX_EVENT_LOG" and "j = eventIdFromPacket p" "j \<noteq> []"
  shows "aged (Suc k) i (snd (noteEvent j p n))"
proof (cases "j \<in> set (seenEvents n)")
  case True
  then show ?thesis using aged_later [OF assms(1)] by (simp add: noteEvent_def)
next
  case False
  obtain n' where run: "noteEvent j p n = (Inr True, n')" using False by (simp add: noteEvent_def)
  obtain xs ys where ys: "recentEventIds n = xs @ i # ys" "length ys \<le> k" "log_inv n" using assms(1) by (auto simp: aged_def)
  have "recentEventIds n' = lastn MAX_EVENT_LOG (xs @ i # ys @ [j])" using noteEvent_ids [OF False run] ys(1) by simp
  then have "\<exists>zs. recentEventIds n' = zs @ i # ys @ [j]"
    using lastn_keeps [of "ys @ [j]" MAX_EVENT_LOG xs i] ys(2) assms(2) by simp
  moreover have "log_inv n'" using noteEvent_fresh [OF ys(3) False run assms(3,4)] by blast
  ultimately obtain zs where "recentEventIds n' = zs @ i # (ys @ [j])" "log_inv n'" by auto
  moreover have "length (ys @ [j]) \<le> Suc k" using ys(2) by simp
  ultimately show ?thesis using run unfolding aged_def by (metis snd_conv)
qed

lemma aged_new:
  assumes "log_inv n" and "i \<notin> set (seenEvents n)" and "i = eventIdFromPacket p" "i \<noteq> []"
  shows "aged 0 i (snd (noteEvent i p n))"
proof -
  obtain n' where run: "noteEvent i p n = (Inr True, n')" using assms(2) by (simp add: noteEvent_def)
  have "recentEventIds n' = lastn MAX_EVENT_LOG (recentEventIds n @ i # [])" using noteEvent_ids [OF assms(2) run] by simp
  then have "\<exists>zs. recentEventIds n' = zs @ [i]" using lastn_keeps [of "[]" MAX_EVENT_LOG "recentEventIds n" i] by (simp add: MAX_EVENT_LOG_def)
  moreover have "log_inv n'" using noteEvent_fresh [OF assms(1,2) run assms(3,4)] by blast
  ultimately show ?thesis using run by (auto simp: aged_def)
qed

lemma bind_post:
  assumes "Q (snd (m s))" and "\<And>a. keeps Q (f a)"
  shows "Q (snd (bindM m f s))"
  using assms by (cases "m s"; cases "fst (m s)") (auto simp: bindM_def keeps_def)

text \<open>What is done with an event after it was noted leaves the log alone.\<close>

lemma events_aged:
  assumes "\<And>out. eventIdFromPacket out = eventIdFromPacket p \<Longrightarrow> aged k i (snd (noteEvent (eventIdFromPacket p) out n))"
    and "eventIdFromPacket p \<noteq> []"
  shows "aged k i (snd (peerEvent p n))" and "aged k i (snd (gossipRumor p n))"
proof -
  show "aged k i (snd (peerEvent p n))"
    using assms(2) assms(1) [of p] unfolding peerEvent_def Let_def
    by simp (rule bind_post, assumption, intro keeps_intros log_keeps)
  let ?out = "p\<lparr>p_type := GOSSIP_EVENT, p_sender := (if p_sender p = [] then nodeId n else p_sender p),
    p_receiver := (if p_receiver p = [] then ''*'' else p_receiver p)\<rparr>"
  have "aged k i (snd (noteEvent (eventIdFromPacket p) ?out n))" by (rule assms(1)) (simp add: eventIdFromPacket_def)
  moreover have "gossipRumor p n = bindM (noteEvent (eventIdFromPacket p) ?out) (\<lambda>fresh. whenM fresh
      (thenM (applyEvent ?out) (bindM (getsM peerSocketsLocked) (\<lambda>fds. gossipSend_all fds ?out)))) n"
    using assms(2) by (simp add: gossipRumor_def Let_def bindM_run [of "getsM nodeId"])
  ultimately show "aged k i (snd (gossipRumor p n))"
    by (simp only:) (rule bind_post, assumption, intro keeps_intros log_keeps)
qed

text \<open>What may reach the gossip manager: an event of the node itself, or a packet on a peer connection
  (registered or not).\<close>

definition gossip_in :: "packet + SOCKET \<times> bool \<times> packet \<Rightarrow> (node, unit) mon" where
  "gossip_in x = (case x of Inl e \<Rightarrow> gossipRumor e | Inr (fd, reg, q) \<Rightarrow> ignoreM (peerPacket fd reg q))"

lemma keeps_aged_others:
  "p_type q \<noteq> GOSSIP_EVENT \<Longrightarrow> keeps (aged k i) (peerPacket fd reg q)"
  by (cases "p_type q"; simp only: peerPacket_def packetType.case; intro keeps_intros log_keeps; simp)

lemma aged_step:
  assumes "aged k i n" and "Suc k < MAX_EVENT_LOG"
  shows "aged (Suc k) i (snd (gossip_in x n))"
proof -
  have ev: "aged (Suc k) i (snd (peerEvent p n)) \<and> aged (Suc k) i (snd (gossipRumor p n))" for p
  proof (cases "eventIdFromPacket p = []")
    case True
    then show ?thesis using aged_later [OF assms(1)] by (simp add: peerEvent_def gossipRumor_def)
  next
    case False
    have "aged (Suc k) i (snd (noteEvent (eventIdFromPacket p) out n))" if "eventIdFromPacket out = eventIdFromPacket p" for out
      using False that by (intro aged_note [OF assms]) simp_all
    then show ?thesis using False by (intro conjI events_aged)
  qed
  show ?thesis
  proof (cases x)
    case (Inl e)
    then show ?thesis using ev by (simp add: gossip_in_def)
  next
    case (Inr y)
    obtain fd reg q where y: "y = (fd, reg, q)" by (cases y)
    have "aged (Suc k) i (snd (peerPacket fd reg q n))"
    proof (cases "p_type q = GOSSIP_EVENT")
      case True
      have "aged (Suc k) i (snd (whenM reg (peerEvent q) n))" using ev aged_later [OF assms(1)] by (cases reg) simp_all
      then show ?thesis using True unfolding peerPacket_def thenM_def
        by simp (rule bind_post, assumption, intro keeps_intros)
    next
      case False
      then show ?thesis using keepsD [OF keeps_aged_others aged_later [OF assms(1)]] by blast
    qed
    then show ?thesis using Inr y unfolding gossip_in_def ignoreM_def thenM_def
      by simp (rule bind_post, assumption, intro keeps_intros)
  qed
qed

lemma aged_run: "aged k i n \<Longrightarrow> k + length xs < MAX_EVENT_LOG \<Longrightarrow> aged (k + length xs) i (run_all gossip_in xs n)"
proof (induction xs arbitrary: n k)
  case (Cons x xs)
  then show ?case using aged_step [of k i n x] Cons.IH [of "Suc k" "snd (gossip_in x n)"] by simp
qed simp

lemma seen_event_ignored:
  "eventIdFromPacket p \<in> set (seenEvents n) \<Longrightarrow> peerEvent p n = (Inr (), n) \<and> gossipRumor p n = (Inr (), n)"
  by (simp add: peerEvent_def gossipRumor_def Let_def bindM_run noteEvent_def)

text \<open>C15: an event that arrives again is not applied again, for the next 255 events: let a node accept an
  event (from a peer, or one of its own) and then take up to 255 further inputs of the gossip manager,
  events of its own and packets of any peers; then the first event once more, from any peer or from the
  node itself, changes nothing and is not sent on. (After 256 other events the id is forgotten and the
  event would be applied again.)\<close>

theorem events_applied_once:
  assumes reach: "reach enabled (node_exec A) (booted c) n" and ident: "eventIdFromPacket p \<noteq> []"
    and fresh: "eventIdFromPacket p \<notin> set (seenEvents n)" and few: "length xs < 256"
    and run: "peerEvent p n = (Inr (), n') \<or> gossipRumor p n = (Inr (), n')"
    and m: "m = run_all gossip_in xs n'" and again: "eventIdFromPacket q = eventIdFromPacket p"
  shows "peerEvent q m = (Inr (), m) \<and> gossipRumor q m = (Inr (), m)"
proof -
  have log: "log_inv n" using log.reach_inv [OF reach log_inv_booted] .
  have "aged 0 (eventIdFromPacket p) (snd (noteEvent (eventIdFromPacket p) out n))"
    if "eventIdFromPacket out = eventIdFromPacket p" for out using that ident by (intro aged_new [OF log fresh]) simp_all
  then have "aged 0 (eventIdFromPacket p) n'" using events_aged [of p 0 _ n] run ident by (metis snd_conv)
  then have "aged (0 + length xs) (eventIdFromPacket p) m"
    unfolding m using few by (intro aged_run) (simp_all add: MAX_EVENT_LOG_def)
  then show ?thesis using seen_event_ignored [of q m] aged_seen again by simp
qed

text \<open>The witness: a note arrives, 255 other packets follow, and the note comes again from another peer.\<close>

theorem events_applied_once_witness:
  "\<exists>n'. peerEvent note_packet (booted default_config) = (Inr (), n') \<and>
    (let m = run_all gossip_in (replicate 255 (Inr (7, True, mkPacket 0 ''node3'' ''*'' GOSSIP_DIGEST [] [] 0))) n' in
     peerEvent (note_packet\<lparr>p_sender := ''node3''\<rparr>) m = (Inr (), m))"
proof -
  have e: "eventIdFromPacket note_packet = ''e1''"
    using eventId_decode [OF note_payload_fields] by (simp add: eventIdFromPacket_def note_packet_def mkPacket_def)
  have e': "eventIdFromPacket (note_packet\<lparr>p_sender := ''node3''\<rparr>) = eventIdFromPacket note_packet" by (simp add: eventIdFromPacket_def)
  obtain n' where n': "peerEvent note_packet (booted default_config) = (Inr (), n')"
    using safeD [OF safe_peer_steps(2) booted_ok] by force
  have fresh: "eventIdFromPacket note_packet \<notin> set (seenEvents (booted default_config))" by (simp add: booted_eq fresh_node_def)
  have "length (replicate 255 x) < (256 :: nat)" for x :: "packet + SOCKET \<times> bool \<times> packet" by simp
  from events_applied_once [OF reach_start _ fresh this disjI1 [OF n'] refl e'] n' e show ?thesis by (auto simp: Let_def)
qed

end
