(* ===== verification/Web_Frames.thy ===== *)
theory Web_Frames
  imports Socket_IO
begin

unbundle bit_operations_syntax

text \<open>
  The protocol half of src/server/web_connection.cpp: SHA-1 and base64 for the accept key, the HTTP
  upgrade request, WebSocket frames, and \<open>SocketBuffer\<close>, which reads the HTTP head and the frames from
  one socket. A socket is the list of chunks \<open>Socket_IO\<close> introduces.
\<close>

section \<open>SHA-1 and base64\<close>

definition kWebsocketGuid :: string where
  "kWebsocketGuid = ''258EAFA5-E914-47DA-95CA-C5AB0DC85B11''"

definition kMaxHttpHeaderBytes :: nat where "kMaxHttpHeaderBytes = 8192"

definition rol :: "u32 \<Rightarrow> nat \<Rightarrow> u32" where
  "rol val bits = push_bit bits val OR drop_bit (32 - bits) val"

function pad_zeros :: "u8 list \<Rightarrow> u8 list" where
  "pad_zeros message = (if length message mod 64 \<noteq> 56 then pad_zeros (message @ [0]) else message)"
  by pat_completeness auto
termination
proof (relation "measure (\<lambda>message. (120 - length message mod 64) mod 64)", simp)
  fix message :: "u8 list"
  assume r: "length message mod 64 \<noteq> 56"
  have left: "(120 - k) mod 64 = (if k \<le> 56 then 56 - k else 120 - k)" if "k < 64" for k :: nat
    using that by (auto simp: le_mod_geq)
  have "length message mod 64 < 64" by simp
  with r show "(message @ [0], message) \<in> measure (\<lambda>message. (120 - length message mod 64) mod 64)"
    by (auto simp: left mod_Suc)
qed

declare pad_zeros.simps [simp del]

definition sha1_message :: "string \<Rightarrow> u8 list" where
  "sha1_message input =
     (let bitLength = of_nat (length input) * 8 :: u64
      in pad_zeros (map of_char input @ [0x80]) @
           map (\<lambda>shift. ucast (drop_bit shift bitLength AND 0xFF)) [56, 48, 40, 32, 24, 16, 8, 0])"

text \<open>The 80 words of the block at \<open>offset\<close>.\<close>

definition sha1_words :: "u8 list \<Rightarrow> nat \<Rightarrow> u32 list" where
  "sha1_words message offset =
     foldl (\<lambda>ws i. ws @ [rol (ws ! (i - 3) XOR ws ! (i - 8) XOR ws ! (i - 14) XOR ws ! (i - 16)) 1])
       (map (\<lambda>i. let a = offset + i * 4 in
           push_bit 24 (ucast (message ! a)) OR push_bit 16 (ucast (message ! (a + 1))) OR
           push_bit 8 (ucast (message ! (a + 2))) OR ucast (message ! (a + 3))) [0..<16])
       [16..<80]"

type_synonym sha1_state = "u32 \<times> u32 \<times> u32 \<times> u32 \<times> u32"

definition sha1_round :: "u32 list \<Rightarrow> sha1_state \<Rightarrow> nat \<Rightarrow> sha1_state" where
  "sha1_round ws s i =
     (case s of (a, b, c, d, e) \<Rightarrow>
       let (f, k) =
             (if i < 20 then ((b AND c) OR ((NOT b) AND d), 0x5A827999)
              else if i < 40 then (b XOR c XOR d, 0x6ED9EBA1)
              else if i < 60 then ((b AND c) OR (b AND d) OR (c AND d), 0x8F1BBCDC)
              else (b XOR c XOR d, 0xCA62C1D6));
           temp = rol a 5 + f + e + k + ws ! i
       in (temp, a, rol b 30, c, d))"

definition sha1_block :: "u8 list \<Rightarrow> sha1_state \<Rightarrow> nat \<Rightarrow> sha1_state" where
  "sha1_block message h offset =
     (case h of (h0, h1, h2, h3, h4) \<Rightarrow>
      case foldl (sha1_round (sha1_words message offset)) h [0..<80] of
        (a, b, c, d, e) \<Rightarrow> (h0 + a, h1 + b, h2 + c, h3 + d, h4 + e))"

definition sha1 :: "string \<Rightarrow> u8 list" where
  "sha1 input =
     (let message = sha1_message input;
          h = foldl (sha1_block message) (0x67452301, 0xEFCDAB89, 0x98BADCFE, 0x10325476, 0xC3D2E1F0)
                (map (\<lambda>k. 64 * k) [0..<(length message + 63) div 64])
      in case h of (h0, h1, h2, h3, h4) \<Rightarrow>
        concat (map (\<lambda>v. [ucast (drop_bit 24 v AND 0xFF), ucast (drop_bit 16 v AND 0xFF),
                           ucast (drop_bit 8 v AND 0xFF), ucast (v AND 0xFF)]) [h0, h1, h2, h3, h4]))"

definition kTable :: string where
  "kTable = ''ABCDEFGHIJKLMNOPQRSTUVWXYZabcdefghijklmnopqrstuvwxyz0123456789+/''"

text \<open>One turn of the loop of \<open>base64\<close> per pattern: three bytes, or the two or one that are left.\<close>

fun base64 :: "u8 list \<Rightarrow> string" where
  "base64 [] = []"
| "base64 [b0] =
     (let triple = push_bit 16 (ucast b0) :: u32
      in [kTable ! unat (drop_bit 18 triple AND 63), kTable ! unat (drop_bit 12 triple AND 63), CHR ''='', CHR ''=''])"
| "base64 [b0, b1] =
     (let triple = push_bit 16 (ucast b0) OR push_bit 8 (ucast b1) :: u32
      in [kTable ! unat (drop_bit 18 triple AND 63), kTable ! unat (drop_bit 12 triple AND 63),
          kTable ! unat (drop_bit 6 triple AND 63), CHR ''=''])"
| "base64 (b0 # b1 # b2 # rest) =
     (let triple = push_bit 16 (ucast b0) OR push_bit 8 (ucast b1) OR ucast b2 :: u32
      in [kTable ! unat (drop_bit 18 triple AND 63), kTable ! unat (drop_bit 12 triple AND 63),
          kTable ! unat (drop_bit 6 triple AND 63), kTable ! unat (triple AND 63)] @ base64 rest)"

definition acceptValue :: "string \<Rightarrow> string" where
  "acceptValue clientKey = base64 (sha1 (clientKey @ kWebsocketGuid))"

section \<open>The upgrade request\<close>

text \<open>\<open>std::tolower\<close> in the C locale.\<close>

definition lower_char :: "char \<Rightarrow> char" where
  "lower_char c = (if (65 :: nat) \<le> of_char c \<and> (of_char c :: nat) \<le> 90 then char_of ((of_char c :: nat) + 32) else c)"

definition lowerCopy :: "string \<Rightarrow> string" where
  "lowerCopy text = map lower_char text"

definition blank :: "char \<Rightarrow> bool" where
  "blank c \<longleftrightarrow> c = CHR '' '' \<or> c = CHR 0x09"

definition trim :: "string \<Rightarrow> string" where
  "trim text = rev (dropWhile blank (rev (dropWhile blank text)))"

text \<open>\<open>std::string::find\<close> of a string.\<close>

fun find_str :: "string \<Rightarrow> string \<Rightarrow> nat option" where
  "find_str p s =
     (if starts_with p s then Some 0
      else case s of [] \<Rightarrow> None | _ # r \<Rightarrow> map_option Suc (find_str p r))"

declare find_str.simps [simp del]

definition headerContains :: "string \<Rightarrow> string \<Rightarrow> bool" where
  "headerContains val token \<longleftrightarrow> find_str (lowerCopy token) (lowerCopy val) \<noteq> None"

definition CRLF :: string where "CRLF = [CHR 0x0D, CHR 0x0A]"

record upgrade =
  up_key :: string
  up_version :: string
  up_upgrade :: bool
  up_connection :: bool

definition header_line :: "string \<Rightarrow> upgrade \<Rightarrow> upgrade" where
  "header_line line u =
     (case find_char (CHR '':'') line of
        None \<Rightarrow> u
      | Some colon \<Rightarrow>
          (let name = lowerCopy (trim (take colon line)); val = trim (drop (colon + 1) line)
           in if name = ''upgrade'' then u\<lparr>up_upgrade := headerContains val ''websocket''\<rparr>
              else if name = ''connection'' then u\<lparr>up_connection := headerContains val ''upgrade''\<rparr>
              else if name = ''sec-websocket-key'' then u\<lparr>up_key := val\<rparr>
              else if name = ''sec-websocket-version'' then u\<lparr>up_version := val\<rparr>
              else u))"

text \<open>The header loop from \<open>cursor\<close> on, that is over the rest of the head.\<close>

function header_lines :: "string \<Rightarrow> upgrade \<Rightarrow> upgrade" where
  "header_lines rest u =
     (if rest = [] then u
      else case find_str CRLF rest of
        None \<Rightarrow> header_line rest u
      | Some i \<Rightarrow> header_lines (drop (i + 2) rest) (header_line (take i rest) u))"
  by pat_completeness auto
termination by (relation "measure (\<lambda>(rest, u). length rest)") auto

declare header_lines.simps [simp del]

definition upgradeResponse :: "string \<Rightarrow> string" where
  "upgradeResponse httpRequest =
     (case find_str (CRLF @ CRLF) httpRequest of
        None \<Rightarrow> []
      | Some end' \<Rightarrow>
          (let head = take end' httpRequest;
               lineEnd = find_str CRLF head;
               requestLine = (case lineEnd of None \<Rightarrow> head | Some l \<Rightarrow> take l head)
           in if length requestLine < 4 \<or> take 4 requestLine \<noteq> ''GET '' then []
              else
                let u = header_lines (case lineEnd of None \<Rightarrow> [] | Some l \<Rightarrow> drop (l + 2) head)
                          \<lparr>up_key = [], up_version = [], up_upgrade = False, up_connection = False\<rparr>
                in if \<not> up_upgrade u \<or> \<not> up_connection u \<or> up_key u = [] \<or> up_version u \<noteq> ''13'' then []
                   else ''HTTP/1.1 101 Switching Protocols'' @ CRLF @ ''Upgrade: websocket'' @ CRLF @
                        ''Connection: Upgrade'' @ CRLF @ ''Sec-WebSocket-Accept: '' @ acceptValue (up_key u) @ CRLF @ CRLF))"

section \<open>Frames\<close>

datatype wsOpcode = Continuation | Text | Binary | Close | Ping | Pong

fun opcodeValue :: "wsOpcode \<Rightarrow> u8" where
  "opcodeValue Continuation = 0x0"
| "opcodeValue Text = 0x1"
| "opcodeValue Binary = 0x2"
| "opcodeValue Close = 0x8"
| "opcodeValue Ping = 0x9"
| "opcodeValue Pong = 0xA"

text \<open>The enumerators of the \<open>known\<close> test; a value that has none is not known either.\<close>

definition knownOpcode :: "u8 \<Rightarrow> wsOpcode option" where
  "knownOpcode v = find (\<lambda>opc. opcodeValue opc = v) [Text, Binary, Close, Ping, Pong]"

definition xor_char :: "char \<Rightarrow> char \<Rightarrow> char" where
  "xor_char a b = char_of (unat (of_char a XOR of_char b :: u8))"

definition mask_payload :: "string \<Rightarrow> string \<Rightarrow> string" where
  "mask_payload key payload = map (\<lambda>i. xor_char (payload ! i) (key ! (i mod 4))) [0..<length payload]"

definition encodeFrame :: "wsOpcode \<Rightarrow> string \<Rightarrow> bool \<Rightarrow> u32 \<Rightarrow> string" where
  "encodeFrame opcode payload masked maskKey =
     (let n = length payload; maskBit = (if masked then 0x80 else 0x00) :: u8; wide = of_nat n :: u64;
          first = char_of (unat (0x80 OR (opcodeValue opcode AND 0x0F)));
          len = (if n < 126 then [char_of (unat (maskBit OR of_nat n))]
                 else if n \<le> 65535 then
                   [char_of (unat (maskBit OR 126)), char_of (unat (drop_bit 8 wide AND 0xFF)), char_of (unat (wide AND 0xFF))]
                 else char_of (unat (maskBit OR 127)) #
                   map (\<lambda>shift. char_of (unat (drop_bit shift wide AND 0xFF))) [56, 48, 40, 32, 24, 16, 8, 0]);
          key = [char_of (unat (drop_bit 24 maskKey AND 0xFF)), char_of (unat (drop_bit 16 maskKey AND 0xFF)),
                  char_of (unat (drop_bit 8 maskKey AND 0xFF)), char_of (unat (maskKey AND 0xFF))]
      in if \<not> masked then first # len @ payload
         else first # len @ key @ mask_payload key payload)"

datatype frameStatus = FrameOk | FrameIncomplete | FrameError

record frameDecode =
  fd_status :: frameStatus
  fd_consumed :: nat
  fd_opcode :: wsOpcode
  fd_payload :: string

definition frameFailed :: "frameStatus \<Rightarrow> frameDecode" where
  "frameFailed st = \<lparr>fd_status = st, fd_consumed = 0, fd_opcode = Binary, fd_payload = []\<rparr>"

definition header_size :: "u8 \<Rightarrow> bool \<Rightarrow> nat" where
  "header_size lengthCode masked =
     2 + (if lengthCode = 126 then 2 else if lengthCode = 127 then 8 else 0) + (if masked then 4 else 0)"

text \<open>The length field: \<open>lengthCode\<close> itself or the two or eight bytes that follow.\<close>

definition payload_length :: "u8 \<Rightarrow> string \<Rightarrow> u64" where
  "payload_length lengthCode bytes =
     (if lengthCode = 126 then push_bit 8 (of_char (bytes ! 2)) OR of_char (bytes ! 3)
      else if lengthCode = 127 then
        foldl (\<lambda>acc i. push_bit 8 acc OR of_char (bytes ! (2 + i))) 0 [0..<8]
      else ucast lengthCode)"

definition decodeFrame :: "string \<Rightarrow> frameDecode" where
  "decodeFrame bytes =
     (if length bytes < 2 then frameFailed FrameIncomplete
      else
        let first = of_char (bytes ! 0) :: u8; second = of_char (bytes ! 1) :: u8 in
        if first AND 0x70 \<noteq> 0 \<or> first AND 0x80 = 0 then frameFailed FrameError
        else
          let control = (first AND 0x0F \<ge> 0x8) in
          case knownOpcode (first AND 0x0F) of
            None \<Rightarrow> frameFailed FrameError
          | Some opcode \<Rightarrow>
              let masked = (second AND 0x80 \<noteq> 0); lengthCode = second AND 0x7F;
                  header = header_size lengthCode masked in
              if length bytes < header then frameFailed FrameIncomplete
              else
                let payloadLength = payload_length lengthCode bytes in
                if lengthCode = 126 \<and> payloadLength < 126 then frameFailed FrameError
                else if lengthCode = 127 \<and> ((of_char (bytes ! 2) :: u8) AND 0x80 \<noteq> 0 \<or> payloadLength \<le> 65535)
                then frameFailed FrameError
                else if control \<and> payloadLength > 125 then frameFailed FrameError
                else if payloadLength > of_nat MAX_PAYLOAD_BYTES + 4 then frameFailed FrameError
                else
                  let total = header + unat payloadLength in
                  if length bytes < total then frameFailed FrameIncomplete
                  else
                    let payload = substr bytes header (unat payloadLength) in
                    \<lparr>fd_status = FrameOk, fd_consumed = total, fd_opcode = opcode,
                     fd_payload = (if masked then mask_payload (substr bytes (header - 4) 4) payload else payload)\<rparr>)"

section \<open>Reading from the socket\<close>

text \<open>\<open>SocketBuffer\<close>: the bytes read ahead and the socket.\<close>

record socketBuffer =
  pending :: string
  sb_socket :: chunks

text \<open>\<open>readHeaders\<close> asks for up to 1024 bytes at a time; every turn consumes part of the socket.\<close>

function readHeaders :: "nat \<Rightarrow> socketBuffer \<Rightarrow> (string \<times> socketBuffer) option" where
  "readHeaders maxBytes b =
     (case find_str (CRLF @ CRLF) (pending b) of
        Some i \<Rightarrow> Some (take (i + 4) (pending b), b\<lparr>pending := drop (i + 4) (pending b)\<rparr>)
      | None \<Rightarrow>
          if length (pending b) \<ge> maxBytes then None
          else case sock_recv 1024 (sb_socket b) of
            (got, rest) \<Rightarrow>
              if got = [] then None
              else if length (pending b @ got) > maxBytes then None
              else readHeaders maxBytes (b\<lparr>pending := pending b @ got, sb_socket := rest\<rparr>))"
  by pat_completeness auto
termination
  by (relation "measure (\<lambda>(maxBytes, b). maxBytes - length (pending b))") (auto simp: neq_Nil_conv)

declare readHeaders.simps [simp del]

text \<open>\<open>ensure\<close> reads up to 4096 bytes at a time until \<open>count\<close> are pending.\<close>

function ensure :: "nat \<Rightarrow> socketBuffer \<Rightarrow> bool \<times> socketBuffer" where
  "ensure count b =
     (if length (pending b) < count then
        (case sock_recv (min (count - length (pending b)) 4096) (sb_socket b) of
           (got, rest) \<Rightarrow>
             if got = [] then (False, b\<lparr>sb_socket := rest\<rparr>)
             else ensure count (b\<lparr>pending := pending b @ got, sb_socket := rest\<rparr>))
      else (True, b))"
  by pat_completeness auto
termination
  by (relation "measure (\<lambda>(count, b). count - length (pending b))") (auto simp: neq_Nil_conv)

declare ensure.simps [simp del]

definition readFrame :: "socketBuffer \<Rightarrow> frameDecode \<times> socketBuffer" where
  "readFrame b =
     (case ensure 2 b of (ok, b1) \<Rightarrow>
      if \<not> ok then (frameFailed FrameError, b1)
      else
        let second = of_char (pending b1 ! 1) :: u8; lengthCode = second AND 0x7F;
            masked = (second AND 0x80 \<noteq> 0); header = header_size lengthCode masked in
        case ensure header b1 of (ok, b2) \<Rightarrow>
        if \<not> ok then (frameFailed FrameError, b2)
        else
          let payloadLength = payload_length lengthCode (pending b2) in
          if payloadLength > of_nat MAX_PAYLOAD_BYTES + 4 then (frameFailed FrameError, b2)
          else
            let total = header + unat payloadLength in
            case ensure total b2 of (ok, b3) \<Rightarrow>
            if \<not> ok then (frameFailed FrameError, b3)
            else
              let decoded = decodeFrame (take total (pending b3)) in
              if fd_status decoded = FrameOk then
                let b4 = b3\<lparr>pending := drop (fd_consumed decoded) (pending b3)\<rparr> in
                if \<not> masked then (frameFailed FrameError, b4) else (decoded, b4)
              else (decoded, b3))"

section \<open>Reading consumes\<close>

lemma ensure_stream: "ensure count b = (ok, b') \<Longrightarrow> pending b' @ concat (sb_socket b') = pending b @ concat (sb_socket b)"
proof (induction count b rule: ensure.induct)
  case (1 count b)
  obtain got rest where r: "sock_recv (min (count - length (pending b)) 4096) (sb_socket b) = (got, rest)" by fastforce
  show ?case
  proof (cases "length (pending b) < count \<and> got \<noteq> []")
    case True
    then have "ensure count b = ensure count (b\<lparr>pending := pending b @ got, sb_socket := rest\<rparr>)"
      using r by (subst ensure.simps) simp
    then show ?thesis using "1.IH" [OF _ r [symmetric]] True "1.prems" sock_recv_concat [OF r] by simp
  next
    case False
    then show ?thesis using "1.prems" sock_recv_concat [OF r] r by (subst (asm) ensure.simps) (auto split: if_splits)
  qed
qed

lemma ensure_enough: "ensure count b = (True, b') \<Longrightarrow> count \<le> length (pending b')"
proof (induction count b rule: ensure.induct)
  case (1 count b)
  then show ?case by (subst (asm) (2) ensure.simps) (auto split: if_splits prod.splits)
qed

lemma decoded_consumed: "fd_status (decodeFrame bytes) = FrameOk \<Longrightarrow> 2 \<le> fd_consumed (decodeFrame bytes)"
  by (auto simp: decodeFrame_def frameFailed_def Let_def header_size_def split: if_splits option.splits)

lemma decoded_within: "fd_status (decodeFrame bytes) = FrameOk \<Longrightarrow> fd_consumed (decodeFrame bytes) \<le> length bytes"
  by (auto simp: decodeFrame_def frameFailed_def Let_def header_size_def split: if_splits option.splits)

lemma readFrame_consumes:
  assumes "readFrame b = (frame, b')" and "fd_status frame = FrameOk"
  shows "length (pending b' @ concat (sb_socket b')) < length (pending b @ concat (sb_socket b))"
proof -
  obtain b1 b2 b3 c1 c2 where e: "ensure 2 b = (True, b1)" "ensure c1 b1 = (True, b2)" "ensure c2 b2 = (True, b3)"
    and f: "frame = decodeFrame (take c2 (pending b3))" "b' = b3\<lparr>pending := drop (fd_consumed frame) (pending b3)\<rparr>"
    using assms by (auto simp: readFrame_def frameFailed_def Let_def split: prod.splits if_splits)
  have same: "pending b3 @ concat (sb_socket b3) = pending b @ concat (sb_socket b)"
    using ensure_stream [OF e(1)] ensure_stream [OF e(2)] ensure_stream [OF e(3)] by simp
  have "2 \<le> fd_consumed frame" "fd_consumed frame \<le> length (pending b3)"
    using decoded_consumed [of "take c2 (pending b3)"] decoded_within [of "take c2 (pending b3)"] assms(2) f(1) by auto
  then have "length (pending b' @ concat (sb_socket b')) < length (pending b3 @ concat (sb_socket b3))" by (simp add: f(2))
  then show ?thesis unfolding same .
qed

end
