(* ===== verification/Web_Theorems.thy ===== *)
theory Web_Theorems
  imports Web_Frames
begin

unbundle bit_operations_syntax

text \<open>
  WebSocket frames: \<open>decodeFrame\<close> accepts exactly what \<open>encodeFrame\<close> prints, and \<open>readFrame\<close> finds the
  frames of a browser in the byte stream however it is cut.
\<close>

section \<open>Big-endian lengths\<close>

definition be_byte :: "u64 \<Rightarrow> nat \<Rightarrow> char" where
  "be_byte w k = char_of (unat (drop_bit k w AND 0xFF))"

fun be_bytes :: "nat \<Rightarrow> u64 \<Rightarrow> string" where
  "be_bytes 0 w = []"
| "be_bytes (Suc m) w = be_bytes m (drop_bit 8 w) @ [be_byte w 0]"

definition be_value :: "string \<Rightarrow> u64" where
  "be_value cs = foldl (\<lambda>acc c. push_bit 8 acc OR of_char c) 0 cs"

lemma be_value_snoc: "be_value (cs @ [c]) = push_bit 8 (be_value cs) OR of_char c"
  by (simp add: be_value_def)

lemma low_byte: "(of_char (be_byte w k) :: u64) = drop_bit k w AND 0xFF"
proof -
  have "unat (drop_bit k w AND 0xFF) < 256"
    using word_and_le1 [of "drop_bit k w" "0xFF"] by (simp add: word_le_nat_alt)
  then show ?thesis by (simp add: be_byte_def of_char_char_of_nat)
qed

lemma join_byte: "push_bit 8 (drop_bit 8 w) OR (w AND 0xFF) = (w :: u64)"
  by (rule bit_word_eqI) (auto simp: u8_eq_mask bit_split)

lemma be_value_bytes: "drop_bit (8 * m) w = 0 \<Longrightarrow> be_value (be_bytes m w) = w"
proof (induction m arbitrary: w)
  case (Suc m)
  have "drop_bit (8 * m) (drop_bit 8 w) = 0" using Suc.prems by (simp add: add.commute)
  then show ?case using Suc.IH by (simp add: be_value_snoc low_byte join_byte)
qed (simp add: be_value_def)

lemma char_bit: "8 \<le> n \<Longrightarrow> \<not> bit (of_char c :: u64) n"
  by (rule bit_of_char_word) simp_all

lemma char_bit_less: "bit (of_char c :: u64) n \<Longrightarrow> n < 8"
  using char_bit by (meson not_le)

lemma split_byte:
  assumes "drop_bit 56 a = 0"
  shows "drop_bit 8 (push_bit 8 a OR of_char c :: u64) = a" "(push_bit 8 a OR of_char c :: u64) AND 0xFF = of_char c"
proof -
  have "\<not> bit a n" if "56 \<le> n" for n
    using arg_cong [OF assms, of "\<lambda>w. bit w (n - 56)"] that by (simp add: bit_drop_bit_eq)
  then show "drop_bit 8 (push_bit 8 a OR of_char c :: u64) = a"
    by (intro bit_word_eqI) (auto simp: bit_split char_bit not_le [symmetric])
  show "(push_bit 8 a OR of_char c :: u64) AND 0xFF = of_char c"
    by (rule bit_word_eqI) (auto simp: u8_eq_mask bit_split dest: char_bit_less)
qed

lemma be_value_bit: "bit (be_value cs) n \<Longrightarrow> n < 8 * length cs"
proof (induction cs arbitrary: n rule: rev_induct)
  case (snoc c cs)
  from snoc.prems consider "8 \<le> n" "bit (be_value cs) (n - 8)" | "bit (of_char c :: u64) n"
    by (auto simp: be_value_snoc bit_split)
  then show ?case
  proof cases
    case 1
    then show ?thesis using snoc.IH [of "n - 8"] by simp
  next
    case 2
    then have "n < 8" using char_bit [of n c] by (meson not_le)
    then show ?thesis by simp
  qed
qed (simp add: be_value_def)

lemma be_value_bound: "drop_bit (8 * length cs) (be_value cs) = 0"
proof (rule bit_word_eqI)
  fix n
  have "\<not> bit (be_value cs) (8 * length cs + n)" using be_value_bit by fastforce
  then show "bit (drop_bit (8 * length cs) (be_value cs)) n = bit 0 n" by (simp add: bit_drop_bit_eq)
qed

lemma be_bytes_value: "length cs \<le> 8 \<Longrightarrow> be_bytes (length cs) (be_value cs) = cs"
proof (induction cs rule: rev_induct)
  case (snoc c cs)
  have "drop_bit (8 * length cs) (be_value cs) = 0" by (rule be_value_bound)
  moreover have "drop_bit 56 w = 0" if "drop_bit (8 * length cs) w = 0" for w :: u64
  proof -
    have "drop_bit 56 w = drop_bit (56 - 8 * length cs) (drop_bit (8 * length cs) w)"
      using snoc.prems by simp
    then show ?thesis using that by simp
  qed
  ultimately have "drop_bit 56 (be_value cs) = 0" by blast
  note split = split_byte [OF this, of c]
  then show ?case using snoc by (simp add: be_value_snoc be_byte_def char_of_unat_word del: drop_bit_or)
qed (simp add: be_value_def)

section \<open>The parts of a frame\<close>

definition first_byte :: "wsOpcode \<Rightarrow> char" where
  "first_byte opc = char_of (unat (0x80 OR (opcodeValue opc AND 0x0F)))"

definition second_byte :: "bool \<Rightarrow> u8 \<Rightarrow> char" where
  "second_byte masked code = char_of (unat ((if masked then 0x80 else 0x00) OR code))"

definition len_code :: "nat \<Rightarrow> u8" where
  "len_code n = (if n < 126 then of_nat n else if n \<le> 65535 then 126 else 127)"

definition len_bytes :: "nat \<Rightarrow> string" where
  "len_bytes n = (if n < 126 then [] else be_bytes (if n \<le> 65535 then 2 else 8) (of_nat n))"

definition key_bytes :: "bool \<Rightarrow> u32 \<Rightarrow> string" where
  "key_bytes masked key = (if masked then put_u32 key else [])"

definition body_bytes :: "bool \<Rightarrow> u32 \<Rightarrow> string \<Rightarrow> string" where
  "body_bytes masked key payload = (if masked then mask_payload (put_u32 key) payload else payload)"

lemma eval_be_bytes:
  "be_bytes 2 w = [be_byte w 8, be_byte w 0]"
  "be_bytes 8 w = [be_byte w 56, be_byte w 48, be_byte w 40, be_byte w 32, be_byte w 24, be_byte w 16, be_byte w 8, be_byte w 0]"
  by (simp_all add: eval_nat_numeral be_byte_def)

lemma encodeFrame_parts:
  "encodeFrame opc payload masked key = first_byte opc # second_byte masked (len_code (length payload)) #
     len_bytes (length payload) @ key_bytes masked key @ body_bytes masked key payload"
  by (simp add: encodeFrame_def Let_def first_byte_def second_byte_def len_code_def len_bytes_def key_bytes_def body_bytes_def
      eval_be_bytes be_byte_def put_u32_def u32_byte_def)

lemma u8_of_char [simp]: "(of_char (char_of (unat w)) :: u8) = w"
proof -
  have "unat w < 2 ^ LENGTH(8)" by (rule unsigned_less)
  then show ?thesis by (simp add: of_char_char_of_nat)
qed

lemma u8_first_byte: "(of_char (first_byte opc) :: u8) = 0x80 OR (opcodeValue opc AND 0x0F)"
  by (simp only: first_byte_def u8_of_char)

lemma u8_second_byte: "(of_char (second_byte masked code) :: u8) = (if masked then 0x80 else 0x00) OR code"
  by (simp only: second_byte_def u8_of_char)

lemma first_byte_simps [simp]:
  "(of_char (first_byte opc) :: u8) AND 0x70 = 0" "(of_char (first_byte opc) :: u8) AND 0x80 \<noteq> 0"
  "(of_char (first_byte opc) :: u8) AND 0x0F = opcodeValue opc"
  unfolding u8_first_byte by (cases opc; simp)+

lemma second_byte_simps [simp]:
  assumes "code AND 0x7F = code"
  shows "(of_char (second_byte masked code) :: u8) AND 0x80 \<noteq> 0 \<longleftrightarrow> masked" "(of_char (second_byte masked code) :: u8) AND 0x7F = code"
proof -
  have "code AND 0x80 = code AND (0x7F AND 0x80)" by (subst assms [symmetric]) (simp only: and.assoc)
  then have "code AND 0x80 = 0" by simp
  then show "(of_char (second_byte masked code) :: u8) AND 0x80 \<noteq> 0 \<longleftrightarrow> masked" "(of_char (second_byte masked code) :: u8) AND 0x7F = code"
    using assms unfolding u8_second_byte by (simp_all add: bit.conj_disj_distrib2)
qed

lemma knownOpcode_value: "knownOpcode v = Some opc \<longleftrightarrow> opc \<noteq> Continuation \<and> v = opcodeValue opc"
  by (cases opc) (auto simp: knownOpcode_def)

section \<open>Lengths\<close>

abbreviation frame_max :: nat where "frame_max \<equiv> MAX_PAYLOAD_BYTES + 4"

definition extra :: "u8 \<Rightarrow> nat" where
  "extra code = (if code = 126 then 2 else if code = 127 then 8 else 0)"

lemma payload_length_parts:
  assumes "length lb = extra code"
  shows "payload_length code (b0 # b1 # lb @ r) = (if extra code = 0 then ucast code else be_value lb)"
proof -
  have "foldl (\<lambda>acc i. push_bit 8 acc OR of_char ((b0 # b1 # lb @ r) ! (2 + i))) 0 [0..<8] = be_value lb" if "length lb = 8"
  proof -
    have lb: "map (\<lambda>i. (b0 # b1 # lb @ r) ! (2 + i)) [0..<8] = lb"
      using that by (intro nth_equalityI) (simp_all add: nth_append)
    have "foldl (\<lambda>acc i. push_bit 8 acc OR of_char (f i)) 0 xs = be_value (map f xs)" for f and xs :: "nat list"
      by (simp only: be_value_def foldl_map)
    from this [of "\<lambda>i. (b0 # b1 # lb @ r) ! (2 + i)" "[0..<8]"] show ?thesis unfolding lb .
  qed
  moreover have "\<exists>x y. lb = [x, y]" if "length lb = 2" using that by (auto simp: length_Suc_conv numeral_eq_Suc)
  ultimately show ?thesis
    using assms by (auto simp: payload_length_def extra_def be_value_def split: if_splits)
qed

lemma unat_small: "n \<le> frame_max \<Longrightarrow> unat (of_nat n :: u64) = n"
  by (simp add: unat_of_nat MAX_PAYLOAD_BYTES_def)

lemma u64_max: "unat (of_nat MAX_PAYLOAD_BYTES + 4 :: u64) = frame_max"
  by (simp add: MAX_PAYLOAD_BYTES_def)

lemma length_be_bytes [simp]: "length (be_bytes m w) = m"
  by (induction m arbitrary: w) auto

lemma drop_small:
  assumes "n < 2 ^ k" and "n \<le> frame_max"
  shows "drop_bit k (of_nat n :: u64) = 0"
proof -
  have "unat (drop_bit k (of_nat n :: u64)) = drop_bit k (take_bit LENGTH(64) (unat (of_nat n :: u64)))"
    by (rule unsigned_drop_bit_eq)
  also have "\<dots> = drop_bit k (take_bit LENGTH(64) n)" by (simp only: unat_small [OF assms(2)])
  also have "\<dots> = 0" using assms by (simp add: take_bit_nat_eq_self MAX_PAYLOAD_BYTES_def drop_bit_eq_div)
  finally show ?thesis by (simp only: unsigned_eq_0_iff)
qed

lemma u8_small:
  assumes "n < 126"
  shows "of_nat n AND 0x7F = (of_nat n :: u8)" "(of_nat n :: u8) \<noteq> 126" "(of_nat n :: u8) \<noteq> 127" "(ucast (of_nat n :: u8) :: u64) = of_nat n"
proof -
  have "(0x7F :: u8) = mask 7" by (simp add: mask_eq_exp_minus_1)
  moreover have "take_bit 7 (of_nat n :: u8) = of_nat (take_bit 7 n)" by (simp only: of_nat_take_bit)
  moreover have "take_bit 7 n = n" using assms by (simp add: take_bit_nat_eq_self)
  ultimately show "of_nat n AND 0x7F = (of_nat n :: u8)" by (simp only: take_bit_eq_mask)
  have u: "unat (of_nat n :: u8) = n" using assms by (simp add: unat_of_nat)
  then show "(of_nat n :: u8) \<noteq> 126" "(of_nat n :: u8) \<noteq> 127" using assms by (auto simp: word_unat_eq_iff)
  show "(ucast (of_nat n :: u8) :: u64) = of_nat n" using u by (metis of_nat_unat)
qed

lemma len_code_simps:
  "len_code n AND 0x7F = len_code n" "extra (len_code n) = length (len_bytes n)"
  by (auto simp: len_code_def len_bytes_def extra_def u8_small)

lemma payload_length_len:
  assumes "n \<le> frame_max"
  shows "payload_length (len_code n) (b0 # b1 # len_bytes n @ r) = of_nat n"
proof (cases "n < 126")
  case True
  then show ?thesis by (simp add: payload_length_parts len_code_simps) (simp add: len_bytes_def len_code_def u8_small)
next
  case False
  have "be_value (len_bytes n) = of_nat n"
    using False assms by (auto simp: len_bytes_def MAX_PAYLOAD_BYTES_def intro!: be_value_bytes drop_small)
  moreover have "len_bytes n \<noteq> []" using False by (auto simp: len_bytes_def eval_be_bytes)
  ultimately show ?thesis by (simp add: payload_length_parts len_code_simps)
qed

section \<open>Masking\<close>

lemma xor_char_twice: "xor_char (xor_char a b) b = a"
  by (simp add: xor_char_def xor.assoc char_of_unat_word)

lemma mask_payload_twice: "mask_payload k (mask_payload k p) = p"
  by (intro nth_equalityI) (simp_all add: mask_payload_def xor_char_twice)

lemma length_mask_payload [simp]: "length (mask_payload k p) = length p"
  by (simp add: mask_payload_def)

lemma length_body [simp]: "length (body_bytes masked key p) = length p"
  by (simp add: body_bytes_def)

section \<open>Printing and reading a frame\<close>

text \<open>The frames the decoder accepts: no continuation, at most a packet long, control frames short.\<close>

definition frame_ok :: "wsOpcode \<Rightarrow> string \<Rightarrow> bool" where
  "frame_ok opc payload \<longleftrightarrow> opc \<noteq> Continuation \<and> length payload \<le> frame_max \<and>
     (opc \<in> {Close, Ping, Pong} \<longrightarrow> length payload \<le> 125)"

lemma control_opcode: "opcodeValue opc \<ge> 8 \<longleftrightarrow> opc \<in> {Close, Ping, Pong}"
  by (cases opc) (simp_all add: word_le_nat_alt)

lemma u64_lengths:
  assumes "n \<le> frame_max"
  shows "(of_nat n :: u64) < 126 \<longleftrightarrow> n < 126" "(of_nat n :: u64) \<le> 65535 \<longleftrightarrow> n \<le> 65535" "(of_nat n :: u64) > 125 \<longleftrightarrow> n > 125"
    "\<not> (of_nat n :: u64) > of_nat MAX_PAYLOAD_BYTES + 4"
  using assms by (simp_all add: word_less_nat_alt word_le_nat_alt unat_small u64_max)

lemma high_length_byte:
  assumes "65535 < n" and "n \<le> frame_max"
  shows "(of_char (len_bytes n ! 0) :: u8) AND 0x80 = 0"
proof -
  have "drop_bit 56 (of_nat n :: u64) = 0" using assms by (intro drop_small) (simp_all add: MAX_PAYLOAD_BYTES_def)
  moreover have "(of_char (char_of (0 :: nat)) :: u8) = 0" using u8_of_char [of 0] by (simp only: unsigned_0)
  ultimately show ?thesis using assms(1) by (simp add: len_bytes_def eval_be_bytes be_byte_def)
qed

lemma header_size_extra: "header_size code masked = 2 + extra code + (if masked then 4 else 0)"
  by (simp add: header_size_def extra_def)

lemma decode_encodeFrame:
  assumes ok: "frame_ok opc payload"
  shows "decodeFrame (encodeFrame opc payload masked key @ r) =
    \<lparr>fd_status = FrameOk, fd_consumed = length (encodeFrame opc payload masked key), fd_opcode = opc, fd_payload = payload\<rparr>"
proof -
  let ?n = "length payload"
  let ?t = "key_bytes masked key @ body_bytes masked key payload @ r"
  let ?bytes = "first_byte opc # second_byte masked (len_code ?n) # len_bytes ?n @ ?t"
  have n: "?n \<le> frame_max" using ok by (simp add: frame_ok_def)
  have key: "length (key_bytes masked key) = (if masked then 4 else 0)" by (simp add: key_bytes_def)
  note len = u64_lengths [OF n] payload_length_len [OF n]
  have code: "len_code ?n = 126 \<Longrightarrow> \<not> ?n < 126" "len_code ?n = 127 \<Longrightarrow> 65535 < ?n"
    by (auto simp: len_code_def u8_small split: if_splits)
  have "len_code ?n = 127 \<Longrightarrow> (of_char (?bytes ! 2) :: u8) AND 0x80 = 0"
    using high_length_byte [OF _ n] code(2) by (simp add: nth_append) (auto simp: len_bytes_def eval_be_bytes)
  moreover have "knownOpcode (opcodeValue opc) = Some opc" using ok by (simp add: knownOpcode_value frame_ok_def)
  moreover have "substr ?bytes (2 + length (len_bytes ?n)) (length (key_bytes masked key)) = key_bytes masked key"
    "substr ?bytes (2 + length (len_bytes ?n) + length (key_bytes masked key)) ?n = body_bytes masked key payload"
    by (simp_all add: substr_def)
  moreover have "opcodeValue opc \<ge> 8 \<Longrightarrow> ?n \<le> 125" using ok by (simp add: control_opcode frame_ok_def)
  ultimately have "decodeFrame ?bytes = \<lparr>fd_status = FrameOk, fd_consumed = 2 + length (len_bytes ?n) + length (key_bytes masked key) + ?n,
      fd_opcode = opc, fd_payload = payload\<rparr>"
    using code len key
    by (auto simp: decodeFrame_def Let_def len_code_simps header_size_extra unat_small [OF n] body_bytes_def key_bytes_def mask_payload_twice)
  then show ?thesis by (simp add: encodeFrame_parts)
qed

lemma split_mask: "w = (w AND 0x80) OR (w AND 0x70) OR (w AND 0x0F)" "w = (w AND 0x80) OR (w AND 0x7F)" for w :: u8
proof -
  have "(0xFF :: u8) = -1" by simp
  then have all: "w AND 0xFF = w" by (simp only: and.right_neutral)
  have "(w AND 0x80) OR (w AND 0x70) OR (w AND 0x0F) = w AND (0x80 OR 0x70 OR 0x0F)"
    "(w AND 0x80) OR (w AND 0x7F) = w AND (0x80 OR 0x7F)" by (simp_all only: bit.conj_disj_distrib)
  then show "w = (w AND 0x80) OR (w AND 0x70) OR (w AND 0x0F)" "w = (w AND 0x80) OR (w AND 0x7F)"
    using all by simp_all
qed

lemma and_exp: "w AND 2 ^ k = (if bit w k then 2 ^ k else 0)" for w :: u8
  by (rule bit_word_eqI) (auto simp: bit_and_iff bit_exp_iff)

lemma high_bit: "w AND 0x80 = (if w AND 0x80 \<noteq> 0 then 0x80 else 0)" for w :: u8
  using and_exp [of w 7] by (simp split: if_splits)

lemma u8_inject: "(of_char a :: u8) = of_char b \<Longrightarrow> a = b"
proof -
  assume "(of_char a :: u8) = of_char b"
  then have "char_of (unat (of_char a :: u8)) = (char_of (unat (of_char b :: u8)) :: char)" by (rule arg_cong)
  moreover have "8 \<le> LENGTH(8)" by simp
  ultimately show "a = b" by (simp only: char_of_unat_word)
qed

lemma first_byte_back:
  assumes "(of_char b :: u8) AND 0x70 = 0" and "(of_char b :: u8) AND 0x80 \<noteq> 0" and "(of_char b :: u8) AND 0x0F = opcodeValue opc"
  shows "b = first_byte opc"
proof -
  have "opcodeValue opc AND 0x0F = opcodeValue opc" by (cases opc) simp_all
  then have "(of_char b :: u8) = of_char (first_byte opc)"
    using split_mask(1) [of "of_char b"] high_bit [of "of_char b"] assms by (simp add: u8_first_byte)
  then show ?thesis by (rule u8_inject)
qed

lemma second_byte_back: "b = second_byte ((of_char b :: u8) AND 0x80 \<noteq> 0) (of_char b AND 0x7F)"
  using split_mask(2) [of "of_char b"] high_bit [of "of_char b"] by (intro u8_inject) (simp add: u8_second_byte split: if_splits)

lemma len_of_code:
  assumes lb: "length lb = extra code" and code: "code AND 0x7F = code" and n: "n = unat (if extra code = 0 then ucast code else be_value lb)"
    and "code = 126 \<Longrightarrow> 126 \<le> n" and "code = 127 \<Longrightarrow> 65535 < n"
  shows "len_code n = code \<and> len_bytes n = lb"
proof (cases "extra code = 0")
  case True
  then have "code \<noteq> 126" "code \<noteq> 127" by (auto simp: extra_def split: if_splits)
  moreover have "unat code \<le> 127" using word_and_le1 [of code "0x7F"] code by (simp add: word_le_nat_alt)
  ultimately have "unat code < 126" by (auto simp: word_unat_eq_iff)
  moreover have "n = unat code"
    using True n \<open>unat code \<le> 127\<close> unat_small [of "unat code"] by (simp add: MAX_PAYLOAD_BYTES_def)
  ultimately show ?thesis using True lb by (simp add: len_code_def len_bytes_def)
next
  case False
  then have v: "of_nat n = be_value lb" using n by simp
  have "n < 65536" if "code = 126"
  proof -
    have "drop_bit 16 (be_value lb) = 0" using be_value_bound [of lb] that lb by (simp add: extra_def)
    then have "unat (drop_bit 16 (be_value lb)) = 0" by simp
    then show ?thesis unfolding unat_drop_bit_eq using False n by (simp add: drop_bit_eq_div)
  qed
  moreover have "be_bytes (length lb) (be_value lb) = lb" using lb by (intro be_bytes_value) (simp add: extra_def)
  ultimately show ?thesis using False assms(4,5) lb v by (auto simp: extra_def len_code_def len_bytes_def split: if_splits)
qed

lemma key_of_bytes:
  assumes "length kb = (if masked then 4 else 0)"
  shows "\<exists>key. kb = key_bytes masked key"
proof (cases masked)
  case True
  then obtain p q r s where "kb = [p, q, r, s]" using assms by (auto simp: length_Suc_conv numeral_eq_Suc)
  then show ?thesis using True by (intro exI [of _ "u32_of_bytes p q r s"]) (simp add: key_bytes_def put_u32_def u32_byte_of_bytes)
qed (use assms in \<open>simp add: key_bytes_def\<close>)

lemma take_drop_parts: "xs = take a xs @ take b (drop a xs) @ take c (drop (a + b) xs) @ drop (a + b + c) xs"
  by (metis add.commute append_take_drop_id drop_drop)

lemma decodeFrame_sound:
  assumes d: "decodeFrame bytes = \<lparr>fd_status = FrameOk, fd_consumed = t, fd_opcode = opc, fd_payload = payload\<rparr>"
  shows "frame_ok opc payload \<and> (\<exists>masked key r. bytes = encodeFrame opc payload masked key @ r \<and> t = length (encodeFrame opc payload masked key))"
proof -
  define first second where "first = (of_char (bytes ! 0) :: u8)" and "second = (of_char (bytes ! 1) :: u8)"
  define masked code where "masked = (second AND 0x80 \<noteq> 0)" and "code = second AND 0x7F"
  define w where "w = payload_length code bytes"
  define h where "h = header_size code masked"
  define n where "n = unat w"
  have facts: "2 \<le> length bytes" "first AND 0x70 = 0" "first AND 0x80 \<noteq> 0" "knownOpcode (first AND 0x0F) = Some opc"
    "h \<le> length bytes" "code = 126 \<Longrightarrow> 126 \<le> w" "code = 127 \<Longrightarrow> 65535 < w" "first AND 0x0F \<ge> 8 \<Longrightarrow> w \<le> 125"
    "w \<le> of_nat MAX_PAYLOAD_BYTES + 4" "h + n \<le> length bytes" "t = h + n"
    "payload = (if masked then mask_payload (substr bytes (h - 4) 4) (substr bytes h n) else substr bytes h n)"
    using d
    by (auto simp: decodeFrame_def frameFailed_def Let_def first_def second_def masked_def code_def w_def h_def n_def
        split: if_splits option.splits)
  obtain b0 b1 rest where bytes: "bytes = b0 # b1 # rest" using facts(1) by (cases bytes; cases "tl bytes") auto
  define lb kb raw where "lb = take (extra code) rest" and "kb = take (if masked then 4 else 0) (drop (extra code) rest)"
    and "raw = take n (drop (extra code + (if masked then 4 else 0)) rest)"
  have h: "h = 2 + extra code + (if masked then 4 else 0)" by (simp add: h_def header_size_extra)
  have rest: "rest = lb @ kb @ raw @ drop (extra code + (if masked then 4 else 0) + n) rest"
    unfolding lb_def kb_def raw_def by (rule take_drop_parts)
  have lens: "length lb = extra code" "length kb = (if masked then 4 else 0)" "length raw = n"
    using facts(10) h by (auto simp: lb_def kb_def raw_def bytes)
  have "code AND 0x7F = code" by (simp add: code_def and.assoc)
  moreover have "w = (if extra code = 0 then ucast code else be_value lb)"
    unfolding w_def bytes by (subst rest) (rule payload_length_parts [OF lens(1)])
  then have "n = unat (if extra code = 0 then ucast code else be_value lb)" by (simp add: n_def)
  ultimately have len: "len_code n = code \<and> len_bytes n = lb"
    using facts(6,7) lens(1) by (intro len_of_code) (auto simp: n_def word_le_nat_alt word_less_nat_alt)
  obtain key where key: "kb = key_bytes masked key" using key_of_bytes [OF lens(2)] by blast
  have sub: "substr bytes h n = raw" "masked \<Longrightarrow> substr bytes (h - 4) 4 = kb" by (simp_all add: h bytes substr_def raw_def kb_def)
  then have pay: "length payload = n" "body_bytes masked key payload = raw"
    using facts(12) lens(3) key by (auto simp: body_bytes_def key_bytes_def mask_payload_twice)
  have b: "b0 = first_byte opc" "b1 = second_byte masked code" "opc \<noteq> Continuation"
    using first_byte_back [of b0 opc] second_byte_back [of b1] facts(2-4)
    by (auto simp: knownOpcode_value first_def second_def masked_def code_def bytes)
  have enc: "encodeFrame opc payload masked key = b0 # b1 # lb @ kb @ raw" using len key pay b by (simp add: encodeFrame_parts)
  have "n \<le> frame_max" using facts(9) by (simp add: n_def word_le_nat_alt u64_max)
  moreover have "opc \<in> {Close, Ping, Pong} \<longrightarrow> n \<le> 125"
    using facts(4,8) control_opcode [of opc] by (auto simp: knownOpcode_value n_def word_le_nat_alt)
  ultimately have "frame_ok opc payload" using b(3) pay(1) by (simp add: frame_ok_def)
  moreover have "bytes = encodeFrame opc payload masked key @ drop (extra code + (if masked then 4 else 0) + n) rest"
    using rest by (simp add: enc bytes)
  moreover have "t = length (encodeFrame opc payload masked key)" using facts(11) h lens by (simp add: enc)
  ultimately show ?thesis by blast
qed

text \<open>C9: the decoder of WebSocket frames accepts bytes exactly when they start with what the encoder prints
  for an admissible frame, masked or not, whatever follows, and it returns the opcode and payload that
  were encoded and the length of the frame. Admissible are the frames of the chat: no continuation
  frames, at most 125 bytes in a control frame, and at most \<open>MAX_PAYLOAD_BYTES\<close> + 4 bytes otherwise.
  The encoder would print frames outside these limits too; the decoder refuses them, as it refuses
  everything the encoder never prints (a length in a longer form than needed, reserved bits, unknown
  opcodes).\<close>

theorem websocket_frames:
  "decodeFrame bytes = \<lparr>fd_status = FrameOk, fd_consumed = t, fd_opcode = opc, fd_payload = payload\<rparr> \<longleftrightarrow>
     opc \<noteq> Continuation \<and> length payload \<le> (if opc \<in> {Close, Ping, Pong} then 125 else MAX_PAYLOAD_BYTES + 4) \<and>
     (\<exists>masked key r. bytes = encodeFrame opc payload masked key @ r \<and> t = length (encodeFrame opc payload masked key))"
proof -
  have "frame_ok opc payload \<longleftrightarrow>
      opc \<noteq> Continuation \<and> length payload \<le> (if opc \<in> {Close, Ping, Pong} then 125 else MAX_PAYLOAD_BYTES + 4)"
    by (auto simp: frame_ok_def MAX_PAYLOAD_BYTES_def)
  then show ?thesis using decodeFrame_sound decode_encodeFrame by blast
qed

section \<open>Reading frames from a socket\<close>

text \<open>The bytes still to come, read ahead or not.\<close>

definition sb_stream :: "socketBuffer \<Rightarrow> string" where
  "sb_stream b = pending b @ concat (sb_socket b)"

lemma ensure_spec:
  assumes "stream (sb_socket b)"
  shows "\<exists>b'. ensure count b = (count \<le> length (sb_stream b), b') \<and> sb_stream b' = sb_stream b \<and> stream (sb_socket b') \<and>
    (count \<le> length (sb_stream b) \<longrightarrow> count \<le> length (pending b'))"
  using assms
proof (induction count b rule: ensure.induct)
  case (1 count b)
  show ?case
  proof (cases "length (pending b) < count")
    case False
    then show ?thesis using "1.prems" by (subst ensure.simps) (simp add: sb_stream_def)
  next
    case True
    obtain got rest where r: "sock_recv (min (count - length (pending b)) 4096) (sb_socket b) = (got, rest)" by fastforce
    note facts = sock_recv_concat [OF r] sock_recv_stream [OF "1.prems" r]
    show ?thesis
    proof (cases "got = []")
      case empty: True
      then have "sb_socket b = []" using sock_recv_Nil [OF "1.prems", of "min (count - length (pending b)) 4096"] r True by simp
      with True empty r facts show ?thesis by (subst ensure.simps) (auto simp: sb_stream_def)
    next
      case False
      have step: "ensure count b = ensure count (b\<lparr>pending := pending b @ got, sb_socket := rest\<rparr>)"
        using True False r by (subst ensure.simps) simp
      have same: "sb_stream (b\<lparr>pending := pending b @ got, sb_socket := rest\<rparr>) = sb_stream b" by (simp add: sb_stream_def facts(1))
      have "stream (sb_socket (b\<lparr>pending := pending b @ got, sb_socket := rest\<rparr>))" using facts(2) by simp
      from "1.IH" [OF True r [symmetric] False this] show ?thesis unfolding step same .
    qed
  qed
qed

lemma ensure_ok:
  assumes "stream (sb_socket b)" and "count \<le> length (sb_stream b)"
  obtains b' where "ensure count b = (True, b')" and "sb_stream b' = sb_stream b" and "stream (sb_socket b')"
    and "take count (pending b') = take count (sb_stream b)" and "count \<le> length (pending b')"
proof -
  obtain b' where b': "ensure count b = (True, b')" "sb_stream b' = sb_stream b" "stream (sb_socket b')" "count \<le> length (pending b')"
    using ensure_spec [OF assms(1), of count] assms(2) by auto
  moreover have "take count (pending b') = take count (sb_stream b)" 
  proof -
    have "take count (pending b') = take count (sb_stream b')" using b'(4) by (simp add: sb_stream_def)
    then show ?thesis by (simp only: b'(2))
  qed
  ultimately show thesis using that by blast
qed

text \<open>\<open>payload_length\<close> looks no further than the header.\<close>

lemma payload_length_cong:
  assumes "\<And>i. i < header_size code masked \<Longrightarrow> s ! i = s' ! i"
  shows "payload_length code s = payload_length code s'"
proof -
  have "foldl (\<lambda>acc i. push_bit 8 acc OR of_char (s ! (2 + i))) (0 :: u64) [0..<8] =
      foldl (\<lambda>acc i. push_bit 8 acc OR of_char (s' ! (2 + i))) 0 [0..<8]" if "code = 127"
    using assms that by (intro foldl_cong) (auto simp: header_size_def)
  then show ?thesis using assms [of 2] assms [of 3] by (simp add: payload_length_def header_size_def)
qed

lemma readFrame_browser:
  assumes b: "stream (sb_socket b)" "sb_stream b = encodeFrame opc payload True key @ r" and ok: "frame_ok opc payload"
  obtains b' where "readFrame b = (\<lparr>fd_status = FrameOk, fd_consumed = length (encodeFrame opc payload True key),
      fd_opcode = opc, fd_payload = payload\<rparr>, b')" and "stream (sb_socket b')" and "sb_stream b' = r"
proof -
  let ?n = "length payload" and ?f = "encodeFrame opc payload True key"
  let ?h = "header_size (len_code ?n) True"
  have n: "?n \<le> frame_max" using ok by (simp add: frame_ok_def)
  have len: "length ?f = ?h + ?n" by (simp add: encodeFrame_parts header_size_extra len_code_simps key_bytes_def)
  have h: "2 \<le> ?h" by (simp add: header_size_extra)
  have "2 \<le> length (sb_stream b)" using b(2) len h by simp
  then obtain b1 where b1: "ensure 2 b = (True, b1)" "sb_stream b1 = sb_stream b" "stream (sb_socket b1)"
    "take 2 (pending b1) = take 2 (sb_stream b)" "2 \<le> length (pending b1)" using ensure_ok [OF b(1)] by metis
  have second: "pending b1 ! 1 = second_byte True (len_code ?n)"
    using arg_cong [OF b1(4), of "\<lambda>s. s ! 1"] b(2) b1(5) by (simp add: encodeFrame_parts)
  have "?h \<le> length (sb_stream b1)" using b(2) b1(2) len by simp
  then obtain b2 where b2: "ensure ?h b1 = (True, b2)" "sb_stream b2 = sb_stream b" "stream (sb_socket b2)"
    "take ?h (pending b2) = take ?h (sb_stream b)" "?h \<le> length (pending b2)" using ensure_ok [OF b1(3)] b1(2) by metis
  have "payload_length (len_code ?n) (pending b2) = payload_length (len_code ?n) (sb_stream b)"
    using b2(4,5) by (intro payload_length_cong [of _ True]) (metis nth_take)
  also have "\<dots> = of_nat ?n" using payload_length_len [OF n] b(2) by (simp add: encodeFrame_parts)
  finally have pl: "payload_length (len_code ?n) (pending b2) = of_nat ?n" .
  have "?h + ?n \<le> length (sb_stream b2)" using b(2) b2(2) len by simp
  then obtain b3 where b3: "ensure (?h + ?n) b2 = (True, b3)" "sb_stream b3 = sb_stream b" "stream (sb_socket b3)"
    "take (?h + ?n) (pending b3) = take (?h + ?n) (sb_stream b)" "?h + ?n \<le> length (pending b3)"
    using ensure_ok [OF b2(3)] b2(2) by metis
  have dec: "decodeFrame (take (?h + ?n) (pending b3)) =
      \<lparr>fd_status = FrameOk, fd_consumed = length ?f, fd_opcode = opc, fd_payload = payload\<rparr>"
  proof -
    have "take (?h + ?n) (pending b3) = ?f" unfolding b3(4) b(2) by (simp add: len)
    then show ?thesis using decode_encodeFrame [OF ok, of True key "[]"] by simp
  qed
  have left: "sb_stream (b3\<lparr>pending := drop (length ?f) (pending b3)\<rparr>) = r"
  proof -
    have "sb_stream (b3\<lparr>pending := drop (length ?f) (pending b3)\<rparr>) = drop (length ?f) (sb_stream b3)"
      using b3(5) len by (simp add: sb_stream_def)
    then show ?thesis unfolding b3(2) b(2) by simp
  qed
  have "readFrame b = (\<lparr>fd_status = FrameOk, fd_consumed = length ?f, fd_opcode = opc, fd_payload = payload\<rparr>,
      b3\<lparr>pending := drop (length ?f) (pending b3)\<rparr>)"
    using b1(1) b2(1) b3(1) u64_lengths(4) [OF n] dec
    by (simp add: readFrame_def Let_def second [unfolded One_nat_def] len_code_simps pl unat_small [OF n])
  then show thesis using that left b3(3) by simp
qed

end
