(* ===== verification/Presence_Theorems.thy ===== *)
theory Presence_Theorems
  imports Node_Theorems
begin

text \<open>
  Logging in and out: the session, the presence row and the room membership change together, and the
  cluster is told.
\<close>

declare map_of_eq_Some_iff [simp del] Some_eq_map_of_iff [simp del]

section \<open>Single statements\<close>

lemma run_one:
  "db_faults d = [] \<Longrightarrow> run_sql [st] d = (case st d of Inl m \<Rightarrow> (Inl (ConstraintError m), d) | Inr (n, d') \<Rightarrow> (Inr (), d'))"
  by (simp add: run_sql_def execute_def step_stmt_ready bindM_run thenM_run split: sum.split prod.split)

definition not_in :: "string \<Rightarrow> int \<Rightarrow> membership_row \<Rightarrow> bool" where
  "not_in u i = (\<lambda>m. \<not> (ms_username m = u \<and> ms_room m = i))"

lemma membership_runs:
  assumes "db_faults d = []"
  shows "clearMembership u i d = (Inr (), d\<lparr>t_membership := filter (not_in u i) (t_membership d)\<rparr>)"
    and "has_username d u \<Longrightarrow> has_room d i \<Longrightarrow> setMembership u i nd d =
      (Inr (), d\<lparr>t_membership := filter (not_in u i) (t_membership d) @ [\<lparr>ms_username = u, ms_room = i, ms_node = nd\<rparr>]\<rparr>)"
    and "setOnline u nd d = (Inr (), d\<lparr>t_online := filter (\<lambda>r. on_username r \<noteq> u) (t_online d) @ [\<lparr>on_username = u, on_node = nd\<rparr>]\<rparr>)"
    and "clearOnline u d = (Inr (), d\<lparr>t_online := filter (\<lambda>r. on_username r \<noteq> u) (t_online d)\<rparr>)"
    and "clearAllMembership u d = (Inr (), d\<lparr>t_membership := filter (\<lambda>m. ms_username m \<noteq> u) (t_membership d)\<rparr>)"
  using assms
  by (simp_all add: clearMembership_def setMembership_def setOnline_def clearOnline_def clearAllMembership_def run_one
      sql_clear_membership_def sql_set_membership_def sql_set_online_def sql_clear_online_def sql_clear_all_membership_def
      not_in_def Let_def)

text \<open>The membership rows after a move from one room to another.\<close>

definition moved :: "string \<Rightarrow> int \<Rightarrow> int \<Rightarrow> string \<Rightarrow> membership_row list \<Rightarrow> membership_row list" where
  "moved u old new nd ms = filter (not_in u new) (if old \<noteq> new then filter (not_in u old) ms else ms) @
     [\<lparr>ms_username = u, ms_room = new, ms_node = nd\<rparr>]"

lemma joinRoom_run:
  assumes "map_of (sessions n) fd = Some s" and "cs_authenticated s" and "map_of (knownRooms n) (ro_name R) = Some R"
    and "ro_name R \<noteq> []" and "db_faults (n_db n) = []" and "has_username (n_db n) (u_username (cs_user s))" and "has_room (n_db n) (ro_id R)"
  shows "joinRoom (ro_name R) fd n = (Inr True, (relocated fd (ro_name (cs_room s)) R n)
     \<lparr>n_db := (n_db n)\<lparr>t_membership := moved (u_username (cs_user s)) (ro_id (cs_room s)) (ro_id R) (nodeId n) (t_membership (n_db n))\<rparr>\<rparr>)"
proof -
  let ?n = "relocated fd (ro_name (cs_room s)) R n"
  have f: "n_db ?n = n_db n" by (simp add: relocated_def)
  show ?thesis
    using assms unfolding joinRoom_def Let_def
    by (simp add: bindM_run sessionM_def relocate_run)
      (auto simp: catchM_run thenM_run whenM_def dbM_def zoomM_def f membership_runs moved_def)
qed

lemma joinRoom_guest_run:
  assumes "map_of (sessions n) fd = Some s" and "\<not> cs_authenticated s" and "map_of (knownRooms n) (ro_name R) = Some R"
    and "ro_name R \<noteq> []"
  shows "joinRoom (ro_name R) fd n = (Inr True, relocated fd (ro_name (cs_room s)) R n)"
  using assms unfolding joinRoom_def Let_def by (simp add: bindM_run sessionM_def relocate_run)

section \<open>Applying the two events of a login\<close>

lemma onlineNode_None:
  "db_faults d = [] \<Longrightarrow> u \<notin> on_username ` set (t_online d) \<Longrightarrow> onlineNode u d = (Inr None, d)"
  by (auto simp: onlineNode_def bindM_run query_def sql_get_online_node_def first_cell_def filter_empty_conv)

lemma applyLogin_run:
  assumes "db_faults (n_db n) = []" and "u \<noteq> []" "nd \<noteq> []" and "u \<notin> on_username ` set (t_online (n_db n))"
  shows "applyLogin u nd n = (Inr True, n\<lparr>n_db := (n_db n)\<lparr>t_online := t_online (n_db n) @ [\<lparr>on_username = u, on_node = nd\<rparr>]\<rparr>\<rparr>)"
proof -
  have "filter (\<lambda>r. on_username r \<noteq> u) (t_online (n_db n)) = t_online (n_db n)" using assms(4) by (auto simp: filter_id_conv)
  then show ?thesis
    using assms by (simp add: applyLogin_def bindM_run thenM_run dbM_def zoomM_def onlineNode_None membership_runs)
qed

definition left_room :: "node \<Rightarrow> string \<Rightarrow> string \<Rightarrow> string \<Rightarrow> membership_row list \<Rightarrow> membership_row list" where
  "left_room n u new prev ms = (if prev \<noteq> [] \<and> prev \<noteq> new
     then (case map_of (knownRooms n) prev of None \<Rightarrow> ms | Some p \<Rightarrow> filter (not_in u (ro_id p)) ms) else ms)"

lemma applyRoomJoin_run:
  assumes "db_faults (n_db n) = []" and "u \<noteq> []" "nd \<noteq> []" "new \<noteq> []" and "map_of (knownRooms n) new = Some R"
    and "has_username (n_db n) u" and "has_room (n_db n) (ro_id R)"
  shows "applyRoomJoin new u nd prev n = (Inr True, n\<lparr>n_db := (n_db n)\<lparr>t_membership :=
     filter (not_in u (ro_id R)) (left_room n u new prev (t_membership (n_db n))) @
       [\<lparr>ms_username = u, ms_room = ro_id R, ms_node = nd\<rparr>]\<rparr>\<rparr>)"
proof -
  have "find (\<lambda>r. ur_username r = u) (t_users (n_db n)) \<noteq> None"
    using assms(6) by (auto simp: has_username_def find_None_iff)
  then obtain x where "find (\<lambda>r. ur_username r = u) (t_users (n_db n)) = Some x" by blast
  then have "getUser u ((n_db n)\<lparr>t_membership := ms\<rparr>) = (Inr (Some (user_of_row x)), (n_db n)\<lparr>t_membership := ms\<rparr>)" for ms
    using assms(1) by (subst getUser_find) simp_all
  from this [of "t_membership (n_db n)"] this show ?thesis
    using assms
    by (auto simp: applyRoomJoin_def Let_def bindM_run thenM_run dbM_def zoomM_def getRoom_def membership_runs left_room_def
        whenM_def split: option.split)
qed

section \<open>Telling the cluster\<close>

lemma gossipSend_all_sent: "\<exists>ws. gossipSend_all fds p n = (Inr (), n\<lparr>n_sent := ws\<rparr>)"
proof (cases "serialize p = []")
  case True
  then have "gossipSend_all fds p n = (Inr (), n\<lparr>n_sent := n_sent n\<rparr>)"
    unfolding gossipSend_all_def by (induction fds) (auto simp: thenM_run gossipSend_def writeM_def)
  then show ?thesis by blast
qed (auto simp: gossipSend_all_run)

lemma refreshServerDirectory_sent:
  assumes "fd \<noteq> INVALID_SOCKET"
  shows "\<exists>ws. refreshServerDirectory fd n = (Inr (), n\<lparr>n_sent := ws\<rparr>)"
proof -
  have "\<exists>ws. n = n\<lparr>n_sent := ws\<rparr>" by (rule exI [of _ "n_sent n"]) simp
  then show ?thesis
    using assms by (auto simp: refreshServerDirectory_def bindM_run pushServerDirectory_def packetM_def thenM_run
        sendPacket_run whenM_def)
qed

lemma rumorEvent_applied:
  assumes "gossip_wired n" and "next_id n kind u \<notin> set (seenEvents n)"
    and "short kind" "short (next_id n kind u)" "short u" "short content" "short f"
    and "applyEvent (event_packet n kind u content f room)
      (logged (next_id n kind u) (event_packet n kind u content f room) (n\<lparr>nextPresenceSeq := nextPresenceSeq n + 1\<rparr>)) = (Inr b, m)"
  shows "\<exists>ws. rumorEvent kind u content f room n = (Inr (), m\<lparr>n_sent := ws\<rparr>)"
  using rumorEvent_run [OF assms(1-7), of room] assms(8) gossipSend_all_sent by (simp add: thenM_run bindM_run)

lemma next_id_parts:
  assumes "short (next_id n kind u)"
  shows "short (nodeId n)" "short u" "short (int_to_string (n_now n))" "short kind"
  using assms by (simp_all add: next_id_def)

lemma event_fields:
  assumes "short (next_id n kind u)" and "short content" and "short f"
  shows "decode (p_message (event_packet n kind u content f room)) =
      Some \<lparr>f_type = kind, f_eventId = next_id n kind u, f_username = u, f_content = content, f_field5 = f\<rparr>"
    and "p_room (event_packet n kind u content f room) = room"
proof -
  let ?f = "\<lparr>f_type = kind, f_eventId = next_id n kind u, f_username = u, f_content = content, f_field5 = f\<rparr>"
  have "fields_short ?f" using assms next_id_parts [OF assms(1)] by (simp add: fields_short_def)
  then show "decode (p_message (event_packet n kind u content f room)) = Some ?f"
    using decode_encode [of ?f] by (simp add: event_packet_def mkPacket_def encodeFields_def)
  show "p_room (event_packet n kind u content f room) = room" by (simp add: event_packet_def mkPacket_def)
qed

lemma rumorLogin_run:
  assumes "gossip_wired n" and "next_id n ''LOGIN'' u \<notin> set (seenEvents n)" and "short (next_id n ''LOGIN'' u)"
    and "db_faults (n_db n) = []" and "u \<noteq> []" "nodeId n \<noteq> []" and "u \<notin> on_username ` set (t_online (n_db n))"
  shows "\<exists>ws q. rumorPresence ''LOGIN'' u n = (Inr (), (logged (next_id n ''LOGIN'' u) q (n\<lparr>nextPresenceSeq := nextPresenceSeq n + 1\<rparr>))
     \<lparr>n_db := (n_db n)\<lparr>t_online := t_online (n_db n) @ [\<lparr>on_username = u, on_node = nodeId n\<rparr>]\<rparr>, n_sent := ws\<rparr>)"
proof -
  let ?q = "event_packet n ''LOGIN'' u (nodeId n) (int_to_string (n_now n)) []"
  let ?l = "logged (next_id n ''LOGIN'' u) ?q (n\<lparr>nextPresenceSeq := nextPresenceSeq n + 1\<rparr>)"
  note parts = next_id_parts [OF assms(3)]
  have "applyEvent ?q ?l = (Inr True, ?l\<lparr>n_db := (n_db n)\<lparr>t_online := t_online (n_db n) @ [\<lparr>on_username = u, on_node = nodeId n\<rparr>]\<rparr>\<rparr>)"
    using applyLogin_run [of ?l u "nodeId n"] assms(4-7) by (simp add: applyEvent_def event_fields [OF assms(3) parts(1,3)])
  from rumorEvent_applied [OF assms(1,2) parts(4) assms(3) parts(2,1,3) this]
  show ?thesis by (auto simp: rumorPresence_def nowText_def bindM_run)
qed

lemma rumorRoomJoin_run:
  assumes "gossip_wired n" and "next_id n ''ROOM_JOIN'' u \<notin> set (seenEvents n)" and "short (next_id n ''ROOM_JOIN'' u)" "short prev"
    and "db_faults (n_db n) = []" and "u \<noteq> []" "nodeId n \<noteq> []" "new \<noteq> []" and "map_of (knownRooms n) new = Some R"
    and "has_username (n_db n) u" and "has_room (n_db n) (ro_id R)"
  shows "\<exists>ws q. rumorRoomJoin u new prev n = (Inr (), (logged (next_id n ''ROOM_JOIN'' u) q (n\<lparr>nextPresenceSeq := nextPresenceSeq n + 1\<rparr>))
     \<lparr>n_db := (n_db n)\<lparr>t_membership := filter (not_in u (ro_id R)) (left_room n u new prev (t_membership (n_db n))) @
       [\<lparr>ms_username = u, ms_room = ro_id R, ms_node = nodeId n\<rparr>]\<rparr>, n_sent := ws\<rparr>)"
proof -
  let ?q = "event_packet n ''ROOM_JOIN'' u (nodeId n) prev new"
  let ?l = "logged (next_id n ''ROOM_JOIN'' u) ?q (n\<lparr>nextPresenceSeq := nextPresenceSeq n + 1\<rparr>)"
  note parts = next_id_parts [OF assms(3)]
  have "left_room ?l = left_room n" by (simp add: fun_eq_iff left_room_def)
  then have "applyEvent ?q ?l = (Inr True, ?l\<lparr>n_db := (n_db n)\<lparr>t_membership :=
      filter (not_in u (ro_id R)) (left_room n u new prev (t_membership (n_db n))) @
       [\<lparr>ms_username = u, ms_room = ro_id R, ms_node = nodeId n\<rparr>]\<rparr>\<rparr>)"
    using applyRoomJoin_run [of ?l u "nodeId n" new R prev] assms(5-11)
    by (simp add: applyEvent_def event_fields [OF assms(3) parts(1) assms(4)])
  from rumorEvent_applied [OF assms(1,2) parts(4) assms(3) parts(2,1) assms(4) this]
  show ?thesis by (auto simp: rumorRoomJoin_def bindM_run)
qed

section \<open>Logging in\<close>

lemma seen_logged: "set (seenEvents (logged i p n)) \<subseteq> insert i (set (seenEvents n))"
proof -
  have ev: "set (snd (snd (evict ids lg sn))) \<subseteq> set sn" for ids lg sn
    by (induction ids lg sn rule: evict.induct) auto
  show ?thesis
    using ev [of "recentEventIds n @ [i]" "AList.update i p (eventLog n)" "seenEvents n @ [i]"]
    by (auto simp: logged_def rememberEventLocked_def split: prod.splits)
qed

lemma next_id_frame:
  "n_cfg n' = n_cfg n \<Longrightarrow> n_now n' = n_now n \<Longrightarrow> nextPresenceSeq n' = nextPresenceSeq n \<Longrightarrow> next_id n' = next_id n"
  by (simp add: fun_eq_iff next_id_def nodeId_def)

lemma next_id_kinds: "next_id n ''LOGIN'' u \<noteq> next_id n' ''ROOM_JOIN'' u" if "n_cfg n' = n_cfg n"
  using that by (simp add: next_id_def nodeId_def)

text \<open>The state after a login: the session, and what the two events left behind.\<close>

definition logged_on :: "SOCKET \<Rightarrow> clientSession \<Rightarrow> user_row \<Rightarrow> node \<Rightarrow> node \<Rightarrow> bool" where
  "logged_on fd s r n n' \<longleftrightarrow>
     map_of (sessions n') = (map_of (sessions n))(fd \<mapsto> s\<lparr>cs_user := user_of_row r, cs_authenticated := True, cs_room := LOBBY\<rparr>) \<and>
     t_online (n_db n') = t_online (n_db n) @ [\<lparr>on_username = ur_username r, on_node = nodeId n\<rparr>] \<and>
     \<lparr>ms_username = ur_username r, ms_room = ro_id LOBBY, ms_node = nodeId n\<rparr> \<in> set (t_membership (n_db n')) \<and>
     t_users (n_db n') = t_users (n_db n) \<and> t_messages (n_db n') = t_messages (n_db n) \<and>
     n_cfg n' = n_cfg n \<and> n_now n' = n_now n \<and> gossip_wired n' = gossip_wired n \<and>
     nextPresenceSeq n' = nextPresenceSeq n + 2 \<and>
     set (seenEvents n') \<subseteq> insert (next_id n ''LOGIN'' (ur_username r))
       (insert (next_id (n\<lparr>nextPresenceSeq := nextPresenceSeq n + 1\<rparr>) ''ROOM_JOIN'' (ur_username r)) (set (seenEvents n)))"

text \<open>Announcing a session: after the presence event the move to a room is applied and sent, and the directories
  go to the client.\<close>

lemma announced:
  assumes first: "rumorPresence kind u n = (Inr (), (logged i q (n\<lparr>nextPresenceSeq := nextPresenceSeq n + 1\<rparr>))\<lparr>n_db := d, n_sent := ws\<rparr>)"
    and net: "gossip_wired n" "nodeId n \<noteq> []" "fd \<noteq> INVALID_SOCKET" and d: "db_faults d = []" "has_username d u" "has_room d (ro_id R)"
    and R: "map_of (knownRooms n) (ro_name R) = Some R" "ro_name R \<noteq> []" and u: "u \<noteq> []" and prev: "short prev"
    and j: "j = next_id (n\<lparr>nextPresenceSeq := nextPresenceSeq n + 1\<rparr>) ''ROOM_JOIN'' u" "j \<notin> set (seenEvents n)" "short j" "i \<noteq> j"
  shows "\<exists>n'. thenM (rumorPresence kind u) (thenM (rumorRoomJoin u (ro_name R) prev)
      (bindM encodeRoomDirectory (\<lambda>dir. thenM (refreshServerDirectory fd) (returnM (f dir))))) n =
        (Inr (f (serializeList (map snd (knownRooms n)))), n') \<and>
    sessions n' = sessions n \<and> knownRooms n' = knownRooms n \<and> n_cfg n' = n_cfg n \<and> n_now n' = n_now n \<and> gossip_wired n' \<and>
    n_db n' = d\<lparr>t_membership := filter (not_in u (ro_id R)) (left_room n u (ro_name R) prev (t_membership d)) @
      [\<lparr>ms_username = u, ms_room = ro_id R, ms_node = nodeId n\<rparr>]\<rparr> \<and>
    nextPresenceSeq n' = nextPresenceSeq n + 2 \<and> set (seenEvents n') \<subseteq> insert i (insert j (set (seenEvents n)))"
proof -
  define m where "m = (logged i q (n\<lparr>nextPresenceSeq := nextPresenceSeq n + 1\<rparr>))\<lparr>n_db := d, n_sent := ws\<rparr>"
  have m: "n_cfg m = n_cfg n" "n_now m = n_now n" "nextPresenceSeq m = nextPresenceSeq n + 1" "gossip_wired m" "knownRooms m = knownRooms n"
    "sessions m = sessions n" "n_db m = d" "nodeId m = nodeId n" "set (seenEvents m) \<subseteq> insert i (set (seenEvents n))"
    using net(1) seen_logged [of i q "n\<lparr>nextPresenceSeq := nextPresenceSeq n + 1\<rparr>"] by (simp_all add: m_def nodeId_def)
  have "next_id m = next_id (n\<lparr>nextPresenceSeq := nextPresenceSeq n + 1\<rparr>)" by (rule next_id_frame) (simp_all add: m)
  then have jm: "next_id m ''ROOM_JOIN'' u = j" "j \<notin> set (seenEvents m)" using j m(9) by auto
  have "left_room m = left_room n" by (simp add: fun_eq_iff left_room_def m(5))
  then obtain ws' q' where r2: "rumorRoomJoin u (ro_name R) prev m = (Inr (), (logged j q' (m\<lparr>nextPresenceSeq := nextPresenceSeq m + 1\<rparr>))
      \<lparr>n_db := d\<lparr>t_membership := filter (not_in u (ro_id R)) (left_room n u (ro_name R) prev (t_membership d)) @
        [\<lparr>ms_username = u, ms_room = ro_id R, ms_node = nodeId n\<rparr>]\<rparr>, n_sent := ws'\<rparr>)"
    using rumorRoomJoin_run [of m u prev "ro_name R" R] jm m j(3) prev u net(2) R d by auto
  define n' where "n' = (logged j q' (m\<lparr>nextPresenceSeq := nextPresenceSeq m + 1\<rparr>))
      \<lparr>n_db := d\<lparr>t_membership := filter (not_in u (ro_id R)) (left_room n u (ro_name R) prev (t_membership d)) @
        [\<lparr>ms_username = u, ms_room = ro_id R, ms_node = nodeId n\<rparr>]\<rparr>, n_sent := ws'\<rparr>"
  obtain ws'' where r3: "refreshServerDirectory fd n' = (Inr (), n'\<lparr>n_sent := ws''\<rparr>)"
    using refreshServerDirectory_sent [OF net(3)] by blast
  have k: "knownRooms n' = knownRooms n" by (simp add: n'_def m)
  have "set (seenEvents n') \<subseteq> insert i (insert j (set (seenEvents n)))"
    using m(9) seen_logged [of j q' "m\<lparr>nextPresenceSeq := nextPresenceSeq m + 1\<rparr>"] by (auto simp: n'_def)
  then show ?thesis
    using first r2 r3 k m
    by (intro exI [of _ "n'\<lparr>n_sent := ws''\<rparr>"])
      (simp add: thenM_run bindM_run m_def [symmetric] n'_def [symmetric] encodeRoomDirectory_def rm_listRooms_def, simp add: n'_def)
qed

lemma login_announced:
  assumes net: "gossip_wired n" "nodeId n \<noteq> []" "fd \<noteq> INVALID_SOCKET" and fault: "db_faults (n_db n) = []" and u: "u \<noteq> []" "has_username (n_db n) u"
    and lobby: "map_of (knownRooms n) (ro_name LOBBY) = Some LOBBY" "has_room (n_db n) (ro_id LOBBY)" and free: "u \<notin> on_username ` set (t_online (n_db n))"
    and i: "i = next_id n ''LOGIN'' u" "i \<notin> set (seenEvents n)" "short i"
    and j: "j = next_id (n\<lparr>nextPresenceSeq := nextPresenceSeq n + 1\<rparr>) ''ROOM_JOIN'' u" "j \<notin> set (seenEvents n)" "short j" and prev: "short prev"
  shows "\<exists>n'. thenM (rumorPresence ''LOGIN'' u) (thenM (rumorRoomJoin u (ro_name LOBBY) prev)
      (bindM encodeRoomDirectory (\<lambda>dir. thenM (refreshServerDirectory fd) (returnM (f dir))))) n =
        (Inr (f (serializeList (map snd (knownRooms n)))), n') \<and> sessions n' = sessions n \<and>
    t_online (n_db n') = t_online (n_db n) @ [\<lparr>on_username = u, on_node = nodeId n\<rparr>] \<and>
    \<lparr>ms_username = u, ms_room = ro_id LOBBY, ms_node = nodeId n\<rparr> \<in> set (t_membership (n_db n')) \<and>
    t_users (n_db n') = t_users (n_db n) \<and> t_messages (n_db n') = t_messages (n_db n) \<and> n_cfg n' = n_cfg n \<and> n_now n' = n_now n \<and>
    gossip_wired n' = gossip_wired n \<and> nextPresenceSeq n' = nextPresenceSeq n + 2 \<and> set (seenEvents n') \<subseteq> insert i (insert j (set (seenEvents n)))"
proof -
  let ?d = "(n_db n)\<lparr>t_online := t_online (n_db n) @ [\<lparr>on_username = u, on_node = nodeId n\<rparr>]\<rparr>"
  obtain ws q where r1: "rumorPresence ''LOGIN'' u n = (Inr (), (logged i q (n\<lparr>nextPresenceSeq := nextPresenceSeq n + 1\<rparr>))\<lparr>n_db := ?d, n_sent := ws\<rparr>)"
    using rumorLogin_run [OF net(1) i(2,3) [unfolded i(1)] fault u(1) net(2) free] i(1) by auto
  have "ro_name LOBBY \<noteq> []" by (simp add: LOBBY_def mkRoom_def)
  moreover have "i \<noteq> j" using next_id_kinds [of "n\<lparr>nextPresenceSeq := nextPresenceSeq n + 1\<rparr>" n u] i(1) j(1) by simp
  ultimately obtain n' where "thenM (rumorPresence ''LOGIN'' u) (thenM (rumorRoomJoin u (ro_name LOBBY) prev)
      (bindM encodeRoomDirectory (\<lambda>dir. thenM (refreshServerDirectory fd) (returnM (f dir))))) n = (Inr (f (serializeList (map snd (knownRooms n)))), n')"
    "sessions n' = sessions n" "n_cfg n' = n_cfg n" "n_now n' = n_now n" "gossip_wired n'" "nextPresenceSeq n' = nextPresenceSeq n + 2"
    "n_db n' = ?d\<lparr>t_membership := filter (not_in u (ro_id LOBBY)) (left_room n u (ro_name LOBBY) prev (t_membership ?d)) @
      [\<lparr>ms_username = u, ms_room = ro_id LOBBY, ms_node = nodeId n\<rparr>]\<rparr>" "set (seenEvents n') \<subseteq> insert i (insert j (set (seenEvents n)))"
    using announced [OF r1 net, of LOBBY prev j f] fault u lobby prev j by auto
  then show ?thesis using net(1) by auto
qed

lemma login_run_full:
  assumes reach: "reach enabled (node_exec A) (booted c) n" and s: "map_of (sessions n) fd = Some s" "fd \<noteq> INVALID_SOCKET"
    and p: "p_type p = LOGIN" and row: "find (\<lambda>r. ur_username r = p_sender p) (t_users (n_db n)) = Some r"
    and pw: "checkPassword A (p_message p) (c_str (ur_password r))" and free: "\<not> logged_in n (user_of_row r)"
    and u: "ur_username r = u" "nul_free u" "u \<noteq> []" and net: "gossip_wired n" "nodeId n \<noteq> []"
    and i: "i = next_id n ''LOGIN'' u" "j = next_id (n\<lparr>nextPresenceSeq := nextPresenceSeq n + 1\<rparr>) ''ROOM_JOIN'' u"
      "i \<notin> set (seenEvents n)" "j \<notin> set (seenEvents n)" and short: "short i" "short j" "short (ro_name (cs_room s))"
  shows "\<exists>m n'. processPacket A p fd n = (Inr m, n') \<and> p_code m = responseCode SUCCESS \<and>
    p_message m = user_serialize (user_of_row r) \<and> p_type m = LOGIN \<and> p_room m = serializeList (map snd (knownRooms n)) \<and>
    logged_on fd s r n n'"
proof -
  let ?v = "user_of_row r" and ?prev = "ro_name (cs_room s)"
  have ok: "node_ok n" using node.reach_inv [OF reach booted_ok] .
  have live: "db_live (known_ids n) (n_db n)" and lobby: "map_of (knownRooms n) (ro_name LOBBY) = Some LOBBY"
    using ok by (auto simp: node_inv_def rooms_known_def)
  have ul: "u_username ?v = u" using u by (simp add: user_of_row_def)
  have "r \<in> set (t_users (n_db n))" using row by (auto simp: find_Some_iff)
  then have has: "has_username (n_db n) u" using u(1) by (auto simp: has_username_def)
  have hasL: "has_room (n_db n) (ro_id LOBBY)"
    using db_live_simps(4) [OF live] lobby by (force simp: known_ids_def dest: map_of_SomeD)
  have fault: "db_faults (n_db n) = []" using live by (rule db_live_simps)
  have ne: "ro_name LOBBY \<noteq> []" by (simp add: LOBBY_def mkRoom_def)
  let ?n1 = "n\<lparr>sessions := AList.map_entry fd (\<lambda>s. s\<lparr>cs_user := ?v\<rparr>) (sessions n),
      sessions := AList.map_entry fd (\<lambda>s. s\<lparr>cs_authenticated := True\<rparr>) (AList.map_entry fd (\<lambda>s. s\<lparr>cs_user := ?v\<rparr>) (sessions n))\<rparr>"
  let ?s1 = "s\<lparr>cs_user := ?v, cs_authenticated := True\<rparr>"
  have s1: "map_of (sessions ?n1) fd = Some ?s1" using s by (simp add: session_map_entry)
  define n2 where "n2 = (relocated fd ?prev LOBBY ?n1)\<lparr>n_db := (n_db n)\<lparr>t_membership :=
      moved u (ro_id (cs_room s)) (ro_id LOBBY) (nodeId n) (t_membership (n_db n))\<rparr>\<rparr>"
  have join: "joinRoom (ro_name LOBBY) fd ?n1 = (Inr True, n2)"
    using joinRoom_run [OF s1, of LOBBY] lobby ne fault has hasL ul by (simp add: n2_def nodeId_def)
  have f2: "n_cfg n2 = n_cfg n" "n_now n2 = n_now n" "nextPresenceSeq n2 = nextPresenceSeq n" "seenEvents n2 = seenEvents n"
    "gossip_wired n2 = gossip_wired n" "knownRooms n2 = knownRooms n" "t_online (n_db n2) = t_online (n_db n)"
    "t_users (n_db n2) = t_users (n_db n)" "db_faults (n_db n2) = []" "t_messages (n_db n2) = t_messages (n_db n)"
    "has_username (n_db n2) u" "has_room (n_db n2) (ro_id LOBBY)"
    using fault has hasL by (simp_all add: n2_def relocated_def)
  have m2: "map_of (sessions n2) = (map_of (sessions n))(fd \<mapsto> ?s1\<lparr>cs_room := LOBBY\<rparr>)"
    using s by (auto simp: n2_def relocated_def session_map_entry fun_eq_iff option.map_ident)
  let ?f = "\<lambda>dir. (reply (response_to n p) SUCCESS (user_serialize ?v))\<lparr>p_room := dir\<rparr>"
  have ids: "next_id n2 = next_id n" "next_id (n2\<lparr>nextPresenceSeq := nextPresenceSeq n2 + 1\<rparr>) = next_id (n\<lparr>nextPresenceSeq := nextPresenceSeq n + 1\<rparr>)"
    by (rule next_id_frame; simp add: f2)+
  have "nodeId n2 = nodeId n" by (simp add: nodeId_def f2)
  then obtain n' where n': "thenM (rumorPresence ''LOGIN'' u) (thenM (rumorRoomJoin u (ro_name LOBBY) ?prev)
      (bindM encodeRoomDirectory (\<lambda>dir. thenM (refreshServerDirectory fd) (returnM (?f dir))))) n2 = (Inr (?f (serializeList (map snd (knownRooms n)))), n')"
    "sessions n' = sessions n2" "logged_on fd s r n n'"
    using login_announced [of n2 fd u i j ?prev ?f] net s(2) f2 u(3) lobby free ul i short ids m2 u(1)
    by (auto simp: logged_in_def logged_on_def)
  have login: "dbM (loginUser A (p_sender p) (p_message p)) n = (Inr (Inr ?v), n)"
    using login_user_run [OF live, of A "p_sender p" "p_message p"] row pw by (simp add: dbM_def zoomM_def)
  have "processPacket A p fd n = (Inr (?f (serializeList (map snd (knownRooms n)))), n')"
    using p login free isUserOnline_run [OF live] join n'(1) s ul
    by (simp add: processPacket_def handleLogin_def response_to_def bindM_run catchM_run thenM_run hasSession_def logged_in_def
        Let_def sessionM_def setUser_def setAuthenticated_def upd_session_def)
  then show ?thesis using p n'(3) by (auto simp: reply_def response_to_def)
qed

lemma login_run:
  assumes "reach enabled (node_exec A) (booted c) n" and "map_of (sessions n) fd = Some s" and "fd \<noteq> INVALID_SOCKET"
    and "p_type p = LOGIN" and "find (\<lambda>r. ur_username r = p_sender p) (t_users (n_db n)) = Some r"
    and "checkPassword A (p_message p) (c_str (ur_password r))" and "\<not> logged_in n (user_of_row r)"
    and "ur_username r = u" and "nul_free u" and "u \<noteq> []" and "gossip_wired n" and "nodeId n \<noteq> []"
    and "i = next_id n ''LOGIN'' u" and "j = next_id (n\<lparr>nextPresenceSeq := nextPresenceSeq n + 1\<rparr>) ''ROOM_JOIN'' u"
    and "i \<notin> set (seenEvents n)" and "j \<notin> set (seenEvents n)" and "short i" and "short j" and "short (ro_name (cs_room s))"
  shows "\<exists>m n'. processPacket A p fd n = (Inr m, n') \<and> p_code m = responseCode SUCCESS \<and>
    p_message m = user_serialize (user_of_row r) \<and> logged_on fd s r n n'"
  using login_run_full [OF assms] by blast

text \<open>C11: a login with the right password of a user who is not logged in succeeds: the session gets the
  stored profile, is authenticated and in the Lobby, all other sessions are unchanged, exactly one
  presence row (this node) and the Lobby membership are stored, and the reply carries the profile.
  The ids of the two events must be new and the texts must fit their length fields.\<close>

theorem login_succeeds:
  assumes "reach enabled (node_exec A) (booted c) n" and "map_of (sessions n) fd = Some s" and "fd \<noteq> INVALID_SOCKET"
    and "p_type p = LOGIN" and "find (\<lambda>r. ur_username r = p_sender p) (t_users (n_db n)) = Some r"
    and "checkPassword A (p_message p) (c_str (ur_password r))" and "\<not> logged_in n (user_of_row r)"
    and "ur_username r = u" and "nul_free u" and "u \<noteq> []" and "gossip_wired n" and "nodeId n \<noteq> []"
    and "i = next_id n ''LOGIN'' u" and "j = next_id (n\<lparr>nextPresenceSeq := nextPresenceSeq n + 1\<rparr>) ''ROOM_JOIN'' u"
    and "i \<notin> set (seenEvents n)" and "j \<notin> set (seenEvents n)" and "short i" and "short j" and "short (ro_name (cs_room s))"
  shows "\<exists>m n'. processPacket A p fd n = (Inr m, n') \<and> p_code m = responseCode SUCCESS \<and>
    p_message m = user_serialize (user_of_row r) \<and>
    map_of (sessions n') = (map_of (sessions n))(fd \<mapsto> s\<lparr>cs_user := user_of_row r, cs_authenticated := True, cs_room := LOBBY\<rparr>) \<and>
    t_online (n_db n') = t_online (n_db n) @ [\<lparr>on_username = u, on_node = nodeId n\<rparr>] \<and>
    \<lparr>ms_username = u, ms_room = ro_id LOBBY, ms_node = nodeId n\<rparr> \<in> set (t_membership (n_db n'))"
  using login_run [OF assms] assms(8) by (auto simp: logged_on_def)



text \<open>The administrator of a new database logs in (with the stand-in for Argon2 the password is the
  stored text).\<close>

definition admin_row :: user_row where
  "admin_row = hd (t_users new_db)"

definition admin_login :: packet where
  "admin_login = mkPacket 0 ''admin'' [] LOGIN [] (c_str (ur_password admin_row)) 0"

lemma admin_row_facts:
  "ur_username admin_row = ''admin''" "ur_email admin_row = ''admin@example.com''"
  "find (\<lambda>r. ur_username r = ''admin'') (t_users new_db) = Some admin_row"
  using new_db_tables(8,9) by (auto simp: admin_row_def map_eq_Cons_conv)

lemma admin_login_run:
  "\<exists>m n'. processPacket plain_argon2 admin_login 5 one_client = (Inr m, n') \<and> p_code m = responseCode SUCCESS \<and>
     p_message m = user_serialize (user_of_row admin_row) \<and>
     logged_on 5 (mkSession 5 (anonymousUser 0) LOBBY 0) admin_row one_client n'"
proof (rule login_run [OF one_client_reach, where u = "''admin''", OF _ _ _ _ _ _ _ _ _ _ _ refl refl])
  show "checkPassword plain_argon2 (p_message admin_login) (c_str (ur_password admin_row))"
    by (simp add: plain_argon2_def checkPassword_def admin_login_def mkPacket_def)
  show "\<not> logged_in one_client (user_of_row admin_row)"
    by (simp add: logged_in_def one_client_facts mkSession_def new_db_tables)
qed (simp_all add: one_client_facts admin_login_def admin_row_facts mkPacket_def INVALID_SOCKET_def nodeId_def
    default_config_def next_id_def LOBBY_def mkRoom_def mkSession_def nat_to_string.simps int_to_string_def)

theorem login_succeeds_witness:
  "\<exists>m n'. processPacket plain_argon2 admin_login 5 one_client = (Inr m, n') \<and> p_code m = responseCode SUCCESS \<and>
     t_online (n_db n') = [\<lparr>on_username = ''admin'', on_node = ''node1''\<rparr>]"
proof -
  have c: "checkPassword plain_argon2 (p_message admin_login) (c_str (ur_password admin_row))"
    by (simp add: plain_argon2_def checkPassword_def admin_login_def mkPacket_def)
  have l: "\<not> logged_in one_client (user_of_row admin_row)"
    by (simp add: logged_in_def one_client_facts mkSession_def new_db_tables)
  have s: "map_of (sessions one_client) 5 = Some (mkSession 5 (anonymousUser 0) LOBBY 0)" by (simp add: one_client_facts)
  have "t_online (n_db one_client) @ [\<lparr>on_username = ''admin'', on_node = nodeId one_client\<rparr>] =
      [\<lparr>on_username = ''admin'', on_node = ''node1''\<rparr>]"
    by (simp add: one_client_facts new_db_tables nodeId_def default_config_def)
  moreover note login_succeeds [OF one_client_reach s, of admin_login admin_row "''admin''", OF _ _ _ c l _ _ _ _ _ refl refl]
  ultimately show ?thesis
    by (fastforce simp: one_client_facts admin_login_def admin_row_facts mkPacket_def INVALID_SOCKET_def nodeId_def
        default_config_def next_id_def LOBBY_def mkRoom_def mkSession_def nat_to_string.simps int_to_string_def)
qed

lemma small_digits:
  "digit_char 0 = CHR ''0''" "digit_char (Suc 0) = CHR ''1''" "digit_char 2 = CHR ''2''" "digit_char 3 = CHR ''3''"
  by code_simp+

text \<open>The administrator of the example node has logged in.\<close>

definition admin_node :: node where
  "admin_node = run_all (node_exec plain_argon2) [Accept 5, ClientPacket 5 admin_login] (booted default_config)"

lemma admin_node_reach: "reach enabled (node_exec plain_argon2) (booted default_config) admin_node"
  unfolding admin_node_def by (rule run_all_reach) (simp add: booted_eq fresh_node_def)

lemma admin_node_eq:
  "\<exists>n' ws. logged_on 5 (mkSession 5 (anonymousUser 0) LOBBY 0) admin_row one_client n' \<and> admin_node = n'\<lparr>n_sent := ws\<rparr>"
proof -
  obtain m n' where r: "processPacket plain_argon2 admin_login 5 one_client = (Inr m, n')"
    "logged_on 5 (mkSession 5 (anonymousUser 0) LOBBY 0) admin_row one_client n'" using admin_login_run by blast
  have t: "touch 5 one_client = (Inr (), one_client)"
    by (simp add: touch_def upd_session_def bindM_run one_client_facts mkSession_def)
  have "\<exists>b ws. dispatchPacket plain_argon2 5 admin_login one_client = (Inr b, n'\<lparr>n_sent := ws\<rparr>)"
  proof (cases "reachable_fd n' m 5")
    case False
    have "dispatchPacket plain_argon2 5 admin_login one_client = (Inr False, n'\<lparr>n_sent := n_sent n'\<rparr>)"
      using False r(1) t
      by (simp add: dispatchPacket_def bindM_run thenM_run one_client_facts admin_login_def mkPacket_def sendPacket_run)
    then show ?thesis by blast
  qed (use r(1) t in \<open>auto simp: dispatchPacket_def bindM_run thenM_run one_client_facts admin_login_def mkPacket_def sendPacket_run\<close>)
  then have "\<exists>ws. admin_node = n'\<lparr>n_sent := ws\<rparr>"
    by (auto simp: admin_node_def one_client_def ignoreM_def thenM_run)
  then show ?thesis using r(2) by blast
qed

lemma admin_node_facts:
  "map_of (sessions admin_node) 5 = Some \<lparr>cs_socket = 5, cs_user = \<lparr>u_username = ''admin'', u_email = ''admin@example.com'',
     u_type = stringToType (c_str (ur_type admin_row))\<rparr>, cs_room = LOBBY, cs_closed = False, cs_authenticated = True, cs_lastHeartbeat = 0\<rparr>"
  "t_users (n_db admin_node) = t_users new_db" "t_messages (n_db admin_node) = []" "n_cfg admin_node = default_config"
  "n_now admin_node = 0" "gossip_wired admin_node" "nextPresenceSeq admin_node = 2"
  "set (seenEvents admin_node) \<subseteq> {''node1-LOGIN-admin-0-1'', ''node1-ROOM_JOIN-admin-0-2''}"
proof -
  obtain n' ws where l: "logged_on 5 (mkSession 5 (anonymousUser 0) LOBBY 0) admin_row one_client n'" "admin_node = n'\<lparr>n_sent := ws\<rparr>"
    using admin_node_eq by blast
  have i: "next_id one_client ''LOGIN'' ''admin'' = ''node1-LOGIN-admin-0-1''"
    "next_id (one_client\<lparr>nextPresenceSeq := nextPresenceSeq one_client + 1\<rparr>) ''ROOM_JOIN'' ''admin'' = ''node1-ROOM_JOIN-admin-0-2''"
    by (simp_all add: next_id_def nodeId_def one_client_facts default_config_def nat_to_string.simps int_to_string_def small_digits)
  show "map_of (sessions admin_node) 5 = Some \<lparr>cs_socket = 5, cs_user = \<lparr>u_username = ''admin'', u_email = ''admin@example.com'',
     u_type = stringToType (c_str (ur_type admin_row))\<rparr>, cs_room = LOBBY, cs_closed = False, cs_authenticated = True, cs_lastHeartbeat = 0\<rparr>"
    "t_users (n_db admin_node) = t_users new_db" "t_messages (n_db admin_node) = []" "n_cfg admin_node = default_config"
    "n_now admin_node = 0" "gossip_wired admin_node" "nextPresenceSeq admin_node = 2"
    unfolding l(2) using l(1) by (simp_all add: logged_on_def one_client_facts new_db_tables mkSession_def user_of_row_def admin_row_facts)
  show "set (seenEvents admin_node) \<subseteq> {''node1-LOGIN-admin-0-1'', ''node1-ROOM_JOIN-admin-0-2''}"
    unfolding l(2) using l(1) i by (simp add: logged_on_def one_client_facts admin_row_facts)
qed

section \<open>Logging out\<close>

lemma applyLogout_run:
  assumes "db_faults (n_db n) = []" and "u \<noteq> []"
  shows "applyLogout u n = (Inr True, n\<lparr>n_db := (n_db n)\<lparr>t_online := filter (\<lambda>r. on_username r \<noteq> u) (t_online (n_db n)),
     t_membership := filter (\<lambda>m. ms_username m \<noteq> u) (t_membership (n_db n))\<rparr>\<rparr>)"
  using assms by (simp add: applyLogout_def thenM_run dbM_def zoomM_def membership_runs)

lemma rumorLogout_run:
  assumes "gossip_wired n" and "next_id n ''LOGOUT'' u \<notin> set (seenEvents n)" and "short (next_id n ''LOGOUT'' u)"
    and "db_faults (n_db n) = []" and "u \<noteq> []"
  shows "\<exists>ws q. rumorPresence ''LOGOUT'' u n = (Inr (), (logged (next_id n ''LOGOUT'' u) q (n\<lparr>nextPresenceSeq := nextPresenceSeq n + 1\<rparr>))
     \<lparr>n_db := (n_db n)\<lparr>t_online := filter (\<lambda>r. on_username r \<noteq> u) (t_online (n_db n)),
       t_membership := filter (\<lambda>m. ms_username m \<noteq> u) (t_membership (n_db n))\<rparr>, n_sent := ws\<rparr>)"
proof -
  let ?q = "event_packet n ''LOGOUT'' u (nodeId n) (int_to_string (n_now n)) []"
  let ?l = "logged (next_id n ''LOGOUT'' u) ?q (n\<lparr>nextPresenceSeq := nextPresenceSeq n + 1\<rparr>)"
  note parts = next_id_parts [OF assms(3)]
  have "applyEvent ?q ?l = (Inr True, ?l\<lparr>n_db := (n_db n)\<lparr>t_online := filter (\<lambda>r. on_username r \<noteq> u) (t_online (n_db n)),
       t_membership := filter (\<lambda>m. ms_username m \<noteq> u) (t_membership (n_db n))\<rparr>\<rparr>)"
    using applyLogout_run [of ?l u] assms(4,5) by (simp add: applyEvent_def event_fields [OF assms(3) parts(1,3)])
  from rumorEvent_applied [OF assms(1,2) parts(4) assms(3) parts(2,1,3) this]
  show ?thesis by (auto simp: rumorPresence_def nowText_def bindM_run)
qed

text \<open>C12: logging out ends the presence of the user: the session is anonymous, not authenticated and in
  the Lobby, other sessions are unchanged, and the database holds neither a presence row nor a
  membership row of the user; users and messages stay. The id of the event must be new.\<close>

theorem logout_clears_presence:
  assumes reach: "reach enabled (node_exec A) (booted c) n" and s: "map_of (sessions n) fd = Some s" "cs_authenticated s"
    and u: "u_username (cs_user s) = u" "u \<noteq> []" and p: "p_type p = LOGOUT" and net: "gossip_wired n"
    and i: "next_id n ''LOGOUT'' u \<notin> set (seenEvents n)" "short (next_id n ''LOGOUT'' u)"
  shows "\<exists>n' g. processPacket A p fd n = (Inr (reply (response_to n p) SUCCESS ''logged out''), n') \<and>
    map_of (sessions n') = (map_of (sessions n))(fd \<mapsto> s\<lparr>cs_user := anonymousUser g, cs_authenticated := False, cs_room := LOBBY\<rparr>) \<and>
    t_online (n_db n') = filter (\<lambda>r. on_username r \<noteq> u) (t_online (n_db n)) \<and>
    t_membership (n_db n') = filter (\<lambda>m. ms_username m \<noteq> u) (t_membership (n_db n)) \<and>
    t_users (n_db n') = t_users (n_db n) \<and> t_messages (n_db n') = t_messages (n_db n)"
proof -
  have ok: "node_ok n" using node.reach_inv [OF reach booted_ok] .
  have fault: "db_faults (n_db n) = []" using reach_live [OF reach] by (rule db_live_simps)
  have lobby: "map_of (knownRooms n) (ro_name LOBBY) = Some LOBBY" "ro_name LOBBY \<noteq> []"
    using ok by (auto simp: node_inv_def rooms_known_def) (simp add: LOBBY_def mkRoom_def)
  define n1 where "n1 = n\<lparr>members := drop_member fd (ro_name (cs_room s)) (members n),
    sessions := AList.map_entry fd (\<lambda>s. s\<lparr>cs_room := LOBBY\<rparr>) (sessions n),
    n_db := (n_db n)\<lparr>t_membership := filter (\<lambda>m. ms_username m \<noteq> u) (t_membership (n_db n))\<rparr>\<rparr>"
  define g where "g = (case n_draws n1 of [] \<Rightarrow> 0 | x # _ \<Rightarrow> x)"
  define n2 where "n2 = n1\<lparr>n_draws := tl (n_draws n1), sessions := AList.map_entry fd (\<lambda>s. s\<lparr>cs_user := anonymousUser g\<rparr>)
    (AList.map_entry fd (\<lambda>s. s\<lparr>cs_authenticated := False\<rparr>) (sessions n1))\<rparr>"
  let ?s2 = "s\<lparr>cs_user := anonymousUser g, cs_authenticated := False, cs_room := LOBBY\<rparr>"
  define n3 where "n3 = relocated fd (ro_name LOBBY) LOBBY n2"
  have m2: "map_of (sessions n2) = (map_of (sessions n))(fd \<mapsto> ?s2)"
    using s by (auto simp: n2_def n1_def session_map_entry fun_eq_iff option.map_ident)
  have "leaveAll fd s n = (Inr (), n1)"
    using s(2) u fault by (simp add: leaveAll_def thenM_run removeSocketLocked_run setRoom_run catchM_run dbM_def zoomM_def
        membership_runs n1_def)
  moreover have "joinRoom (ro_name LOBBY) fd n2 = (Inr True, n3)"
    using joinRoom_guest_run [of n2 fd ?s2 LOBBY] m2 lobby by (simp add: n3_def) (simp add: n2_def n1_def)
  moreover obtain ws q where "rumorPresence ''LOGOUT'' u n3 = (Inr (), (logged (next_id n ''LOGOUT'' u) q (n3\<lparr>nextPresenceSeq := nextPresenceSeq n3 + 1\<rparr>))
     \<lparr>n_db := (n_db n3)\<lparr>t_online := filter (\<lambda>r. on_username r \<noteq> u) (t_online (n_db n3)),
       t_membership := filter (\<lambda>m. ms_username m \<noteq> u) (t_membership (n_db n3))\<rparr>, n_sent := ws\<rparr>)"
    using rumorLogout_run [of n3 u] next_id_frame [of n3 n] net i u(2) fault
    by (auto simp: n3_def n2_def n1_def relocated_def)
  moreover have "map_of (sessions n3) = (map_of (sessions n))(fd \<mapsto> ?s2)"
    using m2 by (auto simp: n3_def relocated_def session_map_entry fun_eq_iff option.map_ident)
  moreover have "n_db n3 = (n_db n)\<lparr>t_membership := filter (\<lambda>m. ms_username m \<noteq> u) (t_membership (n_db n))\<rparr>"
    by (simp add: n3_def n2_def n1_def relocated_def)
  ultimately show ?thesis
    using p s u
    by (simp add: processPacket_def handleLogout_def response_to_def bindM_run thenM_run sessionM_def setUser_def setAuthenticated_def
        upd_session_def anonymousUserM_def drawM_def g_def [symmetric] n2_def [symmetric]) blast
qed

theorem logout_clears_presence_witness:
  "\<exists>n'. processPacket plain_argon2 (mkPacket 0 ''admin'' [] LOGOUT [] [] 0) 5 admin_node = 
     (Inr (reply (response_to admin_node (mkPacket 0 ''admin'' [] LOGOUT [] [] 0)) SUCCESS ''logged out''), n') \<and> t_messages (n_db n') = []"
proof -
  have i: "next_id admin_node ''LOGOUT'' ''admin'' = ''node1-LOGOUT-admin-0-3''"
    by (simp add: next_id_def nodeId_def admin_node_facts default_config_def nat_to_string.simps int_to_string_def small_digits)
  then have "next_id admin_node ''LOGOUT'' ''admin'' \<notin> set (seenEvents admin_node)" using admin_node_facts(8) by auto
  then show ?thesis
    using logout_clears_presence [OF admin_node_reach admin_node_facts(1), of "''admin''" "mkPacket 0 ''admin'' [] LOGOUT [] [] 0"] i
    by (auto simp: admin_node_facts mkPacket_def)
qed

end
