(* ===== verification/Message_Theorems.thy ===== *)
theory Message_Theorems
  imports Presence_Theorems
begin

text \<open>
  Chat messages: what happens to a message of a logged-in user, of a guest, and to a message event that
  arrives more than once.
\<close>

declare map_of_eq_Some_iff [simp del] Some_eq_map_of_iff [simp del]

text \<open>C3: a message of a logged-in user is stored once and delivered. If the sender's row is stored
  and the event id is new, the reply is ok, one row with the sender, the room, the text and the time is
  added to the messages of the room, every other table is unchanged, the text is written once to every
  reachable client in the sender's room and to nobody else, and the event goes to every connected peer.\<close>

theorem message_stored_and_delivered:
  assumes reach: "reach enabled (node_exec A) (booted c) n" and s: "map_of (sessions n) fd = Some s" "cs_authenticated s"
    and room: "cs_room s = room" "ro_name room \<noteq> []" and u: "u_username (cs_user s) = u"
    and row: "find (\<lambda>r. ur_username r = u) (t_users (n_db n)) = Some r" "nul_free u" "nul_free (ur_email r)"
    and p: "p_type p = MESSAGE" "p_message p \<noteq> []"
    and net: "gossip_wired n" and now: "0 \<le> n_now n" "n_now n < 2 ^ 63"
    and i: "i = next_id n ''MESSAGE'' u" "i \<notin> set (seenEvents n)" "\<not> (\<exists>m\<in>set (t_messages (n_db n)). mr_id m = i)"
    and out: "out = event_packet n ''MESSAGE'' u (p_message p) (int_to_string (n_now n)) (ro_name room)" "serialize out \<noteq> []"
    and push: "push = message_push n u (ro_name room) (p_message p) (n_now n)"
  shows "\<exists>n'. processPacket A p fd n = (Inr (reply (response_to n p) SUCCESS ''ok''), n') \<and>
    n_db n' = (n_db n)\<lparr>t_messages := t_messages (n_db n) @ [message_of n i room r (p_message p) (n_now n)]\<rparr> \<and>
    n_sent n' = n_sent n @
      map (wire_of n push) (filter (\<lambda>fd. fd \<noteq> INVALID_SOCKET \<and> reachable_fd n push fd) (members_of n (ro_name room))) @
      map (\<lambda>fd. (fd, Tcp out)) (filter (\<lambda>fd. fd \<notin> set (n_broken n)) (peerSocketsLocked n))"
proof -
  let ?rn = "ro_name room" and ?ts = "int_to_string (n_now n)"
  let ?f = "\<lparr>f_type = ''MESSAGE'', f_eventId = i, f_username = u, f_content = p_message p, f_field5 = ?ts\<rparr>"
  let ?l = "logged i out (n\<lparr>nextPresenceSeq := nextPresenceSeq n + 1\<rparr>)"
  let ?a = "?l\<lparr>n_draws := tl (n_draws n), n_db := (n_db n)\<lparr>t_messages := t_messages (n_db n) @ [message_of n i room r (p_message p) (n_now n)]\<rparr>,
      n_sent := n_sent n @ map (wire_of n push) (filter (\<lambda>fd. fd \<noteq> INVALID_SOCKET \<and> reachable_fd n push fd) (members_of n ?rn))\<rparr>"
  have ok: "node_ok n" using node.reach_inv [OF reach booted_ok] .
  then have known: "map_of (knownRooms n) ?rn = Some room"
    using s(1) room(1) by (auto simp: node_inv_def sessions_ok_def eff_room_def)
  then have id: "ro_id room \<in> known_ids n" by (force simp: known_ids_def dest: map_of_SomeD)
  have msg: "p_message out = encodeFields ?f" "p_room out = ?rn"
    by (simp_all add: out(1) event_packet_def mkPacket_def encodeFields_def i(1))
  have sh: "fields_short ?f"
    using out(2) by (simp add: serialize_nonempty msg encodeFields_def encode_put fields_short_def MAX_PAYLOAD_BYTES_def put_str_def)
  have "applyMessage ?rn i u (p_message p) ?ts ?l = (Inr True, ?a)"
    using applyMessage_run [where n = ?l, OF _ _ room(2) _ id] reach_live [OF reach] known row i(3) std_stoll_int now
    by (simp add: push message_push_def message_of_def nodeId_def)
  then have applied: "applyEvent out ?l = (Inr True, ?a)" by (simp add: applyEvent_def msg decode_encode [OF sh])
  have "rumorEvent ''MESSAGE'' u (p_message p) ?ts ?rn n =
      thenM (applyEvent out) (bindM (getsM peerSocketsLocked) (\<lambda>fds. gossipSend_all fds out)) ?l"
    using rumorEvent_run [OF net, of "''MESSAGE''" u "p_message p" ?ts ?rn] i(1,2) sh out(1) by (simp add: fields_short_def)
  then have "rumorMessage u (p_message p) ?rn n = (Inr (), ?a\<lparr>n_sent := n_sent ?a @
      map (\<lambda>fd. (fd, Tcp out)) (filter (\<lambda>fd. fd \<notin> set (n_broken n)) (peerSocketsLocked n))\<rparr>)"
    using applied gossipSend_all_run [OF out(2)]
    by (simp add: rumorMessage_def nowText_def bindM_run thenM_run peerSocketsLocked_def)
  then show ?thesis
    using p s u room(1) by (simp add: processPacket_def handleMessage_def bindM_run catchM_run thenM_run sessionM_def response_to_def Let_def)
qed

theorem message_stored_and_delivered_witness:
  "\<exists>n'. processPacket plain_argon2 (mkPacket 0 ''admin'' [] MESSAGE [] ''hello'' 0) 5 admin_node =
      (Inr (reply (response_to admin_node (mkPacket 0 ''admin'' [] MESSAGE [] ''hello'' 0)) SUCCESS ''ok''), n') \<and>
    map mr_content (t_messages (n_db n')) = [''hello'']"
proof -
  let ?p = "mkPacket 0 ''admin'' [] MESSAGE [] ''hello'' 0"
  have i: "next_id admin_node ''MESSAGE'' ''admin'' = ''node1-MESSAGE-admin-0-3''"
    by (simp add: next_id_def nodeId_def admin_node_facts default_config_def nat_to_string.simps int_to_string_def small_digits)
  have "next_id admin_node ''MESSAGE'' ''admin'' \<notin> set (seenEvents admin_node)" using admin_node_facts(8) by (auto simp: i)
  then show ?thesis
    using message_stored_and_delivered [OF admin_node_reach admin_node_facts(1), where room = LOBBY and u = "''admin''" and
        r = admin_row and p = ?p and i = "next_id admin_node ''MESSAGE'' ''admin''" and
        out = "event_packet admin_node ''MESSAGE'' ''admin'' (p_message ?p) (int_to_string (n_now admin_node)) (ro_name LOBBY)" and
        push = "message_push admin_node ''admin'' (ro_name LOBBY) (p_message ?p) (n_now admin_node)"]
      admin_row_facts
    by (auto simp: admin_node_facts mkPacket_def LOBBY_def mkRoom_def serialize_nonempty event_packet_def
        isValidPacketType_iff MAX_PAYLOAD_BYTES_def encode_put i nodeId_def default_config_def message_of_def
        int_to_string_def nat_to_string.simps)
qed

section \<open>Guests\<close>

text \<open>A message of a client that is not logged in reaches the open connections of its room and is
  stored nowhere: the database is unchanged and no event is sent to the cluster.\<close>

theorem guest_message_not_stored:
  assumes "map_of (sessions n) fd = Some s" and "\<not> cs_authenticated s" and "p_type p = MESSAGE" and "p_message p \<noteq> []"
    and "push = mkPacket (of_int (n_now n)) (u_username (cs_user s)) [] MESSAGE (ro_name (cs_room s)) (p_message p) 0"
  shows "processPacket A p fd n = (Inr (reply (response_to n p) SUCCESS ''ok''), n\<lparr>n_sent := n_sent n @ map (wire_of n push)
    (filter (\<lambda>fd. fd \<noteq> INVALID_SOCKET \<and> reachable_fd n push fd) (members_of n (ro_name (cs_room s))))\<rparr>)"
  using assms by (simp add: processPacket_def handleMessage_def bindM_run catchM_run thenM_run sessionM_def response_to_def Let_def
      packetM_def broadcast_run)

theorem guest_message_not_stored_witness:
  "n_db (snd (processPacket plain_argon2 (mkPacket 0 ''anon'' [] MESSAGE [] ''hi'' 0) 5 one_client)) = new_db"
  using guest_message_not_stored [where n = one_client and fd = 5 and s = "mkSession 5 (anonymousUser 0) LOBBY 0" and
      p = "mkPacket 0 ''anon'' [] MESSAGE [] ''hi'' 0" and A = plain_argon2, OF _ _ _ _ refl]
  by (simp add: one_client_facts mkSession_def mkPacket_def)

end
