(* ===== verification/Access_Theorems.thy ===== *)
theory Access_Theorems
  imports Presence_Theorems
begin

text \<open>
  Who may do what: refused requests leave the node exactly as it was.
\<close>

declare map_of_eq_Some_iff [simp del] Some_eq_map_of_iff [simp del]

text \<open>C10: a client that is neither an administrator nor logged in and on the allow list cannot enter a
  private room: the request is refused and the node is left exactly as it was.\<close>

theorem private_room_refused:
  assumes "reach enabled (node_exec A) (booted c) n" and "map_of (sessions n) fd = Some s"
    and "p_type p = ROOM_JOIN" and "p_room p \<noteq> []" and "map_of (knownRooms n) (p_room p) = Some room"
    and "ro_privacy room = PRIVATE" and "\<not> admitted n s room"
  shows "processPacket A p fd n = (Inr (reply (response_to n p) ERROR (''not allowed to join '' @ p_room p)), n)"
  using assms mayJoin_run [OF reach_live [OF assms(1)], of s room]
  by (simp add: processPacket_def handleRoomJoin_def response_to_def bindM_run catchM_run getRoom_def sessionM_def Let_def)

text \<open>A node that has learned of a private room from a peer.\<close>

definition vault_event :: packet where
  "vault_event = mkPacket 0 ''node2'' ''*'' GOSSIP_EVENT ''vault'' (encode ''ROOM_CREATED'' ''e1'' [] ''Other'' ''PRIVATE'') 0"

definition vault_node :: node where
  "vault_node = run_all (node_exec plain_argon2) [Accept 5, PeerPacket 7 True vault_event] (booted default_config)"

lemma vault_node_reach: "reach enabled (node_exec plain_argon2) (booted default_config) vault_node"
  unfolding vault_node_def by (rule run_all_reach) (simp add: booted_eq fresh_node_def)

lemma broadcastAll_sent: "\<exists>b ws. broadcastAll p skip n = (Inr b, n\<lparr>n_sent := ws\<rparr>)"
proof -
  have "\<exists>b ws. broadcastRooms rs p skip n = (Inr b, n\<lparr>n_sent := ws\<rparr>)" for rs n
  proof (induction rs arbitrary: n)
    case Nil
    have "n = n\<lparr>n_sent := n_sent n\<rparr>" by simp
    then show ?case unfolding broadcastRooms.simps returnM_run by blast
  next
    case (Cons r rs)
    obtain b ws where r: "broadcast r p skip n = (Inr b, n\<lparr>n_sent := ws\<rparr>)" by (simp add: broadcast_run)
    obtain b' ws' where "broadcastRooms rs p skip (n\<lparr>n_sent := ws\<rparr>) = (Inr b', n\<lparr>n_sent := ws, n_sent := ws'\<rparr>)"
      using Cons.IH [of "n\<lparr>n_sent := ws\<rparr>"] by blast
    then show ?case using r by (simp add: bindM_run) blast
  qed
  then show ?thesis by (simp add: broadcastAll_def bindM_run)
qed

lemma vault_node_facts:
  "map_of (sessions vault_node) 5 = Some (mkSession 5 (anonymousUser 0) LOBBY 0)"
  "map_of (knownRooms vault_node) ''vault'' = Some (mkRoom 3 ''vault'' OTHER PRIVATE)"
proof -
  let ?d = "mkRoom 3 ''vault'' OTHER PRIVATE"
  have dec: "decode (p_message vault_event) = Some \<lparr>f_type = ''ROOM_CREATED'', f_eventId = ''e1'', f_username = [], f_content = ''Other'', f_field5 = ''PRIVATE''\<rparr>"
    using decode_encode [of "\<lparr>f_type = ''ROOM_CREATED'', f_eventId = ''e1'', f_username = [], f_content = ''Other'', f_field5 = ''PRIVATE''\<rparr>"]
    by (simp add: vault_event_def mkPacket_def encodeFields_def fields_short_def)
  have ident: "eventIdFromPacket vault_event = ''e1''" using eventId_decode [OF dec] by (simp add: eventIdFromPacket_def)
  let ?l = "logged ''e1'' vault_event one_client"
  have "t_room_seq new_db = 2" by (simp add: new_db_eq sql_init_def seed_room_def seed_user_def empty_db_def
      lobby_row_def general_row_def)
  then have "\<exists>d. insert_room ''vault'' OTHER PRIVATE new_db = (Inr ?d, d)"
    by (simp add: insert_room_def new_db_tables sql_create_room_def Let_def lobby_row_def general_row_def room_type_check_def
        roomTypeToString_def typeMap_def privacyToString_def privacyMap_def privacy_check_def)
  then obtain d where "dbM (db_createRoom ''vault'' OTHER PRIVATE []) ?l = (Inr ?d, ?l\<lparr>n_db := d\<rparr>)"
    by (auto simp: db_createRoom_def dbM_def zoomM_def bindM_run thenM_run one_client_facts)
  moreover have known: "map_of (knownRooms ?l) ''vault'' = None"
    by (simp add: one_client_facts LOBBY_def GENERAL_def mkRoom_def)
  moreover have noted: "noteEvent ''e1'' vault_event one_client = (Inr True, ?l)"
    by (simp add: noteEvent_def logged_def one_client_facts)
  moreover have evt: "p_type vault_event = GOSSIP_EVENT" "p_room vault_event = ''vault''" by (simp_all add: vault_event_def mkPacket_def)
  ultimately have create: "rm_createRoom (mkRoom 0 ''vault'' OTHER PRIVATE) [] ?l =
      (Inr True, ?l\<lparr>n_db := d, knownRooms := knownRooms ?l @ [(''vault'', ?d)]\<rparr>)"
    by (simp add: rm_createRoom_def bindM_run catchM_run thenM_run mkRoom_def)
  let ?m = "?l\<lparr>n_db := d, knownRooms := knownRooms ?l @ [(''vault'', ?d)]\<rparr>"
  obtain b ws where push: "broadcastAll (mkPacket (of_int (n_now ?m)) ''server'' ''*'' ROOM_LIST [] (serializeList (map snd (knownRooms ?m))) 0)
      INVALID_SOCKET ?m = (Inr b, ?m\<lparr>n_sent := ws\<rparr>)" using broadcastAll_sent by blast
  have "peerPacket 7 True vault_event one_client = (Inr (True, False), ?m\<lparr>n_sent := ws\<rparr>)"
    using create push dec ident evt known
    by (simp add: peerPacket_def peerEvent_def Let_def noted bindM_run thenM_run applyEvent_def applyRoomCreated_def getRoom_def
        pushRoomList_def rm_listRooms_def packetM_def stringToRoomType_def typeMap_def stringToPrivacy_def privacyMap_def)
  then have eq: "vault_node = ?m\<lparr>n_sent := ws\<rparr>"
    by (simp add: vault_node_def one_client_def ignoreM_def thenM_run)
  show "map_of (sessions vault_node) 5 = Some (mkSession 5 (anonymousUser 0) LOBBY 0)"
    "map_of (knownRooms vault_node) ''vault'' = Some ?d"
    unfolding eq by (simp_all add: one_client_facts LOBBY_def GENERAL_def mkRoom_def)
qed

theorem private_room_refused_witness:
  "processPacket plain_argon2 (mkPacket 0 ''anon'' [] ROOM_JOIN ''vault'' [] 0) 5 vault_node =
     (Inr (reply (response_to vault_node (mkPacket 0 ''anon'' [] ROOM_JOIN ''vault'' [] 0)) ERROR ''not allowed to join vault''), vault_node)"
  using private_room_refused [OF vault_node_reach vault_node_facts(1), of "mkPacket 0 ''anon'' [] ROOM_JOIN ''vault'' [] 0", OF _ _ _ _ ] vault_node_facts(2)
  by (simp add: mkPacket_def mkRoom_def admitted_def isAdmin_def mkSession_def)

text \<open>The room a request is about, and who created it.\<close>

definition requested_room :: "clientSession \<Rightarrow> packet \<Rightarrow> string" where
  "requested_room s p = (if p_room p = [] then ro_name (cs_room s) else p_room p)"

definition created_by :: "node \<Rightarrow> string \<Rightarrow> string \<Rightarrow> bool" where
  "created_by n r e \<longleftrightarrow> (\<exists>room. map_of (knownRooms n) r = Some room \<and>
     (\<exists>a\<in>set (t_allow (n_db n)). al_room a = ro_id room \<and> al_email a = e \<and> al_creator a))"

lemma mayManage_refused:
  assumes "reach enabled (node_exec A) (booted c) n" and "\<not> isAdmin s" and "\<not> created_by n r (u_email (cs_user s))"
    and "map_of (knownRooms n) r = Some room"
  shows "mayManage s room n = (Inr False, n)"
  using assms(2-4) reach_live [OF assms(1)]
  by (auto simp: mayManage_def created_by_def isAllowListCreator_def dbM_query sql_is_allow_list_creator_def filter_empty_conv)

text \<open>C31: only an administrator deletes a room: anyone else, the creator of the room included, is refused.
  Kicking from a room and inviting to it takes an administrator or the creator of that very room;
  having created another room does not help. The refused client gets a reply other than SUCCESS and
  the node is left exactly as it was.\<close>

theorem unprivileged_requests_change_nothing:
  assumes "reach enabled (node_exec A) (booted c) n" and "map_of (sessions n) fd = Some s" and "\<not> isAdmin s"
    and "p_type p = ROOM_DELETE \<or>
      (p_type p = ROOM_KICK \<or> p_type p = ROOM_INVITE) \<and> \<not> created_by n (requested_room s p) (u_email (cs_user s))"
  shows "\<exists>r. processPacket A p fd n = (Inr r, n) \<and> p_code r \<noteq> responseCode SUCCESS"
proof -
  note run = processPacket_def bindM_run getRoom_def sessionM_def Let_def reply_def denyForbidden_def notAuthenticated_def catchM_run
  from assms(4) consider "p_type p = ROOM_DELETE"
    | "p_type p = ROOM_KICK \<or> p_type p = ROOM_INVITE" "\<not> created_by n (requested_room s p) (u_email (cs_user s))" by blast
  then show ?thesis
  proof cases
    case 1
    then show ?thesis using assms(2,3) by (simp add: run handleRoomDelete_def)
  next
    case 2
    show ?thesis
    proof (cases "map_of (knownRooms n) (requested_room s p)")
      case None
      then show ?thesis using assms(2) 2(1) by (auto simp: run handleRoomKick_def handleRoomInvite_def requested_room_def)
    next
      case (Some room)
      have "mayManage s room n = (Inr False, n)" using mayManage_refused [OF assms(1,3) 2(2) Some] .
      then show ?thesis
        using assms(2,3) 2(1) Some by (auto simp: run handleRoomKick_def handleRoomInvite_def requested_room_def)
    qed
  qed
qed

theorem unprivileged_requests_change_nothing_witness:
  "(\<exists>r. processPacket plain_argon2 (mkPacket 0 ''anon'' [] ROOM_DELETE ''General'' [] 0) 5 one_client = (Inr r, one_client) \<and>
     p_code r \<noteq> responseCode SUCCESS) \<and>
   (\<exists>r. processPacket plain_argon2 (mkPacket 0 ''anon'' [] ROOM_KICK ''General'' ''user'' 0) 5 one_client = (Inr r, one_client) \<and>
     p_code r \<noteq> responseCode SUCCESS)"
  by (intro conjI; rule unprivileged_requests_change_nothing [OF one_client_reach, where s = "mkSession 5 (anonymousUser 0) LOBBY 0"])
    (simp_all add: one_client_facts isAdmin_def mkSession_def mkPacket_def new_db_tables created_by_def)

text \<open>C32: a login with a wrong name or password, or for a user who is already logged in on this node or
  has a presence row for any node, is refused and changes nothing; the two reasons for a failed
  authentication cannot be told apart.\<close>

theorem login_refused:
  assumes "reach enabled (node_exec A) (booted c) n" and "p_type p = LOGIN"
    and "\<And>r. find (\<lambda>r. ur_username r = p_sender p) (t_users (n_db n)) = Some r \<Longrightarrow>
       checkPassword A (p_message p) (c_str (ur_password r)) \<Longrightarrow> logged_in n (user_of_row r)"
  shows "processPacket A p fd n = (Inr (reply (response_to n p) ERROR
    (case find (\<lambda>r. ur_username r = p_sender p) (t_users (n_db n)) of
       Some r \<Rightarrow> if checkPassword A (p_message p) (c_str (ur_password r)) then ''user already logged in'' else auth_failed
     | None \<Rightarrow> auth_failed)), n)"
proof -
  let ?f = "find (\<lambda>r. ur_username r = p_sender p) (t_users (n_db n))"
  have live: "db_live (known_ids n) (n_db n)" using assms(1) by (rule reach_live)
  have login: "dbM (loginUser A (p_sender p) (p_message p)) n = (Inr (case ?f of None \<Rightarrow> Inl auth_failed
      | Some r \<Rightarrow> if checkPassword A (p_message p) (c_str (ur_password r)) then Inr (user_of_row r) else Inl auth_failed), n)"
    using login_user_run [OF live, of A "p_sender p" "p_message p"] by (simp add: dbM_def zoomM_def)
  show ?thesis
    using assms(2,3) login isUserOnline_run [OF live]
    by (auto simp: processPacket_def handleLogin_def response_to_def bindM_run catchM_run hasSession_def
        alreadyLoggedIn_def logged_in_def Let_def split: option.split)
qed

theorem login_refused_witness:
  "processPacket plain_argon2 (mkPacket 0 ''nobody'' [] LOGIN [] ''guess'' 0) 5 one_client =
     (Inr (reply (response_to one_client (mkPacket 0 ''nobody'' [] LOGIN [] ''guess'' 0)) ERROR auth_failed), one_client)"
proof -
  have "find (\<lambda>r. ur_username r = ''nobody'') (t_users (n_db one_client)) = None"
    unfolding one_client_facts(2) by (rule find_user_None) (simp add: new_db_names)
  then show ?thesis
    using login_refused [OF one_client_reach, of "mkPacket 0 ''nobody'' [] LOGIN [] ''guess'' 0" 5] by (simp add: mkPacket_def)
qed

end
