(* ===== verification/History_Theorems.thy ===== *)
theory History_Theorems
  imports Store_Theorems
begin

text \<open>
  The stored messages: what \<open>loadHistory\<close> returns, storing a message again, and deleting a room with
  everything that belongs to it.
\<close>

section \<open>Loading the history of a room\<close>

text \<open>The message a stored row is read back as.\<close>

definition message_of_row :: "db \<Rightarrow> message_row \<Rightarrow> chat_message" where
  "message_of_row d r =
     \<lparr>m_from = \<lparr>u_username = c_str (mr_username r), u_email = c_str (mr_email r), u_type = stringToType (c_str (joined_type d (mr_email r)))\<rparr>,
      m_to = \<lparr>u_username = [], u_email = [], u_type = GUEST\<rparr>,
      m_content = c_str (mr_content r), m_timestamp = mr_created r, m_id = c_str (mr_id r)\<rparr>"

definition int64 :: "int \<Rightarrow> bool" where
  "int64 t \<longleftrightarrow> - (2 ^ 63) \<le> t \<and> t < 2 ^ 63"

lemma messageFromRow_row:
  assumes "int64 (mr_created r)"
  shows "messageFromRow (map c_str [mr_id r, mr_username r, mr_content r, int_to_string (mr_created r), mr_email r,
      joined_type d (mr_email r)]) = Inr (message_of_row d r)"
  using assms by (simp add: messageFromRow_def message_of_row_def std_stoll_int int64_def)

lemma mapE_Inr: "(\<And>x. x \<in> set xs \<Longrightarrow> f x = Inr (g x)) \<Longrightarrow> mapE f xs = Inr (map g xs)"
  by (induction xs) auto

lemma mapE_map: "mapE f (map g xs) = mapE (f \<circ> g) xs"
  by (induction xs) (auto split: sum.split)

definition newest_first :: "int \<Rightarrow> db \<Rightarrow> message_row list" where
  "newest_first i d = sort_key (\<lambda>m. - mr_created m) (filter (\<lambda>m. mr_room m = i) (t_messages d))"

lemma loadHistory_run:
  assumes "db_faults d = []" and "\<And>r. r \<in> set (t_messages d) \<Longrightarrow> int64 (mr_created r)"
  shows "loadHistory i d = (Inr (map (message_of_row d) (take 100 (newest_first i d))), d)"
proof -
  have "mapE messageFromRow (map (map c_str) (sql_load_history i d)) = Inr (map (message_of_row d) (take 100 (newest_first i d)))"
    unfolding sql_load_history_def map_map mapE_map newest_first_def [symmetric]
    using assms(2) messageFromRow_row by (intro mapE_Inr) (auto dest!: in_set_takeD simp: newest_first_def)
  then show ?thesis using assms(1) by (simp add: loadHistory_def bindM_run query_ready liftE_def)
qed

lemma newest_first_split:
  assumes "r \<in> set (newest_first i d)" and "r \<notin> set (take k (newest_first i d))" and "x \<in> set (take k (newest_first i d))"
  shows "mr_created r \<le> mr_created x"
proof -
  let ?xs = "newest_first i d"
  have "sorted (map (\<lambda>m. - mr_created m) (take k ?xs @ drop k ?xs))" by (simp add: newest_first_def)
  moreover have "r \<in> set (drop k ?xs)" using assms(1,2) by (metis Un_iff append_take_drop_id set_append)
  ultimately show ?thesis using assms(3) unfolding map_append sorted_append by fastforce
qed

text \<open>C36: the history of a room has at most 100 messages of that room, newest first, and leaves out a
  stored message only for 100 others that are at least as new.\<close>

theorem load_history_spec:
  assumes "db_faults d = []" and "\<forall>r\<in>set (t_messages d). int64 (mr_created r)"
  shows "\<exists>h. loadHistory i d = (Inr h, d) \<and>
    length h = min 100 (length (filter (\<lambda>r. mr_room r = i) (t_messages d))) \<and> sorted (rev (map m_timestamp h)) \<and>
    set h \<subseteq> message_of_row d ` {r \<in> set (t_messages d). mr_room r = i} \<and>
    (\<forall>r\<in>set (t_messages d). mr_room r = i \<longrightarrow>
       message_of_row d r \<in> set h \<or> length h = 100 \<and> (\<forall>m\<in>set h. mr_created r \<le> m_timestamp m))"
proof -
  let ?xs = "newest_first i d"
  let ?h = "map (message_of_row d) (take 100 ?xs)"
  have mem: "set ?xs = {r \<in> set (t_messages d). mr_room r = i}" by (auto simp: newest_first_def)
  have len: "length ?xs = length (filter (\<lambda>r. mr_room r = i) (t_messages d))" by (simp add: newest_first_def)
  have "sorted (map (\<lambda>m. - mr_created m) (take 100 ?xs))"
    unfolding take_map [symmetric] newest_first_def by (intro sorted_wrt_take) simp
  then have "sorted (rev (map m_timestamp ?h))"
    by (simp add: sorted_wrt_map sorted_wrt_rev comp_def message_of_row_def rev_map [symmetric])
  moreover have "message_of_row d r \<in> set ?h \<or> length ?h = 100 \<and> (\<forall>m\<in>set ?h. mr_created r \<le> m_timestamp m)"
    if "r \<in> set ?xs" for r
  proof (cases "r \<in> set (take 100 ?xs)")
    case False
    then have "length ?xs \<ge> 100" using that by (metis nle_le take_all)
    then show ?thesis using newest_first_split [OF that False] by (auto simp: message_of_row_def)
  qed auto
  moreover have "set ?h \<subseteq> message_of_row d ` set ?xs" by (auto dest: in_set_takeD)
  ultimately show ?thesis using loadHistory_run [OF assms(1)] assms(2) mem len by (intro exI [of _ ?h]) auto
qed

definition old_row :: message_row where
  "old_row = \<lparr>mr_id = ''m1'', mr_room = 1, mr_username = ''user'', mr_email = ''user@example.com'', mr_content = ''first'',
     mr_created = 10, mr_origin = ''node1''\<rparr>"

definition new_row :: message_row where
  "new_row = old_row\<lparr>mr_id := ''m2'', mr_content := ''second'', mr_created := 20\<rparr>"

theorem load_history_spec_witness:
  "\<exists>h. loadHistory 1 (new_db\<lparr>t_messages := [old_row, new_row]\<rparr>) = (Inr h, new_db\<lparr>t_messages := [old_row, new_row]\<rparr>) \<and>
     length h = 2 \<and> sorted (rev (map m_timestamp h))"
  using load_history_spec [of "new_db\<lparr>t_messages := [old_row, new_row]\<rparr>" 1]
  by (auto simp: new_db_tables old_row_def new_row_def int64_def)

section \<open>Storing a message again\<close>

text \<open>A message is stored once: after it was stored, storing any message with the same id, under any
  room and origin, reports that nothing was new and leaves the database as it is.\<close>

theorem save_message_idempotent:
  assumes "db_live D d" and "saveMessage origin msg i d = (Inr b, d')" and "m_id msg' = m_id msg"
  shows "saveMessage origin' msg' i' d' = (Inr False, d')"
proof -
  have "db_live D d'" using live_all(11) [of D origin msg i, unfolded keeps_def] assms(1,2) by fastforce
  moreover have "\<exists>r\<in>set (t_messages d'). mr_id r = m_id msg"
    using assms(2) by (auto simp: saveMessage_def bindM_run run_sql_one [OF assms(1)] sql_save_message_def split: if_splits)
  ultimately show ?thesis using assms(3) by (auto simp: saveMessage_def bindM_run run_sql_one sql_save_message_def)
qed

theorem save_message_idempotent_witness:
  "\<exists>d. saveMessage ''node1'' \<lparr>m_from = \<lparr>u_username = ''user'', u_email = ''user@example.com'', u_type = USER\<rparr>,
       m_to = \<lparr>u_username = [], u_email = [], u_type = GUEST\<rparr>, m_content = ''hi'', m_timestamp = 5, m_id = ''m1''\<rparr> 1 new_db = (Inr True, d) \<and>
     saveMessage ''node2'' \<lparr>m_from = \<lparr>u_username = ''user'', u_email = ''user@example.com'', u_type = USER\<rparr>,
       m_to = \<lparr>u_username = [], u_email = [], u_type = GUEST\<rparr>, m_content = ''again'', m_timestamp = 6, m_id = ''m1''\<rparr> 2 d = (Inr False, d)"
  (is "\<exists>d. saveMessage _ ?m _ _ = _ \<and> saveMessage _ ?m' _ _ = _")
proof -
  have "\<exists>d. saveMessage ''node1'' ?m 1 new_db = (Inr True, d)"
    by (simp add: saveMessage_def bindM_run run_sql_one [OF new_db_live] sql_save_message_def new_db_tables has_room_def
        lobby_row_def new_db_names)
  then obtain d where d: "saveMessage ''node1'' ?m 1 new_db = (Inr True, d)" by blast
  from save_message_idempotent [OF new_db_live d, of ?m' "''node2''" 2] d show ?thesis by auto
qed

section \<open>Deleting a room\<close>

text \<open>C37: the two default rooms cannot be deleted; deleting any other stored room removes it together with
  its messages, memberships and allow list and nothing else, and deleting an unknown room fails with the
  database unchanged.\<close>

theorem db_delete_room_spec:
  assumes "db_live D d"
  shows "db_deleteRoom i d =
    (if i < 3 then (Inl (RuntimeError ''Cannot delete default rooms''), d)
     else if \<not> has_room d i then (Inl (ConstraintError ''Room not found''), d)
     else (Inr (), d\<lparr>t_rooms := filter (\<lambda>r. rr_id r \<noteq> i) (t_rooms d), t_messages := filter (\<lambda>m. mr_room m \<noteq> i) (t_messages d),
       t_membership := filter (\<lambda>m. ms_room m \<noteq> i) (t_membership d), t_allow := filter (\<lambda>a. al_room a \<noteq> i) (t_allow d)\<rparr>))"
proof -
  let ?d = "d\<lparr>t_rooms := filter (\<lambda>r. rr_id r \<noteq> i) (t_rooms d), t_messages := filter (\<lambda>m. mr_room m \<noteq> i) (t_messages d),
       t_membership := filter (\<lambda>m. ms_room m \<noteq> i) (t_membership d), t_allow := filter (\<lambda>a. al_room a \<noteq> i) (t_allow d)\<rparr>"
  have run: "execute (sql_delete_room i) d = (Inr (length (filter (\<lambda>r. rr_id r = i) (t_rooms d))), ?d)"
    using db_live_simps(2) [OF assms]
    by (auto simp: execute_def sql_delete_room_def step_stmt_ready bindM_run)
  have "?d = d" if "\<not> has_room d i"
  proof -
    have "\<forall>m\<in>set (t_messages d). mr_room m \<noteq> i" "\<forall>m\<in>set (t_membership d). ms_room m \<noteq> i"
      "\<forall>a\<in>set (t_allow d). al_room a \<noteq> i" "\<forall>r\<in>set (t_rooms d). rr_id r \<noteq> i"
      using db_live_simps(1) [OF assms] that
      by (auto simp: db_ok_def db_wf_def messages_ok_def membership_ok_def allow_ok_def has_room_def)
    then show ?thesis by (simp add: filter_id_conv [THEN iffD2])
  qed
  moreover have "filter (\<lambda>r. rr_id r = i) (t_rooms d) = [] \<longleftrightarrow> \<not> has_room d i"
    by (auto simp: has_room_def filter_empty_conv)
  ultimately show ?thesis using run by (simp add: db_deleteRoom_def bindM_run)
qed

theorem db_delete_room_spec_witness:
  "db_deleteRoom 3 new_db = (Inl (ConstraintError ''Room not found''), new_db)"
  using db_delete_room_spec [OF new_db_live, of 3] by (simp add: has_room_def new_db_tables lobby_row_def general_row_def)

end
