(* ===== verification/Web_Connection.thy ===== *)
theory Web_Connection
  imports Server_Node Web_Frames
begin

text \<open>
  The class \<open>WebConnection\<close> of src/server/web_connection.cpp: the browser listener, the list of live
  browser sockets and the handler of one browser. The handler runs over the chunks its socket
  delivers; the node below it is the state of the connection manager, whose sessions the browsers
  share with the TCP clients.
\<close>

text \<open>\<open>w_rawSent\<close> holds what is written past the packet layer (the HTTP response and pongs),
  \<open>w_shutdown\<close> the sockets \<open>stopListening\<close> shuts down, \<open>w_handedOff\<close> those whose handler has its
  local variable \<open>handedOff\<close> set.\<close>

record webServer =
  w_node :: node
  w_listening :: bool
  w_listenPort :: u16
  w_liveSockets :: "SOCKET list"
  w_rawSent :: "(SOCKET \<times> string) list"
  w_shutdown :: "SOCKET list"
  w_handedOff :: "SOCKET list"

definition onConnections :: "(node, 'a) mon \<Rightarrow> (webServer, 'a) mon" where
  "onConnections m = zoomM w_node (\<lambda>n w. w\<lparr>w_node := n\<rparr>) m"

section \<open>Listening\<close>

text \<open>\<open>bound\<close> is the result of \<open>getsockname\<close>.\<close>

definition web_startListening :: "bool \<Rightarrow> u16 option \<Rightarrow> (webServer, bool) mon" where
  "web_startListening listen_ok bound =
     bindM (getsM w_listening) (\<lambda>on.
       if on then returnM False
       else if \<not> listen_ok then returnM False
       else case bound of
         None \<Rightarrow> returnM False
       | Some port \<Rightarrow>
           thenM (modifyM (\<lambda>w. w\<lparr>w_listenPort := port, w_listening := True\<rparr>)) (returnM True))"

definition web_stopListening :: "(webServer, unit) mon" where
  "web_stopListening = modifyM (\<lambda>w.
     if \<not> w_listening w then w
     else w\<lparr>w_listening := False, w_shutdown := w_shutdown w @ w_liveSockets w\<rparr>)"

definition track :: "SOCKET \<Rightarrow> (webServer, bool) mon" where
  "track socket =
     bindM (getsM w_listening) (\<lambda>on.
       if \<not> on then returnM False
       else thenM (modifyM (\<lambda>w. w\<lparr>w_liveSockets := w_liveSockets w @ [socket]\<rparr>)) (returnM True))"

definition untrack :: "SOCKET \<Rightarrow> (webServer, unit) mon" where
  "untrack socket = modifyM (\<lambda>w. w\<lparr>w_liveSockets := remove1 socket (w_liveSockets w)\<rparr>)"

text \<open>One turn of \<open>acceptLoop\<close> for the socket \<open>acceptFrom\<close> returned; the result says whether a handler
  is spawned. \<open>still\<close> is the listening flag as the second test finds it.\<close>

definition acceptBrowser :: "bool \<Rightarrow> SOCKET \<Rightarrow> (webServer, bool) mon" where
  "acceptBrowser still browser =
     bindM (track browser) (\<lambda>ok.
       if \<not> ok then thenM (onConnections (closeFd browser)) (returnM False)
       else if \<not> still then
         thenM (untrack browser) (thenM (onConnections (closeFd browser)) (returnM False))
       else returnM True)"

section \<open>One browser\<close>

text \<open>\<open>socket_io::sendExact\<close> of bytes that are no packet.\<close>

definition sendRaw :: "SOCKET \<Rightarrow> string \<Rightarrow> (webServer, bool) mon" where
  "sendRaw fd bytes = (\<lambda>w.
     if fd \<in> set (n_broken (w_node w)) then (Inr False, w)
     else (Inr True, w\<lparr>w_rawSent := w_rawSent w @ [(fd, bytes)]\<rparr>))"

function browserLoop :: "argon2 \<Rightarrow> SOCKET \<Rightarrow> socketBuffer \<Rightarrow> (webServer, unit) mon" where
  "browserLoop A browser buffer =
     bindM (getsM (\<lambda>w. w_listening w \<and> listening (w_node w))) (\<lambda>on.
     if \<not> on then returnM ()
     else case readFrame buffer of (frame, buffer') \<Rightarrow>
       if fd_status frame \<noteq> FrameOk then returnM ()
       else if fd_opcode frame = Ping then
         bindM (getsM (\<lambda>w. map_of (sessions (w_node w)) browser)) (\<lambda>it.
           if it = None then returnM ()
           else bindM (sendRaw browser (encodeFrame Pong (fd_payload frame) False 0)) (\<lambda>ok.
             if \<not> ok then returnM () else browserLoop A browser buffer'))
       else if fd_opcode frame = Pong then browserLoop A browser buffer'
       else if fd_opcode frame = Close \<or> fd_opcode frame \<noteq> Binary then returnM ()
       else case deserialize (fd_payload frame) of
         None \<Rightarrow> returnM ()
       | Some packet \<Rightarrow>
           bindM (onConnections (dispatchPacket A browser packet)) (\<lambda>ok.
             if \<not> ok then returnM () else browserLoop A browser buffer'))"
  by pat_completeness auto
termination
  by (relation "measure (\<lambda>(A, browser, b). length (pending b @ concat (sb_socket b)))")
    (use readFrame_consumes in \<open>auto dest: sym\<close>)

declare browserLoop.simps [simp del]

definition finish :: "bool \<Rightarrow> SOCKET \<Rightarrow> (webServer, unit) mon" where
  "finish handedOff browser =
     thenM (whenM (\<not> handedOff) (onConnections (closeFd browser))) (untrack browser)"

definition handleBrowser :: "argon2 \<Rightarrow> SOCKET \<Rightarrow> chunks \<Rightarrow> (webServer, unit) mon" where
  "handleBrowser A browser socket =
     thenM (modifyM (\<lambda>w. w\<lparr>w_handedOff := removeAll browser (w_handedOff w)\<rparr>))
     (case readHeaders kMaxHttpHeaderBytes \<lparr>pending = [], sb_socket = socket\<rparr> of
        None \<Rightarrow> finish False browser
      | Some (request, buffer) \<Rightarrow>
          let response = upgradeResponse request in
          bindM (if response = [] then returnM False else sendRaw browser response) (\<lambda>sent.
          if \<not> sent then finish False browser
          else
            thenM (onConnections (markWebSocket browser))
           (bindM (onConnections (openSession browser)) (\<lambda>opened.
            thenM (modifyM (\<lambda>w. w\<lparr>w_handedOff := w_handedOff w @ [browser]\<rparr>))
            (if \<not> opened then finish True browser
            else
              thenM (browserLoop A browser buffer)
             (thenM (onConnections (releaseClient browser))
               (finish True browser)))))))"

text \<open>\<open>join\<close> waits for the handlers. One that serves a session leaves its loop, as its socket was shut
  down, and releases the session; one still in its handshake reads the end of the stream and closes
  the socket itself.\<close>

definition web_joinClientThreads :: "(webServer, unit) mon" where
  "web_joinClientThreads =
     bindM (getsM w_liveSockets) (\<lambda>fds.
       forM fds (\<lambda>fd. bindM (getsM (\<lambda>w. fd \<in> set (w_handedOff w))) (\<lambda>handedOff.
         if handedOff then thenM (onConnections (releaseClient fd)) (finish True fd)
         else finish False fd)))"

end
