(* ===== verification/Health.thy ===== *)
theory Health
  imports Prelude
begin

text \<open>
  Health reports and the monitor that combines them (include/utils/health/i_health_check.h,
  src/utils/health/health_monitor.cpp). A check is a computation over the state it inspects.
\<close>

datatype healthStatus = Up | Degraded | Down

fun healthStatusToString :: "healthStatus \<Rightarrow> string" where
  "healthStatusToString Up = ''Up''"
| "healthStatusToString Degraded = ''Degraded''"
| "healthStatusToString Down = ''Down''"

record healthReport =
  hr_name :: string
  hr_status :: healthStatus
  hr_detail :: string

definition statusToString :: "healthReport \<Rightarrow> string" where
  "statusToString r = healthStatusToString (hr_status r)"

fun checkAll :: "('s, healthReport) mon list \<Rightarrow> ('s, healthReport list) mon" where
  "checkAll [] = returnM []"
| "checkAll (c # cs) = bindM c (\<lambda>r. bindM (checkAll cs) (\<lambda>rs. returnM (r # rs)))"

text \<open>One turn of the loop of \<open>HealthMonitor::check\<close>.\<close>

definition combine :: "healthReport \<Rightarrow> healthReport \<Rightarrow> healthReport" where
  "combine overall r =
     (if hr_status r = Down then
        overall\<lparr>hr_status := Down,
          hr_detail := (if hr_detail overall \<noteq> [] then hr_detail overall @ ''; '' else hr_detail overall) @
                       hr_name r @ '':Down''\<rparr>
      else if hr_status r = Degraded \<and> hr_status overall \<noteq> Down then overall\<lparr>hr_status := Degraded\<rparr>
      else overall)"

definition monitor_check :: "('s, healthReport) mon list \<Rightarrow> ('s, healthReport) mon" where
  "monitor_check checks =
     bindM (checkAll checks) (\<lambda>rs.
       returnM (foldl combine \<lparr>hr_name = ''cluster'', hr_status = Up, hr_detail = []\<rparr> rs))"

section \<open>What the overall report says\<close>

text \<open>The states in the order in which they override each other.\<close>

instantiation healthStatus :: linorder
begin

fun rank :: "healthStatus \<Rightarrow> nat" where
  "rank Up = 0"
| "rank Degraded = 1"
| "rank Down = 2"

definition less_eq_healthStatus :: "healthStatus \<Rightarrow> healthStatus \<Rightarrow> bool" where
  "less_eq_healthStatus a b \<longleftrightarrow> rank a \<le> rank b"

definition less_healthStatus :: "healthStatus \<Rightarrow> healthStatus \<Rightarrow> bool" where
  "less_healthStatus a b \<longleftrightarrow> rank a < rank b"

instance
proof
  fix a b :: healthStatus
  show "a \<le> b \<Longrightarrow> b \<le> a \<Longrightarrow> a = b" by (cases a; cases b) (simp_all add: less_eq_healthStatus_def)
qed (auto simp: less_eq_healthStatus_def less_healthStatus_def)

end

definition worst :: "healthStatus list \<Rightarrow> healthStatus" where
  "worst ss = (if Down \<in> set ss then Down else if Degraded \<in> set ss then Degraded else Up)"

lemma worst_Max: "worst ss = Max (insert Up (set ss))"
proof (rule Max_eqI [symmetric])
  show "finite (insert Up (set ss))" by simp
  show "worst ss \<in> insert Up (set ss)" by (simp add: worst_def)
  show "x \<le> worst ss" if "x \<in> insert Up (set ss)" for x
    using that by (cases x) (auto simp: worst_def less_eq_healthStatus_def)
qed

fun listed :: "string list \<Rightarrow> string" where
  "listed [] = []"
| "listed [x] = x @ '':Down''"
| "listed (x # y # xs) = x @ '':Down'' @ ''; '' @ listed (y # xs)"

lemma listed_snoc: "listed (xs @ [x]) = (if xs = [] then [] else listed xs @ ''; '') @ x @ '':Down''"
  by (induction xs rule: listed.induct) auto

lemma listed_Nil: "listed xs = [] \<longleftrightarrow> xs = []"
  by (induction xs rule: listed.induct) auto

lemma combine_all:
  "foldl combine \<lparr>hr_name = ''cluster'', hr_status = Up, hr_detail = []\<rparr> rs =
     \<lparr>hr_name = ''cluster'', hr_status = worst (map hr_status rs),
      hr_detail = listed (map hr_name (filter (\<lambda>r. hr_status r = Down) rs))\<rparr>"
proof (induction rs rule: rev_induct)
  case (snoc r rs)
  then show ?case by (cases "hr_status r") (auto simp: combine_def worst_def listed_snoc listed_Nil)
qed (simp add: worst_def)

end
