(* ===== verification/Server.thy ===== *)
theory Server
  imports Web_Connection Health
begin

text \<open>
  The class \<open>Server\<close> (src/server/server.cpp) over the web front end and the node, the life of the
  heartbeat thread (src/server/heartbeat.cpp) and the three health adapters of the server process
  (src/utils/health).
\<close>

datatype healthCheck = ServerHealthAdapter | HeartbeatHealthAdapter | DbHealthAdapter

record server =
  s_web :: webServer
  s_running :: bool
  hb_stopped :: bool
  hb_running :: bool
  healthChecks :: "healthCheck list"

abbreviation s_node :: "server \<Rightarrow> node" where "s_node s \<equiv> w_node (s_web s)"

definition onWeb :: "(webServer, 'a) mon \<Rightarrow> (server, 'a) mon" where
  "onWeb m = zoomM s_web (\<lambda>w s. s\<lparr>s_web := w\<rparr>) m"

definition onNode :: "(node, 'a) mon \<Rightarrow> (server, 'a) mon" where
  "onNode m = onWeb (onConnections m)"

section \<open>Starting and stopping\<close>

text \<open>\<open>thread_ok\<close>: whether \<open>std::thread\<close> could be created.\<close>

definition heartbeat_start :: "bool \<Rightarrow> (server, unit) mon" where
  "heartbeat_start thread_ok = modifyM (\<lambda>s.
     if hb_running s then s
     else if thread_ok then s\<lparr>hb_stopped := False, hb_running := True\<rparr>
     else s\<lparr>hb_running := False, hb_stopped := True\<rparr>)"

definition heartbeat_stop :: "(server, unit) mon" where
  "heartbeat_stop = modifyM (\<lambda>s. s\<lparr>hb_stopped := True, hb_running := False\<rparr>)"

definition health_add :: "healthCheck \<Rightarrow> (server, unit) mon" where
  "health_add c = modifyM (\<lambda>s. s\<lparr>healthChecks := healthChecks s @ [c]\<rparr>)"

text \<open>The results of the operating system calls: Winsock, the three listeners, the port the web
  listener got, the thread.\<close>

record os_results =
  wsa_ok :: bool
  listen_tcp :: bool
  listen_web :: bool
  web_port :: "u16 option"
  listen_peer :: bool
  thread_ok :: bool

definition server_start :: "os_results \<Rightarrow> (server, unit) mon" where
  "server_start os =
     bindM (getsM s_running) (\<lambda>run.
     if run then returnM ()
     else
       thenM (onNode (bindM (getsM nodeId) (\<lambda>self. dbM (clearNodePresence self))))
         (if \<not> wsa_ok os then returnM ()
          else
            bindM (onNode (startListening (listen_tcp os))) (\<lambda>ok.
            if \<not> ok then returnM ()
            else
              bindM (onWeb (web_startListening (listen_web os) (web_port os))) (\<lambda>web.
              if \<not> web then onNode stopListening
              else
                thenM (modifyM (\<lambda>s. s\<lparr>s_running := True\<rparr>))
               (thenM (heartbeat_start (thread_ok os))
               (thenM (onNode (modifyM (\<lambda>n. n\<lparr>gossip_wired := True\<rparr>)))
               (thenM (onNode (gossip_start (listen_peer os)))
               (thenM (health_add ServerHealthAdapter)
               (thenM (health_add HeartbeatHealthAdapter)
                 (health_add DbHealthAdapter))))))))))"

text \<open>Joining the two accept threads is no step of its own: their loops end with the listeners. The
  browser handlers, woken by the shutdown, end at the last join at the latest.\<close>

definition server_stop :: "(server, unit) mon" where
  "server_stop =
     bindM (getsM s_running) (\<lambda>run.
     if \<not> run then returnM ()
     else
       thenM (modifyM (\<lambda>s. s\<lparr>s_running := False\<rparr>))
      (thenM (onWeb web_stopListening)
      (thenM heartbeat_stop
      (thenM (onNode gossip_stop)
      (thenM (onNode (modifyM (\<lambda>n. n\<lparr>gossip_wired := False\<rparr>)))
      (thenM (onNode stopListening)
        (onWeb web_joinClientThreads)))))))"

section \<open>Health\<close>

definition server_isAlive :: "(server, bool) mon" where
  "server_isAlive = getsM s_running"

definition health_report :: "bool \<Rightarrow> string \<Rightarrow> string \<Rightarrow> string \<Rightarrow> healthReport" where
  "health_report ok name up down =
     (if ok then \<lparr>hr_name = name, hr_status = Up, hr_detail = up\<rparr>
      else \<lparr>hr_name = name, hr_status = Down, hr_detail = down\<rparr>)"

fun check :: "healthCheck \<Rightarrow> (server, healthReport) mon" where
  "check ServerHealthAdapter =
     bindM server_isAlive (\<lambda>ok. returnM (health_report ok ''server'' ''alive'' ''not alive''))"
| "check HeartbeatHealthAdapter =
     bindM (getsM hb_running) (\<lambda>ok. returnM (health_report ok ''heartbeat'' ''running'' ''not running''))"
| "check DbHealthAdapter =
     bindM (onNode (dbM ping)) (\<lambda>ok. returnM (health_report ok ''database'' ''ok'' ''ping failed''))"

definition server_health :: "(server, healthReport) mon" where
  "server_health = bindM (getsM healthChecks) (\<lambda>cs. monitor_check (map check cs))"

end
