(* ===== verification/Service_Theorems.thy ===== *)
theory Service_Theorems
  imports Message_Theorems Access_Theorems History_Theorems Server
begin

text \<open>
  The heartbeat, stopping the server, who may read a history, and what is left when the database fails
  while a room is deleted.
\<close>

declare map_of_eq_Some_iff [simp del] Some_eq_map_of_iff [simp del]

section \<open>Heartbeat\<close>

text \<open>A session the ping round closes: silent for too long, or the ping cannot be written.\<close>

definition dropped :: "node \<Rightarrow> packet \<Rightarrow> SOCKET \<Rightarrow> clientSession \<Rightarrow> bool" where
  "dropped n q fd s \<longleftrightarrow> \<not> cs_closed s \<and> \<not> (isAlive (n_steady n) s \<and> reachable_fd n q fd)"

definition pinged :: "node \<Rightarrow> packet \<Rightarrow> SOCKET \<Rightarrow> clientSession \<Rightarrow> bool" where
  "pinged n q fd s \<longleftrightarrow> isAlive (n_steady n) s \<and> reachable_fd n q fd"

lemma pingSession_run:
  assumes "map_of (sessions n) fd = Some s" and "cs_socket s = fd"
  shows "pingSession q fd n = (Inr (),
    if pinged n q fd s then n\<lparr>n_sent := n_sent n @ [wire_of n q fd]\<rparr>
    else if dropped n q fd s
    then n\<lparr>sessions := AList.map_entry fd (\<lambda>s. s\<lparr>cs_closed := True\<rparr>) (sessions n), n_closedFds := n_closedFds n @ [fd]\<rparr>
    else n)"
  using assms
  by (auto simp: pingSession_def bindM_run thenM_run sessionM_def whenM_def sendPacket_run pinged_def dropped_def reachable_fd_def
      closeClient_def markClosed_def upd_session_def closeFd_def)

lemma ping_frame:
  assumes "n_steady m = n_steady n" and "n_broken m = n_broken n" and "webSockets m = webSockets n"
    and "map_of (sessions m) fd = map_of (sessions n) fd"
  shows "pinged m q fd = pinged n q fd" "dropped m q fd = dropped n q fd" "wire_of m q fd = wire_of n q fd"
  using assms by (auto simp: fun_eq_iff pinged_def dropped_def reachable_fd_def wire_of_def)

lemma map_entry_map:
  "distinct (map fst xs) \<Longrightarrow> AList.map_entry k f xs = map (\<lambda>(i, v). (i, if i = k then f v else v)) xs"
proof (induction xs)
  case (Cons x xs)
  have "map (\<lambda>(i, v). (i, if i = k then f v else v)) xs = xs" if "k \<notin> fst ` set xs"
    using that by (induction xs) auto
  then show ?case using Cons by (cases x) auto
qed simp

text \<open>One session pinged: the entry of its socket is closed or left, all others stay.\<close>

lemma pingSession_sessions:
  assumes "map_of (sessions n) fd = Some s" and "cs_socket s = fd" and "distinct (map fst (sessions n))" and "pingSession q fd n = (Inr (), m)"
  shows "sessions m = map (\<lambda>(i, v). (i, if i = fd \<and> dropped n q i v then v\<lparr>cs_closed := True\<rparr> else v)) (sessions n)"
    and "map fst (sessions m) = map fst (sessions n)"
    and "k \<noteq> fd \<Longrightarrow> map_of (sessions m) k = map_of (sessions n) k"
proof -
  have v: "v = s" if "(fd, v) \<in> set (sessions n)" for v
    using that assms(1) map_of_is_SomeI [OF assms(3) that] by simp
  have "sessions m = (if dropped n q fd s then AList.map_entry fd (\<lambda>s. s\<lparr>cs_closed := True\<rparr>) (sessions n) else sessions n)"
    using pingSession_run [OF assms(1,2), of q] assms(4) by (auto simp: pinged_def dropped_def split: if_splits)
  moreover have "map (\<lambda>(i, v). (i, if i = fd \<and> dropped n q i v then v\<lparr>cs_closed := True\<rparr> else v)) (sessions n) = sessions n"
    if "\<not> dropped n q fd s" using that v by (intro map_idI) auto
  ultimately show sm: "sessions m = map (\<lambda>(i, v). (i, if i = fd \<and> dropped n q i v then v\<lparr>cs_closed := True\<rparr> else v)) (sessions n)"
    using v by (auto simp: map_entry_map [OF assms(3)])
  show "map fst (sessions m) = map fst (sessions n)" by (simp add: sm comp_def case_prod_unfold)
  have "map_of (map (\<lambda>(i, v). (i, if i = fd \<and> P i v then g v else v)) xs) k = map_of xs k" if "k \<noteq> fd" for P g xs
    using that by (induction xs) auto
  then show "k \<noteq> fd \<Longrightarrow> map_of (sessions m) k = map_of (sessions n) k" by (simp add: sm)
qed

lemma ping_all:
  assumes "distinct fds" and "set fds \<subseteq> fst ` set (sessions n)" and "distinct (map fst (sessions n))"
    and "\<forall>(fd, s)\<in>set (sessions n). cs_socket s = fd"
  shows "\<exists>n'. forM fds (pingSession q) n = (Inr (), n') \<and>
    n_sent n' = n_sent n @ map (wire_of n q) (filter (\<lambda>fd. pinged n q fd (session_of n fd)) fds) \<and>
    n_closedFds n' = n_closedFds n @ filter (\<lambda>fd. dropped n q fd (session_of n fd)) fds \<and>
    sessions n' = map (\<lambda>(fd, s). (fd, if fd \<in> set fds \<and> dropped n q fd s then s\<lparr>cs_closed := True\<rparr> else s)) (sessions n) \<and>
    n_db n' = n_db n \<and> members n' = members n"
  using assms
proof (induction fds arbitrary: n)
  case (Cons fd fds)
  then obtain s where s: "(fd, s) \<in> set (sessions n)" "map_of (sessions n) fd = Some s" by auto
  then have sock: "cs_socket s = fd" using Cons.prems(4) by auto
  define m where "m = snd (pingSession q fd n)"
  note run = pingSession_run [OF s(2) sock, of q]
  have m: "pingSession q fd n = (Inr (), m)" using run by (simp add: m_def)
  have f: "n_steady m = n_steady n" "n_broken m = n_broken n" "webSockets m = webSockets n" "n_db m = n_db n" "members m = members n"
    using run by (auto simp: m_def)
  note sm = pingSession_sessions(1) [OF s(2) sock Cons.prems(3) m] and keys = pingSession_sessions(2) [OF s(2) sock Cons.prems(3) m]
    and other = pingSession_sessions(3) [OF s(2) sock Cons.prems(3) m]
  have socks: "\<forall>(k, v)\<in>set (sessions m). cs_socket v = k" using Cons.prems(4) by (auto simp: sm)
  have dom: "fst ` set (sessions m) = fst ` set (sessions n)" using arg_cong [OF keys, of set] by simp
  have fds: "distinct fds" "set fds \<subseteq> fst ` set (sessions m)" "distinct (map fst (sessions m))"
    using Cons.prems(1-3) by (simp_all add: dom keys)
  obtain n' where n': "forM fds (pingSession q) m = (Inr (), n')"
    "n_sent n' = n_sent m @ map (wire_of m q) (filter (\<lambda>fd. pinged m q fd (session_of m fd)) fds)"
    "n_closedFds n' = n_closedFds m @ filter (\<lambda>fd. dropped m q fd (session_of m fd)) fds"
    "sessions n' = map (\<lambda>(fd, s). (fd, if fd \<in> set fds \<and> dropped m q fd s then s\<lparr>cs_closed := True\<rparr> else s)) (sessions m)"
    "n_db n' = n_db n" "members n' = members n"
    using Cons.IH [OF fds socks] unfolding f(4,5) by blast
  have same: "pinged m q k = pinged n q k" "dropped m q k = dropped n q k" "wire_of m q k = wire_of n q k"
    "session_of m k = session_of n k" if "k \<in> set fds" for k
  proof -
    have "k \<noteq> fd" using that Cons.prems(1) by auto
    then show "pinged m q k = pinged n q k" "dropped m q k = dropped n q k" "wire_of m q k = wire_of n q k"
      "session_of m k = session_of n k" using ping_frame [OF f(1-3) other] other by (simp_all add: session_of_def)
  qed
  have "map (wire_of m q) (filter (\<lambda>fd. pinged m q fd (session_of m fd)) fds) =
      map (wire_of n q) (filter (\<lambda>fd. pinged n q fd (session_of n fd)) fds)"
    "filter (\<lambda>fd. dropped m q fd (session_of m fd)) fds = filter (\<lambda>fd. dropped n q fd (session_of n fd)) fds"
    using same by (auto cong: filter_cong)
  moreover have "n_sent m = n_sent n @ (if pinged n q fd s then [wire_of n q fd] else [])"
    "n_closedFds m = n_closedFds n @ (if dropped n q fd s then [fd] else [])"
    using run by (auto simp: m_def pinged_def dropped_def)
  moreover have "sessions n' = map (\<lambda>(i, v). (i, if i \<in> set (fd # fds) \<and> dropped n q i v then v\<lparr>cs_closed := True\<rparr> else v)) (sessions n)"
    using same(2) Cons.prems(1) by (auto simp: n'(4) sm)
  ultimately show ?case using n' m s(2) by (auto simp: thenM_run)
qed simp

text \<open>C23: one heartbeat round closes exactly the open sessions that were silent for the time-out or whose
  connection does not take the ping, pings all other open sessions once, and changes neither rooms
  nor data.\<close>

theorem heartbeat_round:
  assumes reach: "reach enabled (node_exec A) (booted c) n" and q: "q = mkPacket (of_int (n_now n)) ''server'' [] HEARTBEAT [] ''ping'' 0"
  shows "\<exists>n'. pingOnce n = (Inr (), n') \<and>
    n_sent n' = n_sent n @ map (wire_of n q) (filter (\<lambda>fd. pinged n q fd (session_of n fd)) (map fst (sessions n))) \<and>
    n_closedFds n' = n_closedFds n @ filter (\<lambda>fd. dropped n q fd (session_of n fd)) (map fst (sessions n)) \<and>
    sessions n' = map (\<lambda>(fd, s). (fd, if dropped n q fd s then s\<lparr>cs_closed := True\<rparr> else s)) (sessions n) \<and>
    n_db n' = n_db n \<and> members n' = members n"
proof -
  have ok: "sessions_ok {} n" using node.reach_inv [OF reach booted_ok] by (simp add: node_inv_def)
  then have d: "distinct (map fst (sessions n))" by (simp add: sessions_ok_def)
  have "\<forall>(fd, s)\<in>set (sessions n). cs_socket s = fd"
    using ok map_of_is_SomeI [OF d] by (auto simp: sessions_ok_def)
  from ping_all [OF d _ d this, of q] obtain n' where n': "forM (map fst (sessions n)) (pingSession q) n = (Inr (), n')"
    "n_sent n' = n_sent n @ map (wire_of n q) (filter (\<lambda>fd. pinged n q fd (session_of n fd)) (map fst (sessions n)))"
    "n_closedFds n' = n_closedFds n @ filter (\<lambda>fd. dropped n q fd (session_of n fd)) (map fst (sessions n))"
    "sessions n' = map (\<lambda>(fd, s). (fd, if fd \<in> set (map fst (sessions n)) \<and> dropped n q fd s then s\<lparr>cs_closed := True\<rparr> else s)) (sessions n)"
    "n_db n' = n_db n" "members n' = members n" by auto
  have "sessions n' = map (\<lambda>(fd, s). (fd, if dropped n q fd s then s\<lparr>cs_closed := True\<rparr> else s)) (sessions n)"
    unfolding n'(4) by (rule map_cong) force+
  with n' show ?thesis by (simp add: pingOnce_def bindM_run packetM_def q)
qed

theorem heartbeat_round_witness:
  "\<exists>n'. pingOnce one_client = (Inr (), n') \<and> sessions n' = sessions one_client \<and> n_closedFds n' = n_closedFds one_client \<and>
    length (n_sent n') = Suc (length (n_sent one_client))"
proof -
  have "serialize (mkPacket 0 ''server'' [] HEARTBEAT [] ''ping'' 0) \<noteq> []"
    by (simp add: serialize_nonempty mkPacket_def isValidPacketType_iff MAX_PAYLOAD_BYTES_def)
  moreover have "map_of (sessions one_client) 5 = Some (mkSession 5 (anonymousUser 0) LOBBY 0)" by (simp add: one_client_facts)
  ultimately have "\<not> dropped one_client (mkPacket 0 ''server'' [] HEARTBEAT [] ''ping'' 0) 5 (mkSession 5 (anonymousUser 0) LOBBY 0)"
    "pinged one_client (mkPacket 0 ''server'' [] HEARTBEAT [] ''ping'' 0) 5 (mkSession 5 (anonymousUser 0) LOBBY 0)"
    "session_of one_client 5 = mkSession 5 (anonymousUser 0) LOBBY 0"
    by (simp_all add: dropped_def pinged_def reachable_fd_def isAlive_def mkSession_def one_client_facts session_of_def
      HEARTBEAT_TIMEOUT_def)
  then show ?thesis using heartbeat_round [OF one_client_reach refl] by (auto simp: one_client_facts)
qed

section \<open>Deleting a room while the database fails\<close>

lemma insert_sockets_run:
  "\<exists>m. forM fds (\<lambda>fd. insertSocket fd r) n = (Inr (), n\<lparr>members := m\<rparr>) \<and> set (mem m r) = set (mem (members n) r) \<union> set fds \<and>
     (\<forall>q. q \<noteq> r \<longrightarrow> map_of m q = map_of (members n) q)"
proof (induction fds arbitrary: n)
  case Nil
  have "forM [] (\<lambda>fd. insertSocket fd r) n = (Inr (), n\<lparr>members := members n\<rparr>)" by simp
  then show ?case by fastforce
next
  case (Cons fd fds)
  let ?m = "AList.update r (set_insert fd (members_of n r)) (members n)"
  obtain m where "forM fds (\<lambda>fd. insertSocket fd r) (n\<lparr>members := ?m\<rparr>) = (Inr (), n\<lparr>members := m\<rparr>)"
    "set (mem m r) = set (mem ?m r) \<union> set fds" "\<forall>q. q \<noteq> r \<longrightarrow> map_of m q = map_of ?m q"
    using Cons.IH [of "n\<lparr>members := ?m\<rparr>"] by auto
  moreover have "insertSocket fd r n = (Inr (), n\<lparr>members := ?m\<rparr>)" by (simp add: insertSocket_def)
  moreover have "set (mem ?m r) = set (mem (members n) r) \<union> {fd}"
    by (auto simp: mem_def members_of_def set_insert_def update_conv')
  ultimately show ?case by (intro exI [of _ m]) (simp add: thenM_run update_conv')
qed

text \<open>C38: the room manager forgets a room before it asks the database, and a failing database does not
  bring it back: the delete reports failure, yet the room is unknown, its members count as members of
  the lobby while their sessions still name the deleted room, and the stored room is untouched.\<close>

theorem failed_delete_forgets_room:
  assumes "map_of (knownRooms n) r = Some room" and "r \<noteq> ro_name LOBBY" and "r \<noteq> ro_name GENERAL"
    and "db_faults (n_db n) = Some e # fs"
  shows "\<exists>n'. rm_deleteRoom r n = (Inr False, n') \<and> map_of (knownRooms n') r = None \<and> members_of n' r = [] \<and>
    set (members_of n r) \<subseteq> set (members_of n' (ro_name LOBBY)) \<and> sessions n' = sessions n \<and>
    n_db n' = (n_db n)\<lparr>db_faults := db_faults (n_db n')\<rparr>"
proof -
  let ?n = "n\<lparr>members := AList.delete r (members n), knownRooms := AList.delete r (knownRooms n)\<rparr>"
  obtain m where m: "forM (members_of n r) (\<lambda>fd. insertSocket fd (ro_name LOBBY)) ?n = (Inr (), ?n\<lparr>members := m\<rparr>)"
    "set (mem m (ro_name LOBBY)) = set (mem (members ?n) (ro_name LOBBY)) \<union> set (members_of n r)"
    "\<forall>q. q \<noteq> ro_name LOBBY \<longrightarrow> map_of m q = map_of (members ?n) q"
    using insert_sockets_run by blast
  have "\<exists>x fs'. db_deleteRoom (ro_id room) (n_db n) = (Inl x, (n_db n)\<lparr>db_faults := fs'\<rparr>)"
    using assms(4) by (cases "ro_id room < 3")
      (auto simp: db_deleteRoom_def execute_def sql_delete_room_def step_stmt_def bindM_run intro: exI [of _ "Some e # fs"])
  then obtain x fs' where fail: "dbM (db_deleteRoom (ro_id room)) (?n\<lparr>members := m\<rparr>) =
      (Inl x, ?n\<lparr>members := m, n_db := (n_db n)\<lparr>db_faults := fs'\<rparr>\<rparr>)"
    by (auto simp: dbM_def zoomM_def)
  have "rm_deleteRoom r n = (Inr False, ?n\<lparr>members := m, n_db := (n_db n)\<lparr>db_faults := fs'\<rparr>\<rparr>)"
    using assms(1-3) m(1) fail by (auto simp: rm_deleteRoom_def bindM_run thenM_run catchM_run)
  then show ?thesis
    using m(2,3) assms(2) by (auto simp: members_of_def mem_def delete_conv' split: option.splits)
qed

theorem failed_delete_forgets_room_witness:
  "\<exists>n'. rm_deleteRoom ''vault'' (vault_node\<lparr>n_db := (n_db vault_node)\<lparr>db_faults := [Some ''disk I/O error'']\<rparr>\<rparr>) = (Inr False, n') \<and>
     map_of (knownRooms n') ''vault'' = None"
  using failed_delete_forgets_room [of "vault_node\<lparr>n_db := (n_db vault_node)\<lparr>db_faults := [Some ''disk I/O error'']\<rparr>\<rparr>" "''vault''"]
    vault_node_facts(2) by (fastforce simp: LOBBY_def GENERAL_def mkRoom_def)

section \<open>Reading a history\<close>

text \<open>C39: the history of any known room, private ones included, is sent to any client that asks for it,
  logged in or not, allowed in the room or not; the node is left as it was.\<close>

theorem history_has_no_access_check:
  assumes "reach enabled (node_exec A) (booted c) n" and "map_of (sessions n) fd = Some s"
    and "p_type p = LOAD_MESSAGE_HISTORY" and "map_of (knownRooms n) (p_room p) = Some room" and "p_room p \<noteq> []"
    and "\<forall>r\<in>set (t_messages (n_db n)). int64 (mr_created r)"
  shows "processPacket A p fd n =
    (Inr ((reply (response_to n p) SUCCESS
       (encodeHistory (map (message_of_row (n_db n)) (take 100 (newest_first (ro_id room) (n_db n))))))\<lparr>p_room := p_room p\<rparr>), n)"
proof -
  have "db_faults (n_db n) = []" using reach_live [OF assms(1)] by (rule db_live_simps)
  then have "dbM (loadHistory (ro_id room)) n =
      (Inr (map (message_of_row (n_db n)) (take 100 (newest_first (ro_id room) (n_db n)))), n)"
    using loadHistory_run assms(6) by (simp add: dbM_def zoomM_def)
  then show ?thesis
    using assms(2-5) by (simp add: processPacket_def handleLoadHistory_def response_to_def bindM_run catchM_run getRoom_def sessionM_def Let_def)
qed

theorem history_has_no_access_check_witness:
  "processPacket plain_argon2 (mkPacket 0 ''anon'' [] LOAD_MESSAGE_HISTORY ''Lobby'' [] 0) 5 one_client =
     (Inr ((reply (response_to one_client (mkPacket 0 ''anon'' [] LOAD_MESSAGE_HISTORY ''Lobby'' [] 0)) SUCCESS [])\<lparr>p_room := ''Lobby''\<rparr>), one_client)"
  using history_has_no_access_check [OF one_client_reach, of 5 _ "mkPacket 0 ''anon'' [] LOAD_MESSAGE_HISTORY ''Lobby'' [] 0"]
  by (simp add: one_client_facts mkPacket_def LOBBY_def mkRoom_def new_db_tables newest_first_def encodeHistory_def)

section \<open>Stopping the server\<close>

text \<open>The sessions left are among those of \<open>S\<close>, gossip is off, its tables are those of \<open>q\<close> and the
  sockets of \<open>C\<close> are closed.\<close>

definition off :: "(string \<times> clientEndpoint) list \<times> SOCKET list \<Rightarrow> SOCKET set \<Rightarrow> SOCKET set \<Rightarrow> node \<Rightarrow> bool" where
  "off q C S n \<longleftrightarrow> fst ` set (sessions n) \<subseteq> S \<and> \<not> gossip_wired n \<and> \<not> listening n \<and> g_stopped n \<and>
     (clientPeers n, openPeerSockets n) = q \<and> C \<subseteq> set (n_closedFds n)"

lemma off_upd: "keeps (off q C S) (upd_session fd f)"
  by (rule keepsI) (simp add: off_def upd_session_def dom_map_entry)

lemma off_db: "keeps (off q C S) (dbM m)"
  by (rule keepsI) (auto simp: off_def dbM_def zoomM_def split: prod.splits)

lemma off_closeClient: "keeps (off q C S) (closeClient fd)"
  unfolding closeClient_def markClosed_def sessionM_def closeFd_def
  by (intro keeps_intros off_upd keepsI) (auto simp: off_def)

lemma off_dropLogout: "keeps (off q C S) (dropLogout u)"
proof (rule keepsI)
  fix n
  assume "off q C S n"
  moreover have "keeps (off q C S) (catchM (thenM (dbM (clearOnline u)) (dbM (clearAllMembership u))) (\<lambda>_. returnM ()))"
    by (intro keeps_intros off_db)
  ultimately show "off q C S (snd (dropLogout u n))" by (simp add: dropLogout_def bindM_run off_def keeps_def)
qed

lemma off_leaveAll: "keeps (off q C S) (leaveAll fd s)"
  unfolding leaveAll_def setRoom_def removeSocketLocked_def
  by (intro keeps_intros off_upd off_db keepsI) (auto simp: off_def Let_def split: option.splits)

lemma off_removeSession: "off q C S n \<Longrightarrow> off q C (S - {fd}) (snd (removeSession fd n))"
proof (cases "map_of (sessions n) fd")
  case (Some s)
  assume "off q C S n"
  then have "off q C (S - {fd}) (n\<lparr>sessions := AList.delete fd (sessions n), webSockets := removeAll fd (webSockets n)\<rparr>)"
    by (auto simp: off_def AList.delete_eq)
  moreover have "keeps (off q C (S - {fd})) (thenM (leaveAll fd s)
      (if \<not> cs_authenticated s \<or> u_username (cs_user s) = [] then returnM () else dropLogout (u_username (cs_user s))))"
    by (intro keeps_intros off_leaveAll off_dropLogout)
  ultimately show ?thesis using Some by (simp add: removeSession_def bindM_run thenM_run [of "modifyM _"] keeps_def)
next
  case None
  assume "off q C S n"
  moreover have "removeSession fd n = (Inr (), n)" using None by (simp add: removeSession_def bindM_run)
  ultimately show ?thesis using None by (auto simp: off_def map_of_eq_None_iff)
qed

lemma release_all:
  assumes "node_ok n" and "off q C S n"
  shows "\<exists>n'. joinClientThreads fds n = (Inr (), n') \<and> node_ok n' \<and> off q C (S - set fds) n'"
  using assms
proof (induction fds arbitrary: n S)
  case (Cons fd fds)
  from releaseClient_inv [of "{}" fd] Cons.prems(1) obtain m where m: "releaseClient fd n = (Inr (), m)" "node_ok m"
    by (auto simp: hoare_def)
  obtain k where k: "closeClient fd n = (Inr (), k)" using safe_closeClient [of "{}" "{}" "{}" fd] Cons.prems(1)
    by (auto simp: safe_def hoare_def)
  then have "off q C S k" using off_closeClient [of q C S fd] Cons.prems(2) by (auto simp: keeps_def)
  from off_removeSession [OF this, of fd] have "off q C (S - {fd}) m"
    using m(1) k by (auto simp: releaseClient_def thenM_run)
  from Cons.IH [OF m(2) this] show ?case using m(1) by (auto simp: joinClientThreads_def thenM_run Diff_insert2 [symmetric])
qed (simp add: joinClientThreads_def)

lemma stopListening_run:
  assumes "node_ok m" and "listening m" and "off q C (fst ` set (sessions m)) (m\<lparr>listening := False\<rparr>)"
  shows "\<exists>n. stopListening m = (Inr (), n) \<and> node_ok n \<and> off q C {} n"
proof -
  let ?m = "m\<lparr>listening := False\<rparr>"
  let ?fds = "map (\<lambda>(_, s). cs_socket s) (sessions m)"
  have "safe node_ok (forM ?fds closeClient)" "keeps (off q C (fst ` set (sessions m))) (forM ?fds closeClient)"
    by (intro safe_intros safe_closeClient keeps_intros off_closeClient)+
  moreover have "node_ok ?m" "off q C (fst ` set (sessions m)) ?m" using assms by simp_all
  ultimately obtain k where k: "forM ?fds closeClient ?m = (Inr (), k)" "node_ok k" "off q C (fst ` set (sessions m)) k"
    unfolding safe_def hoare_def keeps_def by (metis old.unit.exhaust snd_conv)
  from release_all [OF k(2,3), of ?fds] obtain n' where n': "joinClientThreads ?fds k = (Inr (), n')" "node_ok n'"
    "off q C (fst ` set (sessions m) - set ?fds) n'" by blast
  have "sessions_ok {} m" using assms(1) by (simp add: node_inv_def)
  then have "cs_socket v = i" if "(i, v) \<in> set (sessions m)" for i v
    using that map_of_is_SomeI [of "sessions m" i v] by (auto simp: sessions_ok_def)
  then have "fst ` set (sessions m) \<subseteq> set ?fds" by (force simp: image_iff)
  then have "fst ` set (sessions m) - set ?fds = {}" by (simp only: Diff_eq_empty_iff)
  with n'(3) have "off q C {} n'" by (simp only:)
  then show ?thesis using k(1) n'(1,2) assms(2) by (auto simp: stopListening_def bindM_run thenM_run)
qed

lemma release_browsers:
  assumes "node_ok (w_node w)" and "off q C {} (w_node w)"
  shows "\<exists>w'. forM fds (\<lambda>fd. bindM (getsM (\<lambda>w. fd \<in> set (w_handedOff w))) (\<lambda>handedOff.
         if handedOff then thenM (onConnections (releaseClient fd)) (finish True fd) else finish False fd)) w = (Inr (), w') \<and>
    node_ok (w_node w') \<and> off q C {} (w_node w') \<and> w_listening w' = w_listening w \<and>
    w_liveSockets w' = fold remove1 fds (w_liveSockets w)"
  using assms
proof (induction fds arbitrary: w)
  case (Cons fd fds)
  let ?one = "bindM (getsM (\<lambda>w. fd \<in> set (w_handedOff w))) (\<lambda>handedOff.
    if handedOff then thenM (onConnections (releaseClient fd)) (finish True fd) else finish False fd)"
  from release_all [OF Cons.prems, of "[fd]"] obtain n where n: "releaseClient fd (w_node w) = (Inr (), n)" "node_ok n" "off q C {} n"
    by (auto simp: joinClientThreads_def thenM_def bindM_def split: prod.splits sum.splits)
  have "\<exists>k. ?one w = (Inr (), w\<lparr>w_node := k, w_liveSockets := remove1 fd (w_liveSockets w)\<rparr>) \<and> node_ok k \<and> off q C {} k"
  proof (cases "fd \<in> set (w_handedOff w)")
    case True
    then show ?thesis using n
      by (intro exI [of _ n]) (simp add: bindM_run thenM_run onConnections_def zoomM_def finish_def untrack_def)
  next
    case False
    let ?k = "(w_node w)\<lparr>n_closedFds := n_closedFds (w_node w) @ [fd]\<rparr>"
    have "?one w = (Inr (), w\<lparr>w_node := ?k, w_liveSockets := remove1 fd (w_liveSockets w)\<rparr>)"
      using False by (simp add: bindM_run thenM_run onConnections_def zoomM_def finish_def untrack_def closeFd_def)
    moreover have "node_ok ?k" "off q C {} ?k" using Cons.prems by (auto simp: off_def)
    ultimately show ?thesis by blast
  qed
  then obtain k where k: "?one w = (Inr (), w\<lparr>w_node := k, w_liveSockets := remove1 fd (w_liveSockets w)\<rparr>)"
    "node_ok k" "off q C {} k" by blast
  let ?w = "w\<lparr>w_node := k, w_liveSockets := remove1 fd (w_liveSockets w)\<rparr>"
  show ?case using Cons.IH [of ?w] k by (simp add: thenM_run)
qed simp

lemma fold_remove1_all: "fold remove1 xs xs = []"
  by (induction xs) auto

lemma gossip_stop_off:
  assumes "gossip_stop n = (Inr (), m)"
  shows "m = n\<lparr>g_stopped := True, n_closedFds := n_closedFds m, openPeerSockets := openPeerSockets m,
      outboundAddrs := outboundAddrs m, clientPeers := clientPeers m\<rparr>"
    and "\<not> g_stopped n \<longrightarrow> clientPeers m = [] \<and> openPeerSockets m = [] \<and> set (openPeerSockets n) \<subseteq> set (n_closedFds m)"
  using assms by (auto simp: gossip_stop_def split: if_splits)

text \<open>C24: stopping a running server, whose node was reached while SQLite executed every statement, does
  not throw and ends every client session: no session, no room member and no browser socket is left,
  nothing is listening, the heartbeat is stopped, and gossip is stopped too: it is no longer wired to
  the connections, and if it ran, every peer socket is closed and no peer is left in its tables.\<close>

theorem server_stop_releases:
  assumes "reach enabled (node_exec A) (booted c) (s_node s)" and "s_running s" and "listening (s_node s)"
  shows "\<exists>s'. server_stop s = (Inr (), s') \<and> \<not> s_running s' \<and> hb_stopped s' \<and> \<not> hb_running s' \<and> sessions (s_node s') = [] \<and>
    (\<forall>r. members_of (s_node s') r = []) \<and> \<not> listening (s_node s') \<and> \<not> gossip_wired (s_node s') \<and>
    \<not> w_listening (s_web s') \<and> w_liveSockets (s_web s') = [] \<and> g_stopped (s_node s') \<and>
    (\<not> g_stopped (s_node s) \<longrightarrow> clientPeers (s_node s') = [] \<and> openPeerSockets (s_node s') = [] \<and>
       set (openPeerSockets (s_node s)) \<subseteq> set (n_closedFds (s_node s')))"
proof -
  have ok: "node_ok (s_node s)" using node.reach_inv [OF assms(1) booted_ok] .
  obtain m where m: "gossip_stop (s_node s) = (Inr (), m)" "node_ok m" "sessions m = sessions (s_node s)" "listening m" "g_stopped m"
    using ok assms(3) by (cases "g_stopped (s_node s)") (auto simp: gossip_stop_def)
  let ?m = "m\<lparr>gossip_wired := False\<rparr>"
  define q C where "q = (clientPeers m, openPeerSockets m)" and "C = set (n_closedFds m)"
  obtain n where n: "stopListening ?m = (Inr (), n)" "node_ok n" "off q C {} n"
    using stopListening_run [of ?m q C] m(2,4,5) by (auto simp: off_def q_def C_def)
  obtain w where w: "web_stopListening (s_web s) = (Inr (), w)" "w_node w = s_node s" "\<not> w_listening w"
    by (auto simp: web_stopListening_def)
  obtain w' where w': "web_joinClientThreads (w\<lparr>w_node := n\<rparr>) = (Inr (), w')" "node_ok (w_node w')" "off q C {} (w_node w')"
    "\<not> w_listening w'" "w_liveSockets w' = []"
    using release_browsers [of "w\<lparr>w_node := n\<rparr>" q C "w_liveSockets w"] n(2,3) w(3)
    by (auto simp: web_joinClientThreads_def bindM_run [of "getsM w_liveSockets"] fold_remove1_all)
  have left: "sessions (w_node w') = []" using w'(3) by (simp add: off_def)
  then have "members_of (w_node w') r = []" for r
    using w'(2) by (auto simp: node_inv_def placed_def intro!: hd_in_set elim!: list.set_cases)
  moreover have "server_stop s = (Inr (), s\<lparr>s_running := False, hb_stopped := True, hb_running := False, s_web := w'\<rparr>)"
    using assms(2) m(1) n(1) w(1,2) w'(1)
    by (simp add: server_stop_def bindM_run thenM_run heartbeat_stop_def onNode_def onWeb_def onConnections_def zoomM_def)
  ultimately show ?thesis
    using left w'(3-5) gossip_stop_off(2) [OF m(1)] by (auto simp: off_def q_def C_def)
qed

definition server_of :: "node \<Rightarrow> server" where
  "server_of n = \<lparr>s_web = \<lparr>w_node = n, w_listening = True, w_listenPort = 8090, w_liveSockets = [9], w_rawSent = [], w_shutdown = [], w_handedOff = []\<rparr>,
     s_running = True, hb_stopped = False, hb_running = True, healthChecks = []\<rparr>"

theorem server_stop_releases_witness:
  "\<exists>s'. server_stop (server_of one_client) = (Inr (), s') \<and> sessions (s_node s') = []"
proof -
  obtain ws where eq: "one_client = (relocated 5 (ro_name LOBBY) LOBBY ((booted default_config)\<lparr>n_draws := [],
     sessions := [(5, mkSession 5 (anonymousUser 0) LOBBY 0)]\<rparr>))\<lparr>n_sent := ws\<rparr>" using one_client_eq by blast
  have "listening one_client" unfolding eq by (simp add: relocated_def booted_eq fresh_node_def)
  then show ?thesis
    using server_stop_releases [of plain_argon2 default_config "server_of one_client"] one_client_reach
    by (auto simp: server_of_def)
qed

section \<open>Health\<close>

abbreviation adapters :: "healthCheck list" where
  "adapters \<equiv> [ServerHealthAdapter, HeartbeatHealthAdapter, DbHealthAdapter]"

definition db_answers :: "server \<Rightarrow> bool" where
  "db_answers s \<longleftrightarrow> (case db_faults (n_db (s_node s)) of Some e # _ \<Rightarrow> False | _ \<Rightarrow> True)"

lemma ping_run: "\<exists>d'. ping d = (Inr (case db_faults d of Some e # _ \<Rightarrow> False | _ \<Rightarrow> True), d') \<and> (db_faults d = [] \<longrightarrow> d' = d)"
  by (cases "db_faults d") (auto simp: ping_def query_def bindM_run thenM_run catchM_run split: option.split)

lemma health_run:
  assumes "healthChecks s = adapters"
  shows "\<exists>s'. server_health s = (Inr \<lparr>hr_name = ''cluster'',
      hr_status = (if s_running s \<and> hb_running s \<and> db_answers s then Up else Down),
      hr_detail = listed ((if s_running s then [] else [''server'']) @ (if hb_running s then [] else [''heartbeat'']) @
        (if db_answers s then [] else [''database'']))\<rparr>, s') \<and> (db_faults (n_db (s_node s)) = [] \<longrightarrow> s' = s)"
proof -
  obtain d' where "ping (n_db (s_node s)) = (Inr (db_answers s), d')" "db_faults (n_db (s_node s)) = [] \<longrightarrow> d' = n_db (s_node s)"
    using ping_run [of "n_db (s_node s)"] by (auto simp: db_answers_def)
  then have "\<exists>s'. checkAll (map check (healthChecks s)) s =
      (Inr [health_report (s_running s) ''server'' ''alive'' ''not alive'', health_report (hb_running s) ''heartbeat'' ''running'' ''not running'',
         health_report (db_answers s) ''database'' ''ok'' ''ping failed''], s') \<and> (db_faults (n_db (s_node s)) = [] \<longrightarrow> s' = s)"
    using assms by (simp add: bindM_run server_isAlive_def onNode_def onWeb_def onConnections_def dbM_def zoomM_def)
  then show ?thesis
    by (auto simp: server_health_def monitor_check_def bindM_run combine_all worst_def health_report_def)
qed

text \<open>The operating system calls \<open>start\<close> cannot do without.\<close>

definition os_ok :: "os_results \<Rightarrow> bool" where
  "os_ok os \<longleftrightarrow> wsa_ok os \<and> listen_tcp os \<and> listen_web os \<and> web_port os \<noteq> None"

lemma start_run:
  assumes "\<not> s_running s" and "\<not> listening (s_node s)" "\<not> w_listening (s_web s)" and "sessions (s_node s) = []"
    and "db_faults (n_db (s_node s)) = []"
  shows "\<exists>s1. server_start os s = (Inr (), s1) \<and> s_running s1 = os_ok os \<and> db_faults (n_db (s_node s1)) = [] \<and>
    healthChecks s1 = healthChecks s @ (if os_ok os then adapters else []) \<and>
    (os_ok os \<longrightarrow> hb_running s1 = (hb_running s \<or> thread_ok os))"
proof -
  obtain d where d: "clearNodePresence (nodeId (s_node s)) (n_db (s_node s)) = (Inr (), d)" "db_faults d = []"
    using assms(5) by (auto simp: clearNodePresence_def run_one sql_clear_node_presence_def)
  then show ?thesis
    using assms
    by (auto simp: server_start_def os_ok_def bindM_run thenM_run onNode_def onWeb_def onConnections_def zoomM_def dbM_def
        startListening_def web_startListening_def heartbeat_start_def gossip_start_def health_add_def stopListening_def
        joinClientThreads_def split: option.splits)
qed

text \<open>C25: the first start of a server process, with a database that works. If Winsock, the two listeners
  and the port of the web listener are available, the server runs afterwards and its monitor has the
  three adapters; from then on, whatever becomes of the server, the overall health is up exactly when
  the server runs, its heartbeat thread runs and the database answers the ping, and otherwise it is
  down and names what failed, in the order of the checks. If one of the calls fails, the server does
  not run and has no adapter: its health is reported as up all the same.\<close>

theorem server_health_spec:
  assumes "\<not> s_running s0" and "\<not> listening (s_node s0)" and "\<not> w_listening (s_web s0)" and "sessions (s_node s0) = []"
    and "db_faults (n_db (s_node s0)) = []" and "healthChecks s0 = []"
  shows "\<exists>s1. server_start os s0 = (Inr (), s1) \<and>
    (if wsa_ok os \<and> listen_tcp os \<and> listen_web os \<and> web_port os \<noteq> None
     then s_running s1 \<and> db_answers s1 \<and> hb_running s1 = (hb_running s0 \<or> thread_ok os) \<and>
       (\<forall>s. healthChecks s = healthChecks s1 \<longrightarrow>
          fst (server_health s) = Inr \<lparr>hr_name = ''cluster'',
            hr_status = (if s_running s \<and> hb_running s \<and> db_answers s then Up else Down),
            hr_detail = listed ((if s_running s then [] else [''server'']) @ (if hb_running s then [] else [''heartbeat'']) @
              (if db_answers s then [] else [''database'']))\<rparr>)
     else \<not> s_running s1 \<and> fst (server_health s1) = Inr \<lparr>hr_name = ''cluster'', hr_status = Up, hr_detail = []\<rparr>)"
proof -
  from start_run [OF assms(1-5), of os] obtain s1 where s1: "server_start os s0 = (Inr (), s1)" "s_running s1 = os_ok os"
    "db_faults (n_db (s_node s1)) = []" "healthChecks s1 = healthChecks s0 @ (if os_ok os then adapters else [])"
    "os_ok os \<longrightarrow> hb_running s1 = (hb_running s0 \<or> thread_ok os)"
    by blast
  show ?thesis
  proof (cases "os_ok os")
    case True
    then show ?thesis using s1 assms(6) health_run by (intro exI [of _ s1]) (fastforce simp: os_ok_def db_answers_def)
  next
    case False
    then show ?thesis using s1 assms(6)
      by (intro exI [of _ s1]) (auto simp: os_ok_def server_health_def monitor_check_def bindM_run)
  qed
qed

text \<open>The witness: a process whose heartbeat thread could not be created.\<close>

definition idle_server :: server where
  "idle_server = \<lparr>s_web = \<lparr>w_node = (booted default_config)\<lparr>listening := False\<rparr>, w_listening = False, w_listenPort = 0,
     w_liveSockets = [], w_rawSent = [], w_shutdown = [], w_handedOff = []\<rparr>, s_running = False, hb_stopped = False,
     hb_running = False, healthChecks = []\<rparr>"

theorem server_health_spec_witness:
  "\<exists>s1. server_start \<lparr>wsa_ok = True, listen_tcp = True, listen_web = True, web_port = Some 8090, listen_peer = True, thread_ok = False\<rparr>
      idle_server = (Inr (), s1) \<and> s_running s1 \<and>
    fst (server_health s1) = Inr \<lparr>hr_name = ''cluster'', hr_status = Down, hr_detail = ''heartbeat:Down''\<rparr>"
proof -
  have "\<not> s_running idle_server" "\<not> listening (s_node idle_server)" "\<not> w_listening (s_web idle_server)"
    "sessions (s_node idle_server) = []" "db_faults (n_db (s_node idle_server)) = []" "healthChecks idle_server = []"
    "\<not> hb_running idle_server"
    by (simp_all add: idle_server_def booted_eq fresh_node_def seeded_rooms)
  then show ?thesis
    using server_health_spec [of idle_server
      "\<lparr>wsa_ok = True, listen_tcp = True, listen_web = True, web_port = Some 8090, listen_peer = True, thread_ok = False\<rparr>"]
    by auto
qed

end
