(* ===== verification/Browser_Theorems.thy ===== *)
theory Browser_Theorems
  imports Web_Theorems Service_Theorems
begin

text \<open>
  A browser session is a TCP session behind frames: the loop of \<open>handleBrowser\<close> computes what the loop
  of \<open>handleClient\<close> computes for the packets in the frames.
\<close>

definition packet_frame :: "packet \<times> u32 \<Rightarrow> string" where
  "packet_frame pk = encodeFrame Binary (serialize (fst pk)) True (snd pk)"

lemma browserLoop_empty: "stream (sb_socket b) \<Longrightarrow> sb_stream b = [] \<Longrightarrow> browserLoop A fd b w = (Inr (), w)"
proof -
  assume "stream (sb_socket b)" "sb_stream b = []"
  then obtain b' where "ensure 2 b = (False, b')" using ensure_spec [of b 2] by auto
  then have "readFrame b = (frameFailed FrameError, b')" by (simp add: readFrame_def)
  then show ?thesis by (subst browserLoop.simps) (simp add: bindM_run frameFailed_def)
qed

lemma browser_loop_run:
  assumes "stream (sb_socket b)" and "sb_stream b = concat (map packet_frame pks)" and "\<forall>(p, k)\<in>set pks. serialize p \<noteq> []"
    and "w_listening w"
  shows "browserLoop A fd b w = onConnections (clientLoop A fd (map fst pks)) w"
  using assms
proof (induction pks arbitrary: b w)
  case Nil
  then show ?case using browserLoop_empty [of b] by (simp add: onConnections_def zoomM_def)
next
  case (Cons pk pks)
  obtain p k where pk: "pk = (p, k)" by fastforce
  have ok: "sendable p" using Cons.prems(3) pk by (auto simp: serialize_Nil_iff)
  then have "frame_ok Binary (serialize p)" by (simp add: frame_ok_def serialize_sendable sendable_def)
  moreover have "sb_stream b = encodeFrame Binary (serialize p) True k @ concat (map packet_frame pks)"
    using Cons.prems(2) by (simp add: pk packet_frame_def [of "(p, k)"])
  ultimately obtain b' where b': "readFrame b = (\<lparr>fd_status = FrameOk, fd_consumed = length (encodeFrame Binary (serialize p) True k),
      fd_opcode = Binary, fd_payload = serialize p\<rparr>, b')" "stream (sb_socket b')" "sb_stream b' = concat (map packet_frame pks)"
    using readFrame_browser [OF Cons.prems(1)] by metis
  obtain r n where d: "dispatchPacket A fd p (w_node w) = (r, n)" by fastforce
  have "browserLoop A fd b' (w\<lparr>w_node := n\<rparr>) = onConnections (clientLoop A fd (map fst pks)) (w\<lparr>w_node := n\<rparr>)"
    using Cons.IH [OF b'(2,3), of "w\<lparr>w_node := n\<rparr>"] Cons.prems(3,4) by simp
  then have "(if listening (w_node w) then bindM (onConnections (dispatchPacket A fd p))
      (\<lambda>ok. if \<not> ok then returnM () else browserLoop A fd b') else returnM ()) w =
      onConnections (clientLoop A fd (map fst (pk # pks))) w"
    using d by (cases r) (auto simp: bindM_run onConnections_def zoomM_def pk split: prod.splits)
  then show ?case
    using Cons.prems(4) b'(1) deserialize_put [OF ok]
    by (subst browserLoop.simps) (simp add: bindM_run split: if_splits)
qed

text \<open>C8: a browser that sends packets as masked binary frames is served exactly like a TCP client that
  sends the same packets, however the bytes are cut on the way: the same computation of the node, the
  same end of the loop.\<close>

theorem browser_served_like_tcp:
  assumes "stream (sb_socket b)" and "sb_stream b = concat (map packet_frame pks)" and "\<forall>(p, k)\<in>set pks. serialize p \<noteq> []"
    and "w_listening w"
  shows "browserLoop A fd b w =
    (case clientLoop A fd (map fst pks) (w_node w) of (r, n) \<Rightarrow> (r, w\<lparr>w_node := n\<rparr>))"
  using browser_loop_run [OF assms] by (simp add: onConnections_def zoomM_def)

definition pong_packet :: packet where
  "pong_packet = mkPacket 0 ''ada'' [] HEARTBEAT [] ''pong'' 0"

theorem browser_served_like_tcp_witness:
  "browserLoop plain_argon2 5 \<lparr>pending = [], sb_socket = [take 3 (packet_frame (pong_packet, 7)), drop 3 (packet_frame (pong_packet, 7))]\<rparr>
     (s_web (server_of one_client)) =
   (case clientLoop plain_argon2 5 [pong_packet] one_client of (r, n) \<Rightarrow> (r, (s_web (server_of one_client))\<lparr>w_node := n\<rparr>))"
proof -
  have ser: "serialize pong_packet \<noteq> []"
    by (simp add: serialize_nonempty pong_packet_def mkPacket_def isValidPacketType_iff MAX_PAYLOAD_BYTES_def)
  then have "3 < length (packet_frame (pong_packet, 7))"
    by (simp add: packet_frame_def encodeFrame_parts key_bytes_def length_put_u32 put_u32_def)
  then have "stream [take 3 (packet_frame (pong_packet, 7)), drop 3 (packet_frame (pong_packet, 7))]" by auto
  then show ?thesis
    using browser_served_like_tcp [of "\<lparr>pending = [], sb_socket = [take 3 (packet_frame (pong_packet, 7)), drop 3 (packet_frame (pong_packet, 7))]\<rparr>"
        "[(pong_packet, 7)]" "s_web (server_of one_client)" plain_argon2 5] ser
    by (simp add: sb_stream_def server_of_def)
qed

end
