(* ===== verification/Reconnect_Theorems.thy ===== *)
theory Reconnect_Theorems
  imports Access_Theorems
begin

text \<open>
  Resuming a session on another node: who may claim the presence of a user, and what a successful claim does
  to the session, the presence row, the memberships and the cluster.
\<close>

declare map_of_eq_Some_iff [simp del] Some_eq_map_of_iff [simp del]

section \<open>Who may claim a session\<close>

text \<open>The node that holds the presence row of a user.\<close>

definition presence_owner :: "node \<Rightarrow> string \<Rightarrow> string option" where
  "presence_owner n u = map_option (\<lambda>r. c_str (on_node r)) (find (\<lambda>r. on_username r = u) (t_online (n_db n)))"

text \<open>A presence can be claimed when no session of this node runs as the user and the row names this node
  or one that is not connected.\<close>

definition claimable :: "node \<Rightarrow> user \<Rightarrow> bool" where
  "claimable n v \<longleftrightarrow> \<not> (\<exists>(fd, s)\<in>set (sessions n). cs_authenticated s \<and> user_eq (cs_user s) v) \<and>
     (case presence_owner n (u_username v) of
        None \<Rightarrow> False
      | Some nd \<Rightarrow> nd = nodeId n \<or> \<not> (gossip_wired n \<and> isNodeLive nd n))"

lemma onlineNode_run:
  assumes "db_live D (n_db n)"
  shows "dbM (onlineNode u) n = (Inr (presence_owner n u), n)"
    and "dbM (canClaimPresence u b) n = (Inr (presence_owner n u \<noteq> None \<and> \<not> b), n)"
proof -
  have "first_cell (map (map c_str) (sql_get_online_node u (n_db n))) = presence_owner n u"
    by (cases "filter (\<lambda>r. on_username r = u) (t_online (n_db n))")
      (simp_all add: first_cell_def sql_get_online_node_def presence_owner_def find_filter)
  then show "dbM (onlineNode u) n = (Inr (presence_owner n u), n)"
    using assms by (simp add: onlineNode_def dbM_query)
  then show "dbM (canClaimPresence u b) n = (Inr (presence_owner n u \<noteq> None \<and> \<not> b), n)"
    by (auto simp: canClaimPresence_def dbM_def zoomM_def bindM_run split: prod.splits sum.splits)
qed

lemma getUser_node:
  assumes "db_live D (n_db n)"
  shows "dbM (getUser u) n = (Inr (map_option user_of_row (find (\<lambda>r. ur_username r = u) (t_users (n_db n)))), n)"
  using getUser_find [OF db_live_simps(2) [OF assms]] by (simp add: dbM_def zoomM_def)

text \<open>The answer to a request that cannot be granted.\<close>

definition reconnect_error :: "node \<Rightarrow> string \<Rightarrow> string" where
  "reconnect_error n u =
     (case find (\<lambda>r. ur_username r = u) (t_users (n_db n)) of
        None \<Rightarrow> ''unknown user''
      | Some r \<Rightarrow> if presence_owner n (u_username (user_of_row r)) = None then ''not logged in'' else ''user already logged in'')"

text \<open>C33: a RECONNECT is refused, and the node left exactly as it was, for a name no user has, for a user
  without a presence row, and for one whose session runs on this node or whose presence row names
  another node that is connected.\<close>

theorem reconnect_refused:
  assumes "reach enabled (node_exec A) (booted c) n" and "p_type p = RECONNECT"
    and "\<And>r. find (\<lambda>r. ur_username r = p_sender p) (t_users (n_db n)) = Some r \<Longrightarrow> \<not> claimable n (user_of_row r)"
  shows "processPacket A p fd n = (Inr (reply (response_to n p) ERROR (reconnect_error n (p_sender p))), n)"
proof -
  have live: "db_live (known_ids n) (n_db n)" using assms(1) by (rule reach_live)
  note runs = getUser_node [OF live] onlineNode_run [OF live]
  have "handleReconnect p fd q n = (Inr (reply q ERROR (reconnect_error n (p_sender p))), n)" for q
  proof (cases "find (\<lambda>r. ur_username r = p_sender p) (t_users (n_db n))")
    case None
    then show ?thesis by (simp add: handleReconnect_def bindM_run catchM_run runs reconnect_error_def)
  next
    case (Some r)
    let ?v = "user_of_row r"
    have "\<not> claimable n ?v" using assms(3) Some .
    then show ?thesis
      using Some by (cases "presence_owner n (u_username ?v)")
        (auto simp: handleReconnect_def bindM_run catchM_run runs Let_def reconnect_error_def
          ownerLiveM_def hasSession_def cm_isNodeLive_def claimable_def alreadyLoggedIn_def)
  qed
  then show ?thesis using assms(2) by (simp add: processPacket_def response_to_def bindM_run)
qed

theorem reconnect_refused_witness:
  "processPacket plain_argon2 (mkPacket 0 ''admin'' [] RECONNECT [] [] 0) 5 one_client =
     (Inr (reply (response_to one_client (mkPacket 0 ''admin'' [] RECONNECT [] [] 0)) ERROR ''not logged in''), one_client)"
proof -
  have "presence_owner one_client u = None" for u by (simp add: presence_owner_def one_client_facts new_db_tables)
  then show ?thesis
    using reconnect_refused [OF one_client_reach, of "mkPacket 0 ''admin'' [] RECONNECT [] [] 0" 5] admin_row_facts(3)
    by (simp add: claimable_def reconnect_error_def mkPacket_def one_client_facts)
qed

section \<open>The steps of a successful claim\<close>

text \<open>The memberships of a user after they moved to a node: no other user is concerned, and no row of the
  user names another node.\<close>

definition resettled :: "string \<Rightarrow> string \<Rightarrow> membership_row list \<Rightarrow> membership_row list \<Rightarrow> bool" where
  "resettled u nd ms ms' \<longleftrightarrow> filter (\<lambda>m. ms_username m \<noteq> u) ms' = filter (\<lambda>m. ms_username m \<noteq> u) ms \<and>
     (\<forall>m\<in>set ms'. ms_username m = u \<longrightarrow> ms_node m = nd)"

definition at_node :: "string \<Rightarrow> string \<Rightarrow> membership_row \<Rightarrow> membership_row" where
  "at_node u nd m = (if ms_username m = u then m\<lparr>ms_node := nd\<rparr> else m)"

lemma filter_others:
  "filter (\<lambda>m. ms_username m \<noteq> u) (filter (not_in u i) ms) = filter (\<lambda>m. ms_username m \<noteq> u) ms"
  by (auto simp: not_in_def intro: filter_cong)

lemma resettled_steps:
  "resettled u nd ms (map (at_node u nd) ms)"
  "resettled u nd ms ms' \<Longrightarrow> resettled u nd ms (map (at_node u nd) ms')"
  "resettled u nd ms ms' \<Longrightarrow> resettled u nd ms (moved u old new nd ms')"
  "resettled u nd ms ms' \<Longrightarrow> resettled u nd ms (filter (not_in u i) (left_room n u to prev ms') @ [\<lparr>ms_username = u, ms_room = i, ms_node = nd\<rparr>])"
proof -
  have m: "filter (\<lambda>m. ms_username m \<noteq> u) (map (at_node u nd) xs) = filter (\<lambda>m. ms_username m \<noteq> u) xs" for xs
    by (induction xs) (auto simp: at_node_def)
  show "resettled u nd ms (map (at_node u nd) ms)"
    "resettled u nd ms ms' \<Longrightarrow> resettled u nd ms (map (at_node u nd) ms')"
    using m by (auto simp: resettled_def) (auto simp: at_node_def split: if_splits)
  show "resettled u nd ms ms' \<Longrightarrow> resettled u nd ms (moved u old new nd ms')"
    by (auto simp: resettled_def moved_def filter_others simp del: filter_filter)
  show "resettled u nd ms ms' \<Longrightarrow> resettled u nd ms (filter (not_in u i) (left_room n u to prev ms') @ [\<lparr>ms_username = u, ms_room = i, ms_node = nd\<rparr>])"
    by (auto simp: resettled_def left_room_def filter_others simp del: filter_filter split: option.splits)
qed

lemma moveMembership_run:
  "db_faults d = [] \<Longrightarrow> moveMembership u nd d = (Inr (), d\<lparr>t_membership := map (at_node u nd) (t_membership d)\<rparr>)"
  by (simp add: moveMembership_def run_one sql_move_membership_def at_node_def)

lemma addToAllowList_run:
  assumes "db_faults d = []" and "has_room d i" and "has_email d e"
  shows "\<exists>al. addToAllowList i e False d = (Inr (), d\<lparr>t_allow := al\<rparr>)"
proof (cases "\<exists>a\<in>set (t_allow d). al_room a = i \<and> al_email a = e")
  case True
  then show ?thesis
    using assms by (intro exI [of _ "t_allow d"]) (simp add: addToAllowList_def run_one sql_add_user_allow_list_def)
qed (use assms in \<open>auto simp: addToAllowList_def run_one sql_add_user_allow_list_def\<close>)

text \<open>The presence rows when a node holds the user.\<close>

definition held_by :: "string \<Rightarrow> string \<Rightarrow> online_row list \<Rightarrow> online_row list" where
  "held_by u nd os = filter (\<lambda>r. on_username r \<noteq> u) os @ [\<lparr>on_username = u, on_node = nd\<rparr>]"

lemma held_by_again [simp]: "held_by u nd (held_by u nd' os) = held_by u nd os"
  by (simp add: held_by_def)

lemma applyReconnect_run:
  assumes "db_faults (n_db n) = []" and "u \<noteq> []" "nodeId n \<noteq> []"
  shows "applyReconnect u (nodeId n) n = (Inr True, n\<lparr>n_db := (n_db n)\<lparr>t_online := held_by u (nodeId n) (t_online (n_db n)),
     t_membership := map (at_node u (nodeId n)) (t_membership (n_db n))\<rparr>\<rparr>)"
  using assms by (simp add: applyReconnect_def thenM_run bindM_run dbM_def zoomM_def membership_runs moveMembership_run held_by_def whenM_def
      nodeId_def)

lemma rumorReconnect_run:
  assumes "gossip_wired n" and "next_id n ''RECONNECT'' u \<notin> set (seenEvents n)" and "short (next_id n ''RECONNECT'' u)"
    and "db_faults (n_db n) = []" and "u \<noteq> []" "nodeId n \<noteq> []"
  shows "\<exists>ws q. rumorPresence ''RECONNECT'' u n = (Inr (), (logged (next_id n ''RECONNECT'' u) q (n\<lparr>nextPresenceSeq := nextPresenceSeq n + 1\<rparr>))
     \<lparr>n_db := (n_db n)\<lparr>t_online := held_by u (nodeId n) (t_online (n_db n)),
       t_membership := map (at_node u (nodeId n)) (t_membership (n_db n))\<rparr>, n_sent := ws\<rparr>)"
proof -
  let ?q = "event_packet n ''RECONNECT'' u (nodeId n) (int_to_string (n_now n)) []"
  let ?l = "logged (next_id n ''RECONNECT'' u) ?q (n\<lparr>nextPresenceSeq := nextPresenceSeq n + 1\<rparr>)"
  note parts = next_id_parts [OF assms(3)]
  have "nodeId ?l = nodeId n" by (simp add: nodeId_def)
  then have "applyEvent ?q ?l = (Inr True, ?l\<lparr>n_db := (n_db n)\<lparr>t_online := held_by u (nodeId n) (t_online (n_db n)),
       t_membership := map (at_node u (nodeId n)) (t_membership (n_db n))\<rparr>\<rparr>)"
    using applyReconnect_run [of ?l u] assms(4-6) by (simp add: applyEvent_def event_fields [OF assms(3) parts(1,3)])
  from rumorEvent_applied [OF assms(1,2) parts(4) assms(3) parts(2,1,3) this]
  show ?thesis by (auto simp: rumorPresence_def nowText_def bindM_run)
qed

text \<open>The room of a resumed session: the one asked for when it is known and open to the user, the Lobby
  otherwise.\<close>

definition resume_room :: "node \<Rightarrow> clientSession \<Rightarrow> string \<Rightarrow> room" where
  "resume_room n s requested =
     (case map_of (knownRooms n) requested of
        None \<Rightarrow> LOBBY
      | Some r \<Rightarrow> if ro_privacy r = PRIVATE \<and> \<not> admitted n s r then LOBBY else r)"

lemma resume_room_known:
  assumes "rooms_known n"
  shows "map_of (knownRooms n) (ro_name (resume_room n s requested)) = Some (resume_room n s requested)"
    and "requested \<noteq> [] \<Longrightarrow> ro_name (resume_room n s requested) \<noteq> []"
proof -
  have "ro_name r = requested" if "map_of (knownRooms n) requested = Some r" for r
    using assms that by (auto simp: rooms_known_def dest: map_of_SomeD)
  then show "map_of (knownRooms n) (ro_name (resume_room n s requested)) = Some (resume_room n s requested)"
    "requested \<noteq> [] \<Longrightarrow> ro_name (resume_room n s requested) \<noteq> []"
    using assms by (auto simp: resume_room_def rooms_known_def split: option.split) (simp_all add: LOBBY_def mkRoom_def)
qed

lemma resumeRoom_run:
  assumes "db_live (known_ids n) (n_db n)" and "rooms_known n" and "map_of (sessions n) fd = Some s" and "cs_authenticated s"
    and "has_username (n_db n) (u_username (cs_user s))" and "requested \<noteq> []" and "R = resume_room n s requested"
  shows "resumeRoom (cs_user s) fd requested n = (Inr (ro_name R), (relocated fd (ro_name (cs_room s)) R n)
     \<lparr>n_db := (n_db n)\<lparr>t_membership := moved (u_username (cs_user s)) (ro_id (cs_room s)) (ro_id R) (nodeId n) (t_membership (n_db n))\<rparr>\<rparr>)"
proof -
  have fault: "db_faults (n_db n) = []" using assms(1) by (rule db_live_simps)
  have lobby: "map_of (knownRooms n) (ro_name LOBBY) = Some LOBBY" "ro_name LOBBY \<noteq> []"
    using assms(2) by (simp_all add: rooms_known_def) (simp add: LOBBY_def mkRoom_def)
  have has: "has_room (n_db n) (ro_id r)" if "map_of (knownRooms n) k = Some r" for k r
    using db_live_simps(4) [OF assms(1)] that by (force simp: known_ids_def dest: map_of_SomeD)
  have named: "ro_name r = requested" if "map_of (knownRooms n) requested = Some r" for r
    using assms(2) that by (auto simp: rooms_known_def dest: map_of_SomeD)
  note join = joinRoom_run [OF assms(3,4) _ _ fault assms(5)]
  have "dbM (isAllowed (ro_id r) (u_email (cs_user s))) n = (Inr (admitted n s r \<or> isAdmin s), n)" if "\<not> isAdmin s" for r
    using isAllowed_run [OF assms(1)] that assms(4) by (simp add: admitted_def)
  then show ?thesis
    using assms(3,6,7) named join [OF lobby has [OF lobby(1)]] join [OF _ _ has]
    by (auto simp: resumeRoom_def bindM_run thenM_run getRoom_def sessionM_def resume_room_def admitted_def split: option.split)
qed

text \<open>The last part of the request: both events are applied and sent, and the directories go to the client.\<close>

lemma announce_run:
  assumes net: "gossip_wired n" "nodeId n \<noteq> []" "fd \<noteq> INVALID_SOCKET" and fault: "db_faults (n_db n) = []" and u: "u \<noteq> []" "has_username (n_db n) u"
    and R: "map_of (knownRooms n) (ro_name R) = Some R" "ro_name R \<noteq> []" "has_room (n_db n) (ro_id R)" and prev: "short prev"
    and i: "i = next_id n ''RECONNECT'' u" "i \<notin> set (seenEvents n)" "short i"
    and j: "j = next_id (n\<lparr>nextPresenceSeq := nextPresenceSeq n + 1\<rparr>) ''ROOM_JOIN'' u" "j \<notin> set (seenEvents n)" "short j"
    and held: "resettled u (nodeId n) ms (t_membership (n_db n))" "held_by u (nodeId n) (t_online (n_db n)) = os"
  shows "\<exists>n'. thenM (rumorPresence ''RECONNECT'' u) (thenM (rumorRoomJoin u (ro_name R) prev)
      (bindM encodeRoomDirectory (\<lambda>dir. thenM (refreshServerDirectory fd) (returnM (f dir))))) n =
        (Inr (f (serializeList (map snd (knownRooms n)))), n') \<and>
    sessions n' = sessions n \<and> knownRooms n' = knownRooms n \<and> t_online (n_db n') = os \<and>
    \<lparr>ms_username = u, ms_room = ro_id R, ms_node = nodeId n\<rparr> \<in> set (t_membership (n_db n')) \<and>
    resettled u (nodeId n) ms (t_membership (n_db n')) \<and>
    t_users (n_db n') = t_users (n_db n) \<and> t_messages (n_db n') = t_messages (n_db n)"
proof -
  let ?d = "(n_db n)\<lparr>t_online := os, t_membership := map (at_node u (nodeId n)) (t_membership (n_db n))\<rparr>"
  obtain ws q where r1: "rumorPresence ''RECONNECT'' u n = (Inr (), (logged i q (n\<lparr>nextPresenceSeq := nextPresenceSeq n + 1\<rparr>))\<lparr>n_db := ?d, n_sent := ws\<rparr>)"
    using rumorReconnect_run [OF net(1) i(2,3) [unfolded i(1)] fault u(1) net(2)] held(2) i(1) by auto
  have "i \<noteq> j" using i(1) j(1) by (simp add: next_id_def nodeId_def)
  then obtain n' where n': "thenM (rumorPresence ''RECONNECT'' u) (thenM (rumorRoomJoin u (ro_name R) prev)
      (bindM encodeRoomDirectory (\<lambda>dir. thenM (refreshServerDirectory fd) (returnM (f dir))))) n = (Inr (f (serializeList (map snd (knownRooms n)))), n')"
    "sessions n' = sessions n" "knownRooms n' = knownRooms n"
    "n_db n' = ?d\<lparr>t_membership := filter (not_in u (ro_id R)) (left_room n u (ro_name R) prev (t_membership ?d)) @
      [\<lparr>ms_username = u, ms_room = ro_id R, ms_node = nodeId n\<rparr>]\<rparr>"
    using announced [OF r1 net, of R prev j f] fault u R prev j by auto
  moreover have "resettled u (nodeId n) ms (t_membership (n_db n'))"
    using resettled_steps(4) [OF resettled_steps(2) [OF held(1)]] n'(4) by simp
  ultimately show ?thesis by auto
qed

text \<open>A resumed room other than the Lobby admits the user from then on when it is public.\<close>

lemma admit_run:
  assumes "db_faults (n_db n) = []" and "has_room (n_db n) (ro_id R)" and "has_email (n_db n) e"
    and "map_of (knownRooms n) (ro_name R) = Some R" and "ro_name R \<noteq> []"
  shows "\<exists>al. whenM (ro_name R \<noteq> ro_name LOBBY) (bindM (getRoom (ro_name R)) (\<lambda>q. case q of None \<Rightarrow> returnM ()
      | Some r \<Rightarrow> whenM (ro_privacy r = PUBLIC) (dbM (addToAllowList (ro_id r) e False)))) n = (Inr (), n\<lparr>n_db := (n_db n)\<lparr>t_allow := al\<rparr>\<rparr>)"
proof -
  obtain al where al: "addToAllowList (ro_id R) e False (n_db n) = (Inr (), (n_db n)\<lparr>t_allow := al\<rparr>)"
    using addToAllowList_run [OF assms(1-3)] by blast
  show ?thesis
    using al assms(4,5)
    by (intro exI [of _ "if ro_name R \<noteq> ro_name LOBBY \<and> ro_privacy R = PUBLIC then al else t_allow (n_db n)"],
        cases "ro_name R = ro_name LOBBY") (simp_all add: whenM_def bindM_run getRoom_def dbM_def zoomM_def)
qed

text \<open>The claim itself: the presence row and the memberships are taken over before the room is entered.\<close>

lemma takeover_run:
  assumes live: "db_live (known_ids n) (n_db n)" and rooms: "rooms_known n" and s: "map_of (sessions n) fd = Some s" "cs_authenticated s"
    and u: "u_username (cs_user s) = u" "has_username (n_db n) u" "has_email (n_db n) (u_email (cs_user s))" and req: "requested \<noteq> []"
    and R: "R = resume_room n s requested"
  shows "\<exists>al. thenM (dbM (setOnline u (nodeId n))) (thenM (dbM (moveMembership u (nodeId n)))
      (bindM (resumeRoom (cs_user s) fd requested) (\<lambda>joined.
        thenM (whenM (joined \<noteq> ro_name LOBBY) (bindM (getRoom joined) (\<lambda>q. case q of None \<Rightarrow> returnM ()
          | Some r \<Rightarrow> whenM (ro_privacy r = PUBLIC) (dbM (addToAllowList (ro_id r) (u_email (cs_user s)) False))))) (f joined)))) n =
     f (ro_name R) ((relocated fd (ro_name (cs_room s)) R n)\<lparr>n_db := (n_db n)\<lparr>t_online := held_by u (nodeId n) (t_online (n_db n)),
       t_membership := moved u (ro_id (cs_room s)) (ro_id R) (nodeId n) (map (at_node u (nodeId n)) (t_membership (n_db n))), t_allow := al\<rparr>\<rparr>)"
proof -
  define d where "d = (n_db n)\<lparr>t_online := held_by u (nodeId n) (t_online (n_db n)), t_membership := map (at_node u (nodeId n)) (t_membership (n_db n))\<rparr>"
  have fault: "db_faults (n_db n) = []" using live by (rule db_live_simps)
  have on: "setOnline u (nodeId n) (n_db n) = (Inr (), (n_db n)\<lparr>t_online := held_by u (nodeId n) (t_online (n_db n))\<rparr>)"
    using fault by (simp add: membership_runs held_by_def)
  have mv: "moveMembership u (nodeId n) ((n_db n)\<lparr>t_online := held_by u (nodeId n) (t_online (n_db n))\<rparr>) = (Inr (), d)"
    using fault by (simp add: moveMembership_run d_def)
  have onM: "dbM (setOnline u (nodeId n)) n = (Inr (), n\<lparr>n_db := (n_db n)\<lparr>t_online := held_by u (nodeId n) (t_online (n_db n))\<rparr>\<rparr>)"
    and mvM: "dbM (moveMembership u (nodeId n)) (n\<lparr>n_db := (n_db n)\<lparr>t_online := held_by u (nodeId n) (t_online (n_db n))\<rparr>\<rparr>) = (Inr (), n\<lparr>n_db := d\<rparr>)"
    using on mv by (simp_all add: dbM_def zoomM_def)
  have "db_live (known_ids n) ((n_db n)\<lparr>t_online := held_by u (nodeId n) (t_online (n_db n))\<rparr>)"
    using live_all(3) [of "known_ids n" u "nodeId n"] live on unfolding keeps_def by (metis snd_conv)
  then have "db_live (known_ids n) d" using live_all(6) [of "known_ids n" u "nodeId n"] mv unfolding keeps_def by (metis snd_conv)
  moreover have "admitted (n\<lparr>n_db := d\<rparr>) s = admitted n s" by (simp add: fun_eq_iff admitted_def d_def)
  then have "R = resume_room (n\<lparr>n_db := d\<rparr>) s requested" using R by (simp add: resume_room_def split: option.split)
  ultimately have res: "resumeRoom (cs_user s) fd requested (n\<lparr>n_db := d\<rparr>) = (Inr (ro_name R), (relocated fd (ro_name (cs_room s)) R (n\<lparr>n_db := d\<rparr>))
     \<lparr>n_db := d\<lparr>t_membership := moved u (ro_id (cs_room s)) (ro_id R) (nodeId n) (t_membership d)\<rparr>\<rparr>)"
    using resumeRoom_run [of "n\<lparr>n_db := d\<rparr>" fd s requested R] rooms s u req
    by (simp add: known_ids_def rooms_known_def nodeId_def d_def)
  let ?n = "relocated fd (ro_name (cs_room s)) R n" and ?d = "d\<lparr>t_membership := moved u (ro_id (cs_room s)) (ro_id R) (nodeId n) (t_membership d)\<rparr>"
  have n: "(relocated fd (ro_name (cs_room s)) R (n\<lparr>n_db := d\<rparr>))\<lparr>n_db := e\<rparr> = ?n\<lparr>n_db := e\<rparr>" for e by (simp add: relocated_def)
  have known: "map_of (knownRooms n) (ro_name R) = Some R" unfolding R using rooms by (rule resume_room_known(1))
  then have "has_room (n_db n) (ro_id R)"
    using db_live_simps(4) [OF live] by (force simp: known_ids_def dest: map_of_SomeD)
  moreover have "knownRooms ?n = knownRooms n" "ro_name R \<noteq> []" using resume_room_known(2) [OF rooms req] R by (simp_all add: relocated_def)
  ultimately obtain al' where "whenM (ro_name R \<noteq> ro_name LOBBY) (bindM (getRoom (ro_name R)) (\<lambda>q. case q of None \<Rightarrow> returnM ()
      | Some r \<Rightarrow> whenM (ro_privacy r = PUBLIC) (dbM (addToAllowList (ro_id r) (u_email (cs_user s)) False)))) (?n\<lparr>n_db := ?d\<rparr>) =
    (Inr (), ?n\<lparr>n_db := ?d\<lparr>t_allow := al'\<rparr>\<rparr>)"
    using admit_run [of "?n\<lparr>n_db := ?d\<rparr>" R "u_email (cs_user s)"] known fault u(3) by (auto simp: d_def)
  moreover have "?d\<lparr>t_allow := al'\<rparr> = (n_db n)\<lparr>t_online := held_by u (nodeId n) (t_online (n_db n)),
      t_membership := moved u (ro_id (cs_room s)) (ro_id R) (nodeId n) (map (at_node u (nodeId n)) (t_membership (n_db n))), t_allow := al'\<rparr>"
    by (simp add: d_def)
  ultimately show ?thesis using res n onM mvM by (intro exI [of _ al']) (simp add: thenM_run bindM_run)
qed

section \<open>A session resumed\<close>

text \<open>The state after a successful RECONNECT of the user stored in row \<open>r\<close>, in the room \<open>R\<close>.\<close>

definition resumed :: "SOCKET \<Rightarrow> clientSession \<Rightarrow> user_row \<Rightarrow> room \<Rightarrow> node \<Rightarrow> node \<Rightarrow> bool" where
  "resumed fd s r R n n' \<longleftrightarrow>
     map_of (sessions n') = (map_of (sessions n))(fd \<mapsto> s\<lparr>cs_user := user_of_row r, cs_authenticated := True, cs_room := R\<rparr>) \<and>
     t_online (n_db n') = held_by (ur_username r) (nodeId n) (t_online (n_db n)) \<and>
     \<lparr>ms_username = ur_username r, ms_room = ro_id R, ms_node = nodeId n\<rparr> \<in> set (t_membership (n_db n')) \<and>
     resettled (ur_username r) (nodeId n) (t_membership (n_db n)) (t_membership (n_db n')) \<and>
     t_users (n_db n') = t_users (n_db n) \<and> t_messages (n_db n') = t_messages (n_db n) \<and> knownRooms n' = knownRooms n"

lemma resume_run:
  assumes live: "db_live (known_ids n) (n_db n)" and rooms: "rooms_known n" and s: "map_of (sessions n) fd = Some s" "cs_authenticated s" "fd \<noteq> INVALID_SOCKET"
    and v: "cs_user s = user_of_row r" "u_username (user_of_row r) = u" and u: "ur_username r = u" "u \<noteq> []" "has_username (n_db n) u" "has_email (n_db n) (u_email (user_of_row r))"
    and net: "gossip_wired n" "nodeId n \<noteq> []" and prev: "short (ro_name (cs_room s))" and req: "requested \<noteq> []"
    and i: "i = next_id n ''RECONNECT'' u" "i \<notin> set (seenEvents n)" "short i"
    and j: "j = next_id (n\<lparr>nextPresenceSeq := nextPresenceSeq n + 1\<rparr>) ''ROOM_JOIN'' u" "j \<notin> set (seenEvents n)" "short j"
    and R: "R = resume_room n s requested"
  shows "\<exists>n'. thenM (dbM (setOnline u (nodeId n))) (thenM (dbM (moveMembership u (nodeId n)))
      (bindM (resumeRoom (user_of_row r) fd requested) (\<lambda>joined.
        thenM (whenM (joined \<noteq> ro_name LOBBY) (bindM (getRoom joined) (\<lambda>q. case q of None \<Rightarrow> returnM ()
          | Some q \<Rightarrow> whenM (ro_privacy q = PUBLIC) (dbM (addToAllowList (ro_id q) (u_email (user_of_row r)) False)))))
       (thenM (rumorPresence ''RECONNECT'' u) (thenM (rumorRoomJoin u joined (ro_name (cs_room s)))
         (bindM encodeRoomDirectory (\<lambda>dir. thenM (refreshServerDirectory fd) (returnM (f dir))))))))) n =
       (Inr (f (serializeList (map snd (knownRooms n)))), n') \<and> resumed fd s r R n n'"
proof -
  have fault: "db_faults (n_db n) = []" using live by (rule db_live_simps)
  let ?f = "\<lambda>joined. thenM (rumorPresence ''RECONNECT'' u) (thenM (rumorRoomJoin u joined (ro_name (cs_room s)))
      (bindM encodeRoomDirectory (\<lambda>dir. thenM (refreshServerDirectory fd) (returnM (f dir)))))"
  define m where "m = (\<lambda>al. (relocated fd (ro_name (cs_room s)) R n)\<lparr>n_db := (n_db n)\<lparr>t_online := held_by u (nodeId n) (t_online (n_db n)),
       t_membership := moved u (ro_id (cs_room s)) (ro_id R) (nodeId n) (map (at_node u (nodeId n)) (t_membership (n_db n))), t_allow := al\<rparr>\<rparr>)"
  obtain al where take: "thenM (dbM (setOnline u (nodeId n))) (thenM (dbM (moveMembership u (nodeId n)))
      (bindM (resumeRoom (user_of_row r) fd requested) (\<lambda>joined.
        thenM (whenM (joined \<noteq> ro_name LOBBY) (bindM (getRoom joined) (\<lambda>q. case q of None \<Rightarrow> returnM ()
          | Some q \<Rightarrow> whenM (ro_privacy q = PUBLIC) (dbM (addToAllowList (ro_id q) (u_email (user_of_row r)) False))))) (?f joined)))) n =
      ?f (ro_name R) (m al)"
    using takeover_run [OF live rooms s(1,2) _ u(3) _ req R, of ?f] v u(4) by (auto simp: m_def)
  have f: "n_cfg (m al) = n_cfg n" "n_now (m al) = n_now n" "nextPresenceSeq (m al) = nextPresenceSeq n" "seenEvents (m al) = seenEvents n"
    "nodeId (m al) = nodeId n" "gossip_wired (m al)" "knownRooms (m al) = knownRooms n" "db_faults (n_db (m al)) = []"
    "has_username (n_db (m al)) u" "t_users (n_db (m al)) = t_users (n_db n)" "t_messages (n_db (m al)) = t_messages (n_db n)"
    "held_by u (nodeId n) (t_online (n_db (m al))) = held_by u (nodeId n) (t_online (n_db n))"
    using net fault u(3) by (simp_all add: m_def relocated_def nodeId_def)
  have known: "map_of (knownRooms n) (ro_name R) = Some R" "ro_name R \<noteq> []" using resume_room_known [OF rooms] R req by auto
  have "has_room (n_db (m al)) (ro_id R)"
    using db_live_simps(4) [OF live] known(1) by (force simp: known_ids_def m_def dest: map_of_SomeD)
  moreover have "next_id (m al) = next_id n" "next_id ((m al)\<lparr>nextPresenceSeq := nextPresenceSeq n + 1\<rparr>) = next_id (n\<lparr>nextPresenceSeq := nextPresenceSeq n + 1\<rparr>)"
    by (rule next_id_frame; simp add: f)+
  moreover have "resettled u (nodeId n) (t_membership (n_db n)) (t_membership (n_db (m al)))"
    using resettled_steps(3) [OF resettled_steps(1)] by (simp add: m_def)
  moreover have "map_of (sessions (m al)) = (map_of (sessions n))(fd \<mapsto> s\<lparr>cs_room := R\<rparr>)"
    using s(1) by (auto simp: m_def relocated_def session_map_entry fun_eq_iff option.map_ident)
  ultimately show ?thesis
    using announce_run [of "m al" fd u R "ro_name (cs_room s)" i j "t_membership (n_db n)" _ f] take f known s(2,3) v net u(1,2) prev i j
    unfolding resumed_def by fastforce
qed

text \<open>The checks before the claim, which only read, and the change of the session.\<close>

lemma bindM_bool:
  "m s = (Inr False, t) \<Longrightarrow> bindM m f s = f False t" "m s = (Inr True, t) \<Longrightarrow> bindM m f s = f True t"
  by (simp_all add: bindM_def)

lemma claim_head:
  assumes live: "db_live D (n_db n)" and row: "find (\<lambda>r. ur_username r = p_sender p) (t_users (n_db n)) = Some r"
    and claim: "claimable n (user_of_row r)" and s: "map_of (sessions n) fd = Some s"
  shows "handleReconnect p fd q n =
    catchM (let v = user_of_row r; username = u_username v in
        thenM (dbM (setOnline username (nodeId n)))
       (thenM (dbM (moveMembership username (nodeId n)))
       (bindM (resumeRoom v fd (if p_room p = [] then ro_name LOBBY else p_room p)) (\<lambda>joined.
        thenM (whenM (joined \<noteq> ro_name LOBBY) (bindM (getRoom joined) (\<lambda>q. case q of None \<Rightarrow> returnM ()
          | Some q \<Rightarrow> whenM (ro_privacy q = PUBLIC) (dbM (addToAllowList (ro_id q) (u_email v) False)))))
       (thenM (rumorPresence ''RECONNECT'' username) (thenM (rumorRoomJoin username joined (ro_name (cs_room s)))
       (bindM encodeRoomDirectory (\<lambda>dir. thenM (refreshServerDirectory fd)
         (returnM ((reply q SUCCESS (user_serialize v))\<lparr>p_room := dir\<rparr>))))))))))
      (\<lambda>_. returnM (reply q INTERNAL_SERVER_ERROR ''reconnect failed''))
      (n\<lparr>sessions := AList.map_entry fd (\<lambda>s. s\<lparr>cs_authenticated := True\<rparr>) (AList.map_entry fd (\<lambda>s. s\<lparr>cs_user := user_of_row r\<rparr>) (sessions n))\<rparr>)"
proof -
  let ?v = "user_of_row r"
  obtain nd where nd: "presence_owner n (u_username ?v) = Some nd" "nd = nodeId n \<or> \<not> (gossip_wired n \<and> isNodeLive nd n)"
    using claim by (auto simp: claimable_def split: option.splits)
  have g: "dbM (getUser (p_sender p)) n = (Inr (Some ?v), n)" using getUser_node [OF live] row by simp
  have o: "dbM (onlineNode (u_username ?v)) n = (Inr (Some nd), n)" using onlineNode_run(1) [OF live] nd(1) by simp
  have h: "hasSession ?v n = (Inr False, n)" using claim by (simp add: hasSession_def claimable_def)
  have l: "ownerLiveM ?v nd n = (Inr False, n)" using nd(2) h by (auto simp: ownerLiveM_def bindM_run cm_isNodeLive_def)
  have c: "dbM (canClaimPresence (u_username ?v) False) n = (Inr True, n)" using onlineNode_run(2) [OF live] nd(1) by simp
  have e: "sessionM fd n = (Inr s, n)" using s by (simp add: sessionM_def)
  show ?thesis
    unfolding handleReconnect_def
    by (simp add: catchM_run bindM_bool g o h l c e Let_def setUser_def setAuthenticated_def upd_session_def nodeId_def split del: if_split)
qed

lemma reconnect_run:
  assumes reach: "reach enabled (node_exec A) (booted c) n" and s: "map_of (sessions n) fd = Some s" "fd \<noteq> INVALID_SOCKET"
    and p: "p_type p = RECONNECT" and row: "find (\<lambda>r. ur_username r = p_sender p) (t_users (n_db n)) = Some r"
    and claim: "claimable n (user_of_row r)" and u: "ur_username r = u" "nul_free u" "u \<noteq> []" "nul_free (ur_email r)"
    and net: "gossip_wired n" "nodeId n \<noteq> []"
    and i: "i = next_id n ''RECONNECT'' u" "i \<notin> set (seenEvents n)" "short i"
    and j: "j = next_id (n\<lparr>nextPresenceSeq := nextPresenceSeq n + 1\<rparr>) ''ROOM_JOIN'' u" "j \<notin> set (seenEvents n)" "short j"
    and prev: "short (ro_name (cs_room s))"
    and R: "R = resume_room n (s\<lparr>cs_user := user_of_row r, cs_authenticated := True\<rparr>) (if p_room p = [] then ro_name LOBBY else p_room p)"
  shows "\<exists>n'. processPacket A p fd n = (Inr ((reply (response_to n p) SUCCESS (user_serialize (user_of_row r)))
      \<lparr>p_room := serializeList (map snd (knownRooms n))\<rparr>), n') \<and> resumed fd s r R n n'"
proof -
  let ?v = "user_of_row r" and ?req = "if p_room p = [] then ro_name LOBBY else p_room p"
  let ?s = "s\<lparr>cs_user := ?v, cs_authenticated := True\<rparr>"
  have ok: "node_ok n" using node.reach_inv [OF reach booted_ok] .
  have live: "db_live (known_ids n) (n_db n)" and rooms: "rooms_known n" using ok by (auto simp: node_inv_def)
  have fault: "db_faults (n_db n) = []" using live by (rule db_live_simps)
  have ul: "u_username ?v = u" using u by (simp add: user_of_row_def)
  have "r \<in> set (t_users (n_db n))" using row by (auto simp: find_Some_iff)
  then have has: "has_username (n_db n) u" "has_email (n_db n) (u_email ?v)"
    using u(1,4) by (auto simp: has_username_def has_email_def user_of_row_def)
  define m where "m = n\<lparr>sessions := AList.map_entry fd (\<lambda>s. s\<lparr>cs_authenticated := True\<rparr>) (AList.map_entry fd (\<lambda>s. s\<lparr>cs_user := ?v\<rparr>) (sessions n))\<rparr>"
  have f: "n_db m = n_db n" "knownRooms m = knownRooms n" "nodeId m = nodeId n" "known_ids m = known_ids n" "gossip_wired m = gossip_wired n"
    "seenEvents m = seenEvents n" "nextPresenceSeq m = nextPresenceSeq n" "rooms_known m = rooms_known n" "map_of (sessions m) fd = Some ?s"
    using s by (simp_all add: m_def nodeId_def known_ids_def rooms_known_def session_map_entry)
  have ids: "next_id m = next_id n" "next_id (m\<lparr>nextPresenceSeq := nextPresenceSeq n + 1\<rparr>) = next_id (n\<lparr>nextPresenceSeq := nextPresenceSeq n + 1\<rparr>)"
    by (rule next_id_frame; simp add: m_def)+
  have ne: "?req \<noteq> []" by (simp add: LOBBY_def mkRoom_def)
  have "admitted m ?s = admitted n ?s" by (simp add: fun_eq_iff admitted_def f)
  then have Rm: "R = resume_room m ?s ?req" using R f by (simp add: resume_room_def split: option.split)
  let ?a = "\<lambda>dir. (reply (response_to n p) SUCCESS (user_serialize ?v))\<lparr>p_room := dir\<rparr>"
  obtain n' where n': "thenM (dbM (setOnline u (nodeId n))) (thenM (dbM (moveMembership u (nodeId n)))
      (bindM (resumeRoom ?v fd ?req) (\<lambda>joined.
        thenM (whenM (joined \<noteq> ro_name LOBBY) (bindM (getRoom joined) (\<lambda>q. case q of None \<Rightarrow> returnM ()
          | Some q \<Rightarrow> whenM (ro_privacy q = PUBLIC) (dbM (addToAllowList (ro_id q) (u_email ?v) False)))))
       (thenM (rumorPresence ''RECONNECT'' u) (thenM (rumorRoomJoin u joined (ro_name (cs_room s)))
         (bindM encodeRoomDirectory (\<lambda>dir. thenM (refreshServerDirectory fd) (returnM (?a dir))))))))) m =
       (Inr (?a (serializeList (map snd (knownRooms n)))), n')" "resumed fd ?s r R m n'"
    using resume_run [of m fd ?s r u ?req i j R ?a] live rooms f s(2) ul u(1,3) has net prev ne i j ids Rm by auto
  have "map_of (sessions m) = (map_of (sessions n))(fd \<mapsto> ?s)"
    using s(1) by (auto simp: m_def session_map_entry fun_eq_iff option.map_ident)
  then have "resumed fd s r R n n'" using n'(2) f by (simp add: resumed_def)
  moreover have "handleReconnect p fd (response_to n p) n = (Inr (?a (serializeList (map snd (knownRooms n)))), n')"
    using n'(1) claim_head [OF live row claim s(1)] ul by (simp add: m_def [symmetric] Let_def f(3))
  ultimately show ?thesis using p by (auto simp: processPacket_def response_to_def bindM_run)
qed

text \<open>C13: a session is resumed on another node. When the presence of a stored user can be claimed, a
  RECONNECT on any connection succeeds, whatever the packet carries besides the name (it holds no
  password): the session becomes the authenticated session of the user, in the room asked for when it is
  known and open to the user and in the Lobby otherwise, and no other session changes; the one presence row of
  the user names this node; the user is a member of the room here, no membership row of the user names
  another node any more, and those of other users are unchanged; the reply carries the profile and the rooms.
  The ids of the two events must be new and the texts must fit their length fields.\<close>

theorem reconnect_resumes_session:
  assumes "reach enabled (node_exec A) (booted c) n" and "map_of (sessions n) fd = Some s" and "fd \<noteq> INVALID_SOCKET"
    and "p_type p = RECONNECT" and "find (\<lambda>r. ur_username r = p_sender p) (t_users (n_db n)) = Some r"
    and "claimable n (user_of_row r)" and "ur_username r = u" and "nul_free u" and "u \<noteq> []" and "nul_free (ur_email r)"
    and "gossip_wired n" and "nodeId n \<noteq> []"
    and "i = next_id n ''RECONNECT'' u" and "i \<notin> set (seenEvents n)" and "short i"
    and "j = next_id (n\<lparr>nextPresenceSeq := nextPresenceSeq n + 1\<rparr>) ''ROOM_JOIN'' u" and "j \<notin> set (seenEvents n)" and "short j"
    and "short (ro_name (cs_room s))"
    and "R = resume_room n (s\<lparr>cs_user := user_of_row r, cs_authenticated := True\<rparr>) (if p_room p = [] then ro_name LOBBY else p_room p)"
  shows "\<exists>n'. processPacket A p fd n = (Inr ((reply (response_to n p) SUCCESS (user_serialize (user_of_row r)))
      \<lparr>p_room := serializeList (map snd (knownRooms n))\<rparr>), n') \<and>
    map_of (sessions n') = (map_of (sessions n))(fd \<mapsto> s\<lparr>cs_user := user_of_row r, cs_authenticated := True, cs_room := R\<rparr>) \<and>
    t_online (n_db n') = filter (\<lambda>r. on_username r \<noteq> u) (t_online (n_db n)) @ [\<lparr>on_username = u, on_node = nodeId n\<rparr>] \<and>
    \<lparr>ms_username = u, ms_room = ro_id R, ms_node = nodeId n\<rparr> \<in> set (t_membership (n_db n')) \<and>
    (\<forall>m\<in>set (t_membership (n_db n')). ms_username m = u \<longrightarrow> ms_node m = nodeId n) \<and>
    filter (\<lambda>m. ms_username m \<noteq> u) (t_membership (n_db n')) = filter (\<lambda>m. ms_username m \<noteq> u) (t_membership (n_db n))"
  using reconnect_run [OF assms] assms(7) by (auto simp: resumed_def held_by_def resettled_def)

text \<open>A node that has heard from a peer that the administrator logged in on another node, which is not
  connected.\<close>

definition away_event :: packet where
  "away_event = mkPacket 0 ''node2'' ''*'' GOSSIP_EVENT [] (encode ''LOGIN'' ''e1'' ''admin'' ''node2'' ''0'') 0"

definition away_node :: node where
  "away_node = run_all (node_exec plain_argon2) [Accept 5, PeerPacket 7 True away_event] (booted default_config)"

lemma away_node_reach: "reach enabled (node_exec plain_argon2) (booted default_config) away_node"
  unfolding away_node_def by (rule run_all_reach) (simp add: booted_eq fresh_node_def)

lemma away_node_eq:
  "away_node = (logged ''e1'' away_event one_client)\<lparr>n_db := new_db\<lparr>t_online := [\<lparr>on_username = ''admin'', on_node = ''node2''\<rparr>]\<rparr>\<rparr>"
proof -
  let ?f = "\<lparr>f_type = ''LOGIN'', f_eventId = ''e1'', f_username = ''admin'', f_content = ''node2'', f_field5 = ''0''\<rparr>"
  have dec: "decode (p_message away_event) = Some ?f"
    using decode_encode [of ?f] by (simp add: away_event_def mkPacket_def encodeFields_def fields_short_def)
  have ident: "eventIdFromPacket away_event = ''e1''" using eventId_decode [OF dec] by (simp add: eventIdFromPacket_def)
  let ?l = "logged ''e1'' away_event one_client"
  have "applyLogin ''admin'' ''node2'' ?l = (Inr True, ?l\<lparr>n_db := new_db\<lparr>t_online := [\<lparr>on_username = ''admin'', on_node = ''node2''\<rparr>]\<rparr>\<rparr>)"
    using applyLogin_run [of ?l "''admin''" "''node2''"] by (simp add: one_client_facts new_db_tables)
  moreover have noted: "noteEvent ''e1'' away_event one_client = (Inr True, ?l)"
    by (simp add: noteEvent_def logged_def one_client_facts)
  moreover have "p_type away_event = GOSSIP_EVENT" by (simp add: away_event_def mkPacket_def)
  ultimately have "peerPacket 7 True away_event one_client =
      (Inr (True, False), ?l\<lparr>n_db := new_db\<lparr>t_online := [\<lparr>on_username = ''admin'', on_node = ''node2''\<rparr>]\<rparr>\<rparr>)"
    using dec ident by (simp add: peerPacket_def peerEvent_def Let_def noted bindM_run thenM_run applyEvent_def)
  then show ?thesis by (simp add: away_node_def one_client_def ignoreM_def thenM_run)
qed

lemma away_node_facts:
  "sessions away_node = [(5, mkSession 5 (anonymousUser 0) LOBBY 0)]" "t_users (n_db away_node) = t_users new_db"
  "t_online (n_db away_node) = [\<lparr>on_username = ''admin'', on_node = ''node2''\<rparr>]" "n_cfg away_node = default_config" "gossip_wired away_node"
  "n_now away_node = 0" "nextPresenceSeq away_node = 0" "set (seenEvents away_node) \<subseteq> {''e1''}"
  "knownRooms away_node = [(ro_name LOBBY, LOBBY), (ro_name GENERAL, GENERAL)]" "claimable away_node (user_of_row admin_row)"
proof -
  obtain ws where eq: "one_client = (relocated 5 (ro_name LOBBY) LOBBY ((booted default_config)\<lparr>n_draws := [],
     sessions := [(5, mkSession 5 (anonymousUser 0) LOBBY 0)]\<rparr>))\<lparr>n_sent := ws\<rparr>" using one_client_eq by blast
  have "clientPeers one_client = []" unfolding eq by (simp add: relocated_def booted_eq fresh_node_def)
  then have "clientPeers away_node = []" by (simp add: away_node_eq)
  then show "claimable away_node (user_of_row admin_row)"
    by (simp add: claimable_def presence_owner_def isNodeLive_def away_node_eq one_client_facts mkSession_def user_of_row_def
        admin_row_facts)
qed (use seen_logged [of "''e1''" away_event one_client] in \<open>simp_all add: away_node_eq one_client_facts\<close>)

theorem reconnect_resumes_session_witness:
  "\<exists>m n'. processPacket plain_argon2 (mkPacket 0 ''admin'' [] RECONNECT ''General'' [] 0) 5 away_node = (Inr m, n') \<and>
     p_code m = responseCode SUCCESS \<and> t_online (n_db n') = [\<lparr>on_username = ''admin'', on_node = ''node1''\<rparr>] \<and>
     map_option cs_room (map_of (sessions n') 5) = Some GENERAL"
proof -
  let ?p = "mkPacket 0 ''admin'' [] RECONNECT ''General'' [] 0" and ?s = "mkSession 5 (anonymousUser 0) LOBBY 0"
  have ids: "next_id away_node ''RECONNECT'' ''admin'' = ''node1-RECONNECT-admin-0-1''"
    "next_id (away_node\<lparr>nextPresenceSeq := nextPresenceSeq away_node + 1\<rparr>) ''ROOM_JOIN'' ''admin'' = ''node1-ROOM_JOIN-admin-0-2''"
    by (simp_all add: next_id_def nodeId_def away_node_facts default_config_def nat_to_string.simps int_to_string_def small_digits)
  have row: "find (\<lambda>r. ur_username r = p_sender ?p) (t_users (n_db away_node)) = Some admin_row"
    by (simp add: away_node_facts admin_row_facts mkPacket_def)
  have s: "map_of (sessions away_node) 5 = Some ?s" by (simp add: away_node_facts)
  have room: "GENERAL = resume_room away_node (?s\<lparr>cs_user := user_of_row admin_row, cs_authenticated := True\<rparr>)
      (if p_room ?p = [] then ro_name LOBBY else p_room ?p)"
    by (simp add: resume_room_def away_node_facts mkPacket_def LOBBY_def GENERAL_def mkRoom_def)
  have sh: "short (ro_name (cs_room ?s))" by (simp add: mkSession_def LOBBY_def mkRoom_def)
  have new: "''node1-RECONNECT-admin-0-1'' \<notin> set (seenEvents away_node)" "''node1-ROOM_JOIN-admin-0-2'' \<notin> set (seenEvents away_node)"
    using away_node_facts(8) by auto
  have "nodeId away_node = ''node1''" by (simp add: nodeId_def away_node_facts default_config_def)
  then show ?thesis
    using reconnect_resumes_session [OF away_node_reach s _ _ row away_node_facts(10) admin_row_facts(1) _ _ _ away_node_facts(5) _
        ids(1) [symmetric] new(1) _ ids(2) [symmetric] new(2) _ sh room] away_node_facts(3)
    by (auto simp: INVALID_SOCKET_def mkPacket_def admin_row_facts reply_def)
qed

end
