(* ===== verification/Endpoint_Ring.thy ===== *)
theory Endpoint_Ring
  imports Models Config
begin

text \<open>
  The client's failover list (src/client/endpoint_ring.cpp): merging the server directory with the
  configured servers, the ring with its cursor, and the back-off delays.
\<close>

definition usable :: "ServerPoint \<Rightarrow> bool" where
  "usable point \<longleftrightarrow> sp_host point \<noteq> [] \<and> sp_port point \<noteq> 0"

definition appendUnique :: "ServerPoint list \<Rightarrow> ServerPoint \<Rightarrow> ServerPoint list" where
  "appendUnique out point =
     (if \<not> usable point then out
      else if \<exists>have'\<in>set out. sp_host have' = sp_host point \<and> sp_port have' = sp_port point then out
      else out @ [point])"

definition mergeFailoverList :: "ServerPoint \<Rightarrow> ServerPoint list \<Rightarrow> clientEndpoint list \<Rightarrow> ServerPoint list" where
  "mergeFailoverList current seed directory =
     (let merged = appendUnique [] current;
          merged = foldl (\<lambda>m e. if isLiveClientEndpoint e
                             then appendUnique m \<lparr>sp_host = ce_host e, sp_port = ce_port e\<rparr> else m) merged directory
      in foldl appendUnique merged seed)"

record endpointRing =
  er_points :: "ServerPoint list"
  er_index :: nat

text \<open>The index of the first entry equal to \<open>previous\<close>, \<open>0\<close> when there is none.\<close>

definition index_of :: "ServerPoint \<Rightarrow> ServerPoint list \<Rightarrow> nat" where
  "index_of previous points =
     (let i = length (takeWhile (\<lambda>p. \<not> (sp_host p = sp_host previous \<and> sp_port p = sp_port previous)) points)
      in if i < length points then i else 0)"

definition ring_replace :: "ServerPoint list \<Rightarrow> endpointRing \<Rightarrow> endpointRing" where
  "ring_replace next' r =
     (if er_points r = [] \<or> next' = [] then \<lparr>er_points = next', er_index = 0\<rparr>
      else \<lparr>er_points = next', er_index = index_of (er_points r ! er_index r) next'\<rparr>)"

definition no_point :: ServerPoint where "no_point = \<lparr>sp_host = [], sp_port = 0\<rparr>"

definition ring_current :: "endpointRing \<Rightarrow> ServerPoint" where
  "ring_current r = (if er_points r = [] then no_point else er_points r ! er_index r)"

definition ring_advance :: "endpointRing \<Rightarrow> endpointRing" where
  "ring_advance r =
     (if er_points r = [] then r else r\<lparr>er_index := (er_index r + 1) mod length (er_points r)\<rparr>)"

definition ring_size :: "endpointRing \<Rightarrow> nat" where
  "ring_size r = length (er_points r)"

section \<open>Back-off\<close>

definition kBaseMs :: int where "kBaseMs = 200"
definition kCapMs :: int where "kCapMs = 8000"

fun backoff_steps :: "nat \<Rightarrow> int \<Rightarrow> int" where
  "backoff_steps 0 ceiling = ceiling"
| "backoff_steps (Suc n) ceiling = (if ceiling \<ge> kCapMs div 2 then kCapMs else backoff_steps n (ceiling * 2))"

definition backoffCeilingMs :: "int \<Rightarrow> int" where
  "backoffCeilingMs attempt = backoff_steps (if attempt < 0 then 0 else nat attempt) kBaseMs"

text \<open>\<open>draw\<close> is what the uniform distribution over the interval returns.\<close>

definition fullJitterDelayMs :: "bool \<Rightarrow> int \<Rightarrow> (int \<Rightarrow> int) \<Rightarrow> int" where
  "fullJitterDelayMs test_mode attempt draw = (if test_mode then 0 else draw (backoffCeilingMs attempt))"

section \<open>The list\<close>

definition ring_ok :: "endpointRing \<Rightarrow> bool" where
  "ring_ok r \<longleftrightarrow> (if er_points r = [] then er_index r = 0 else er_index r < length (er_points r)) \<and>
     distinct (er_points r) \<and> (\<forall>p\<in>set (er_points r). usable p)"

lemma appendUnique_eq: "appendUnique out p = (if usable p \<and> p \<notin> set out then out @ [p] else out)"
proof -
  have "h = p" if "sp_host h = sp_host p" "sp_port h = sp_port p" for h using that by (cases h; cases p) simp
  then have "(\<exists>h\<in>set out. sp_host h = sp_host p \<and> sp_port h = sp_port p) \<longleftrightarrow> p \<in> set out" by blast
  then show ?thesis by (simp add: appendUnique_def)
qed

lemma foldl_appendUnique:
  "distinct out \<Longrightarrow> (\<forall>p\<in>set out. usable p) \<Longrightarrow>
   distinct (foldl appendUnique out ps) \<and> set (foldl appendUnique out ps) = set out \<union> {p \<in> set ps. usable p} \<and>
   take (length out) (foldl appendUnique out ps) = out"
proof (induction ps arbitrary: out)
  case (Cons p ps)
  show ?case
  proof (cases "usable p \<and> p \<notin> set out")
    case True
    then have a: "appendUnique out p = out @ [p]" by (simp add: appendUnique_eq)
    have ih: "distinct (foldl appendUnique (out @ [p]) ps)" "set (foldl appendUnique (out @ [p]) ps) = set (out @ [p]) \<union> {p \<in> set ps. usable p}"
      "take (length (out @ [p])) (foldl appendUnique (out @ [p]) ps) = out @ [p]"
      using Cons.IH [of "out @ [p]"] Cons.prems True by auto
    have "take (length out) (take (length (out @ [p])) (foldl appendUnique (out @ [p]) ps)) = out" unfolding ih(3) by simp
    then show ?thesis using ih(1,2) True by (auto simp: a)
  next
    case False
    then have "appendUnique out p = out" by (simp add: appendUnique_eq)
    then show ?thesis using Cons.IH [OF Cons.prems] Cons.prems False by auto
  qed
qed simp

lemma directory_points:
  "foldl (\<lambda>m e. if isLiveClientEndpoint e then appendUnique m \<lparr>sp_host = ce_host e, sp_port = ce_port e\<rparr> else m) out es =
     foldl appendUnique out (map (\<lambda>e. \<lparr>sp_host = ce_host e, sp_port = ce_port e\<rparr>) (filter isLiveClientEndpoint es))"
  by (induction es arbitrary: out) auto

lemma merge_list:
  "mergeFailoverList current seed directory = foldl appendUnique [] (current # map (\<lambda>e. \<lparr>sp_host = ce_host e, sp_port = ce_port e\<rparr>)
     (filter isLiveClientEndpoint directory) @ seed)"
  by (simp add: mergeFailoverList_def directory_points Let_def)

lemma merge_ok:
  "distinct (mergeFailoverList current seed directory)" "\<forall>p\<in>set (mergeFailoverList current seed directory). usable p"
  "{p \<in> set seed. usable p} \<subseteq> set (mergeFailoverList current seed directory)"
  "usable current \<Longrightarrow> mergeFailoverList current seed directory \<noteq> [] \<and> hd (mergeFailoverList current seed directory) = current"
proof -
  let ?ps = "map (\<lambda>e. \<lparr>sp_host = ce_host e, sp_port = ce_port e\<rparr>) (filter isLiveClientEndpoint directory) @ seed"
  have eq: "mergeFailoverList current seed directory = foldl appendUnique (appendUnique [] current) ?ps" by (simp add: merge_list)
  have a: "appendUnique [] current = (if usable current then [current] else [])" by (simp add: appendUnique_eq)
  then have "distinct (appendUnique [] current)" "\<forall>p\<in>set (appendUnique [] current). usable p" by simp_all
  note f = foldl_appendUnique [OF this, of ?ps, folded eq]
  show "distinct (mergeFailoverList current seed directory)" using f by blast
  show "\<forall>p\<in>set (mergeFailoverList current seed directory). usable p"
    "{p \<in> set seed. usable p} \<subseteq> set (mergeFailoverList current seed directory)"
    using f by (auto simp: a)
  show "mergeFailoverList current seed directory \<noteq> [] \<and> hd (mergeFailoverList current seed directory) = current" if "usable current"
    using f that by (cases "mergeFailoverList current seed directory") (auto simp: a)
qed

section \<open>The ring\<close>

lemma index_of_less: "points \<noteq> [] \<Longrightarrow> index_of p points < length points"
  by (simp add: index_of_def Let_def)

lemma ring_ok_replace: "ring_ok (ring_replace (mergeFailoverList c seed dir) r)"
  using merge_ok(1,2) [where current = c and seed = seed and directory = dir]
    index_of_less [of "mergeFailoverList c seed dir" "er_points r ! er_index r"]
  by (simp add: ring_ok_def ring_replace_def)

lemma ring_ok_advance: "ring_ok r \<Longrightarrow> ring_ok (ring_advance r)"
  by (auto simp: ring_ok_def ring_advance_def)

lemma advance_power:
  "ring_ok r \<Longrightarrow> er_points r \<noteq> [] \<Longrightarrow>
   (ring_advance ^^ k) r = r\<lparr>er_index := (er_index r + k) mod length (er_points r)\<rparr>"
  by (induction k) (auto simp: ring_ok_def ring_advance_def mod_Suc_eq)

text \<open>\<open>ring_replace\<close> keeps the cursor on the endpoint in use when it is still listed.\<close>

lemma replace_current:
  assumes "ring_ok r" and "ring_current r \<in> set points" and "er_points r \<noteq> []"
  shows "ring_current (ring_replace points r) = ring_current r"
proof -
  let ?P = "\<lambda>p. \<not> (sp_host p = sp_host (ring_current r) \<and> sp_port p = sp_port (ring_current r))"
  have "length (takeWhile ?P points) < length points"
  proof -
    have "takeWhile ?P points \<noteq> points" using assms(2) takeWhile_eq_all_conv [of ?P points] by blast
    then have "dropWhile ?P points \<noteq> []" by (metis append_Nil2 takeWhile_dropWhile_id)
    moreover have "length points = length (takeWhile ?P points) + length (dropWhile ?P points)"
      by (metis length_append takeWhile_dropWhile_id)
    ultimately show ?thesis by simp
  qed
  moreover from this have "\<not> ?P (points ! length (takeWhile ?P points))" by (rule nth_length_takeWhile)
  moreover have "h = p" if "sp_host h = sp_host p" "sp_port h = sp_port p" for h p :: ServerPoint
    using that by (cases h; cases p) simp
  ultimately have "points ! index_of (ring_current r) points = ring_current r" by (auto simp: index_of_def Let_def)
  then show ?thesis using assms(2,3) by (auto simp: ring_replace_def ring_current_def)
qed

section \<open>Back-off ceiling\<close>

lemma backoff_steps_closed: "0 < c \<Longrightarrow> c \<le> 8000 \<Longrightarrow> backoff_steps n c = min 8000 (c * 2 ^ n)"
proof (induction n arbitrary: c)
  case (Suc n)
  show ?case
  proof (cases "c \<ge> 4000")
    case True
    have "(2 :: int) \<le> 2 ^ Suc n" using power_increasing [of 1 "Suc n" "2 :: int"] by simp
    with True have "4000 * 2 \<le> c * 2 ^ Suc n" by (intro mult_mono) simp_all
    with True show ?thesis by (simp add: kCapMs_def)
  next
    case False
    then show ?thesis using Suc.IH [of "c * 2"] Suc.prems by (simp add: kCapMs_def)
  qed
qed simp

end
