(* ===== verification/Client_Network.thy ===== *)
theory Client_Network
  imports Serializer Endpoint_Ring Health
begin

text \<open>
  The client's connection (src/client/network.cpp) and the data a client keeps
  (include/client/client_state.h, include/client/client.h). What reading the socket yields is part of
  the environment: a list of packets, failed reads, and silences (a wait with a time-out ends at a
  silence, a wait without one goes on). The reader thread is run on demand: it processes an arrival
  when somebody waits for it. The push handler is an argument of the operations that read.
\<close>

datatype arrival = Got packet | ReadFails | Silence

record chatLine =
  cl_author :: string
  cl_text :: string
  cl_timestamp :: u64

record clientState =
  st_user :: "user option"
  st_currentRoom :: "room option"
  st_rooms :: "room list"
  st_serverEndpoints :: "clientEndpoint list"

record network = clientState +
  net_socket :: SOCKET
  net_connected :: bool
  net_winsock :: bool
  net_incoming :: "packet list"
  net_lastInboundMs :: int
  net_handler :: bool
  net_arrivals :: "arrival list"
  net_writesFail :: bool
  net_sent :: "packet list"
  net_closed :: "SOCKET list"
  net_dialled :: "(string \<times> u16) list"
  net_linkDowns :: nat
  clk_ms :: int
  clk_s :: u64
  clk_draw :: nat

record client = network +
  c_cfg :: config
  c_pendingChat :: "chatLine list"
  c_welcome :: bool
  c_ring :: endpointRing
  c_stopRequested :: bool
  c_supervisorRunning :: bool
  c_supervisorJoinable :: bool
  c_reconnecting :: bool
  c_reconnects :: nat
  c_connectedHost :: string
  c_connectedPort :: u16
  c_resumePending :: bool
  c_healthWired :: bool

section \<open>Client state\<close>

definition isLoggedIn :: "client \<Rightarrow> bool" where
  "isLoggedIn c \<longleftrightarrow> (case st_user c of None \<Rightarrow> False | Some u \<Rightarrow> u_type u \<noteq> GUEST)"

definition state_isAdmin :: "client \<Rightarrow> bool" where
  "state_isAdmin c \<longleftrightarrow> (case st_user c of None \<Rightarrow> False | Some u \<Rightarrow> u_type u = ADMIN)"

definition state_clear :: "(client, unit) mon" where
  "state_clear = modifyM (\<lambda>c. c\<lparr>st_user := None, st_currentRoom := None, st_rooms := [], st_serverEndpoints := []\<rparr>)"

section \<open>The link\<close>

definition noteInbound :: "(client, unit) mon" where
  "noteInbound = modifyM (\<lambda>c. c\<lparr>net_lastInboundMs := clk_ms c\<rparr>)"

text \<open>\<open>socket_io::connectTo(host, port)\<close>: it notes whom it dials and returns what the operating system
  gives.\<close>

definition net_dial :: "string \<Rightarrow> u16 \<Rightarrow> SOCKET \<Rightarrow> (client, SOCKET) mon" where
  "net_dial host port socketFd =
     thenM (modifyM (\<lambda>c. c\<lparr>net_dialled := net_dialled c @ [(host, port)]\<rparr>)) (returnM socketFd)"

text \<open>\<open>socketFd\<close> is what the dial gets, \<open>arrivals\<close> what the new socket will deliver.\<close>

definition net_connect :: "string \<Rightarrow> u16 \<Rightarrow> bool \<Rightarrow> SOCKET \<Rightarrow> arrival list \<Rightarrow> (client, bool) mon" where
  "net_connect host port wsa socketFd arrivals =
     bindM (getsM net_connected) (\<lambda>up.
       if up then returnM False
       else if \<not> wsa then returnM False
       else
         thenM (modifyM (\<lambda>c. c\<lparr>net_winsock := True\<rparr>))
        (bindM (net_dial host port socketFd) (\<lambda>connected.
         if connected = INVALID_SOCKET then
           thenM (modifyM (\<lambda>c. c\<lparr>net_winsock := False\<rparr>)) (returnM False)
         else
           thenM (modifyM (\<lambda>c. c\<lparr>net_socket := connected, net_arrivals := arrivals\<rparr>))
          (thenM noteInbound
          (thenM (modifyM (\<lambda>c. c\<lparr>net_connected := True\<rparr>)) (returnM True))))))"

definition net_disconnect :: "(client, unit) mon" where
  "net_disconnect = modifyM (\<lambda>c.
     c\<lparr>net_connected := False,
       net_closed := (if net_socket c \<noteq> INVALID_SOCKET then net_closed c @ [net_socket c] else net_closed c),
       net_socket := INVALID_SOCKET, net_incoming := [], net_winsock := False, net_lastInboundMs := 0\<rparr>)"

definition markLinkDown :: "(client, unit) mon" where
  "markLinkDown = modifyM (\<lambda>c.
     if \<not> net_connected c then c else c\<lparr>net_connected := False, net_linkDowns := net_linkDowns c + 1\<rparr>)"

definition net_sendPacket :: "packet \<Rightarrow> (client, bool) mon" where
  "net_sendPacket packet =
     bindM (getsM (\<lambda>c. c)) (\<lambda>c.
       if \<not> net_connected c \<or> net_socket c = INVALID_SOCKET then returnM False
       else if serialize packet = [] \<or> net_writesFail c then
         thenM (modifyM (\<lambda>c. c\<lparr>net_closed := net_closed c @ [net_socket c], net_socket := INVALID_SOCKET\<rparr>))
        (thenM markLinkDown (returnM False))
       else thenM (modifyM (\<lambda>c. c\<lparr>net_sent := net_sent c @ [packet]\<rparr>)) (returnM True))"

definition heartbeatMissed :: "client \<Rightarrow> bool" where
  "heartbeatMissed c \<longleftrightarrow> net_connected c \<and>
     (net_lastInboundMs c \<le> 0 \<or> clk_ms c - net_lastInboundMs c > HEARTBEAT_TIMEOUT)"

section \<open>The reader thread\<close>

definition isPush :: "packet \<Rightarrow> bool" where
  "isPush packet \<longleftrightarrow> p_code packet = 0 \<and>
     (p_type packet = MESSAGE \<or> p_type packet = ROOM_LIST \<or> p_type packet = SERVER_DIRECTORY)"

text \<open>The rest of one turn of \<open>readerLoop\<close> after \<open>readPacket\<close> returned.\<close>

definition onRead :: "(packet \<Rightarrow> (client, unit) mon) \<Rightarrow> packet option \<Rightarrow> (client, unit) mon" where
  "onRead handler result =
     (case result of
        None \<Rightarrow> markLinkDown
      | Some packet \<Rightarrow>
          thenM noteInbound
            (if p_type packet = HEARTBEAT then
               whenM (p_message packet = ''ping'')
                 (bindM (getsM clk_s) (\<lambda>now.
                   thenM (net_sendPacket (mkPacket now ''client'' ''server'' HEARTBEAT [] ''pong'' 0)) (returnM ())))
             else if isPush packet then
               bindM (getsM net_handler) (\<lambda>wired. whenM wired (handler packet))
             else modifyM (\<lambda>c. c\<lparr>net_incoming := net_incoming c @ [packet]\<rparr>)))"

text \<open>One arrival; the end of the list is a closed connection.\<close>

definition readerTurn :: "(packet \<Rightarrow> (client, unit) mon) \<Rightarrow> (client, unit) mon" where
  "readerTurn handler =
     bindM (getsM net_arrivals) (\<lambda>as. case as of
        [] \<Rightarrow> onRead handler None
      | a # rest \<Rightarrow>
          thenM (modifyM (\<lambda>c. c\<lparr>net_arrivals := rest\<rparr>))
            (case a of Got packet \<Rightarrow> onRead handler (Some packet) | ReadFails \<Rightarrow> onRead handler None
             | Silence \<Rightarrow> returnM ()))"

end
