(* ===== verification/Packet_Builder.thy ===== *)
theory Packet_Builder
  imports Packets Models
begin

text \<open>
  The requests a client sends (src/client/packet_builder.cpp) and the reading of a login reply
  (src/client/packet_handler.cpp). Each builder refuses missing parts with \<open>std::invalid_argument\<close>;
  \<open>now\<close> is the time the packet constructor stamps.
\<close>

section \<open>Requests\<close>

definition buildLogin :: "u64 \<Rightarrow> string \<Rightarrow> string \<Rightarrow> exn + packet" where
  "buildLogin now username password =
     (if username = [] \<or> password = [] then Inl (InvalidArgument ''Username and password are required'')
      else Inr (mkPacket now username [] LOGIN [] password 0))"

definition buildReconnect :: "u64 \<Rightarrow> string \<Rightarrow> string \<Rightarrow> exn + packet" where
  "buildReconnect now username room =
     (if username = [] then Inl (InvalidArgument ''Username is required'')
      else Inr (mkPacket now username [] RECONNECT (if room = [] then ''Lobby'' else room) [] 0))"

definition buildRegister :: "u64 \<Rightarrow> string \<Rightarrow> string \<Rightarrow> string \<Rightarrow> exn + packet" where
  "buildRegister now username password email =
     (if username = [] \<or> password = [] \<or> email = [] then Inl (InvalidArgument ''Username, password and email are required'')
      else Inr (mkPacket now username [] REGISTER email password 0))"

definition buildLogout :: "u64 \<Rightarrow> user \<Rightarrow> exn + packet" where
  "buildLogout now user =
     (if u_username user = [] \<or> u_email user = [] then Inl (InvalidArgument ''Username and email are required'')
      else Inr (mkPacket now (u_username user) [] LOGOUT [] (u_email user) 0))"

definition buildMessage :: "u64 \<Rightarrow> string \<Rightarrow> string \<Rightarrow> exn + packet" where
  "buildMessage now username message =
     (if username = [] \<or> message = [] then Inl (InvalidArgument ''Username and message are required'')
      else Inr (mkPacket now username [] MESSAGE [] message 0))"

definition buildJoinRoom :: "u64 \<Rightarrow> string \<Rightarrow> string \<Rightarrow> exn + packet" where
  "buildJoinRoom now username room =
     (if username = [] \<or> room = [] then Inl (InvalidArgument ''Username and room are required'')
      else Inr (mkPacket now username [] ROOM_JOIN room [] 0))"

definition buildLeaveRoom :: "u64 \<Rightarrow> string \<Rightarrow> string \<Rightarrow> exn + packet" where
  "buildLeaveRoom now username room =
     (if username = [] \<or> room = [] then Inl (InvalidArgument ''Username and room are required'')
      else Inr (mkPacket now username [] ROOM_LEAVE room [] 0))"

definition buildUpdateUser :: "u64 \<Rightarrow> string \<Rightarrow> string \<Rightarrow> string \<Rightarrow> exn + packet" where
  "buildUpdateUser now username password email =
     (if username = [] \<or> email = [] then Inl (InvalidArgument ''Username and email are required'')
      else Inr (mkPacket now username [] UPDATE_USER email password 0))"

definition buildCreateRoom :: "u64 \<Rightarrow> string \<Rightarrow> string \<Rightarrow> string \<Rightarrow> exn + packet" where
  "buildCreateRoom now username room privacy =
     (if username = [] \<or> room = [] then Inl (InvalidArgument ''Username and room are required'')
      else Inr (mkPacket now username [] ROOM_CREATE room privacy 0))"

definition buildInviteToRoom :: "u64 \<Rightarrow> string \<Rightarrow> string \<Rightarrow> string \<Rightarrow> exn + packet" where
  "buildInviteToRoom now username room invitee =
     (if username = [] \<or> room = [] \<or> invitee = [] then Inl (InvalidArgument ''Username, room and invitee are required'')
      else Inr (mkPacket now username [] ROOM_INVITE room invitee 0))"

definition buildKickFromRoom :: "u64 \<Rightarrow> string \<Rightarrow> string \<Rightarrow> string \<Rightarrow> exn + packet" where
  "buildKickFromRoom now username room target =
     (if username = [] \<or> room = [] \<or> target = [] then Inl (InvalidArgument ''Username, room and target are required'')
      else Inr (mkPacket now username [] ROOM_KICK room target 0))"

definition buildDeleteRoom :: "u64 \<Rightarrow> string \<Rightarrow> string \<Rightarrow> exn + packet" where
  "buildDeleteRoom now username room =
     (if username = [] \<or> room = [] then Inl (InvalidArgument ''Username and room are required'')
      else Inr (mkPacket now username [] ROOM_DELETE room [] 0))"

definition buildLoadMessageHistory :: "u64 \<Rightarrow> string \<Rightarrow> string \<Rightarrow> exn + packet" where
  "buildLoadMessageHistory now username room =
     (if username = [] \<or> room = [] then Inl (InvalidArgument ''Username and room are required'')
      else Inr (mkPacket now username [] LOAD_MESSAGE_HISTORY room [] 0))"

section \<open>Replies\<close>

definition client_handleLogin :: "packet \<Rightarrow> user option" where
  "client_handleLogin packet =
     (if p_code packet \<noteq> responseCode SUCCESS then None
      else case user_deserialize (p_message packet) of Inl _ \<Rightarrow> None | Inr u \<Rightarrow> Some u)"

definition handlePacket :: "packet \<Rightarrow> user option" where
  "handlePacket packet =
     (case p_type packet of
        LOGIN \<Rightarrow> client_handleLogin packet
      | REGISTER \<Rightarrow> client_handleLogin packet
      | UPDATE_USER \<Rightarrow> client_handleLogin packet
      | _ \<Rightarrow> None)"

end
