(* ===== verification/Client.thy ===== *)
theory Client
  imports Client_Network Packet_Builder
begin

text \<open>
  The class \<open>Client\<close> (src/client/client.cpp): pushes, requests and their replies. A request method
  returns the error text of the source, the empty string being success. Logging is left out.
\<close>

section \<open>Pushes\<close>

definition lobby_room :: room where "lobby_room = mkRoom 1 ''Lobby'' LOBBY_TYPE PUBLIC"

definition room_named :: "string \<Rightarrow> room" where
  "room_named name = (if name = ''Lobby'' then lobby_room else mkRoom 0 name OTHER PUBLIC)"

definition applyRoomDirectory :: "string \<Rightarrow> (client, unit) mon" where
  "applyRoomDirectory encoded = modifyM (\<lambda>c. c\<lparr>st_rooms := deserializeList encoded\<rparr>)"

definition push_user :: "packet \<Rightarrow> user option" where
  "push_user packet =
     (let userPayload = (if starts_with ''user('' (p_receiver packet) then p_receiver packet else p_sender packet)
      in if starts_with ''user('' userPayload then
           (case user_deserialize userPayload of Inl _ \<Rightarrow> None | Inr u \<Rightarrow> Some u)
         else None)"

definition applyRoomListPush :: "packet \<Rightarrow> (client, unit) mon" where
  "applyRoomListPush packet =
     thenM
       (if p_message packet \<noteq> [] \<and> starts_with ''room('' (p_message packet) then applyRoomDirectory (p_message packet)
        else if p_room packet \<noteq> [] \<and> starts_with ''room('' (p_room packet) then applyRoomDirectory (p_room packet)
        else returnM ())
       (let incomingUser = push_user packet in
        bindM (getsM (\<lambda>c. isLoggedIn c \<and> (case incomingUser of None \<Rightarrow> False | Some u \<Rightarrow> u_type u = GUEST))) (\<lambda>keepSession.
          thenM (whenM (\<not> keepSession \<and> p_room packet \<noteq> [] \<and> \<not> starts_with ''room('' (p_room packet))
                  (modifyM (\<lambda>c. c\<lparr>st_currentRoom := Some (room_named (p_room packet))\<rparr>)))
         (thenM (case incomingUser of
                   None \<Rightarrow> returnM ()
                 | Some u \<Rightarrow> whenM (\<not> keepSession) (modifyM (\<lambda>c. c\<lparr>st_user := Some u\<rparr>)))
            (modifyM (\<lambda>c. if st_rooms c \<noteq> [] then c\<lparr>c_welcome := True\<rparr> else c)))))"

definition rebuildEndpoints :: "(client, unit) mon" where
  "rebuildEndpoints = modifyM (\<lambda>c.
     let seed = \<lparr>sp_host = SERVER_HOST (c_cfg c), sp_port = PORT (c_cfg c)\<rparr> # NEIGHBOR_SERVERS (c_cfg c);
         connected = ring_current (c_ring c)
     in c\<lparr>c_ring := ring_replace (mergeFailoverList connected seed (st_serverEndpoints c)) (c_ring c)\<rparr>)"

definition endpoints_of :: "string \<Rightarrow> clientEndpoint list" where
  "endpoints_of body =
     concat (map (\<lambda>piece. if piece = [] then []
       else case endpoint_deserialize piece of Inl _ \<Rightarrow> [] | Inr e \<Rightarrow> [e]) (split_on (CHR '';'') body))"

definition applyServerDirectoryPush :: "packet \<Rightarrow> (client, unit) mon" where
  "applyServerDirectoryPush packet =
     thenM (modifyM (\<lambda>c. c\<lparr>st_serverEndpoints := endpoints_of (p_message packet)\<rparr>)) rebuildEndpoints"

definition enqueueChatPush :: "packet \<Rightarrow> (client, unit) mon" where
  "enqueueChatPush packet = modifyM (\<lambda>c.
     if (case st_currentRoom c of None \<Rightarrow> False | Some r \<Rightarrow> p_room packet \<noteq> [] \<and> p_room packet \<noteq> ro_name r) then c
     else c\<lparr>c_pendingChat := c_pendingChat c @
       [\<lparr>cl_author = p_sender packet, cl_text = p_message packet,
         cl_timestamp = (if p_timestamp packet \<noteq> 0 then p_timestamp packet else clk_s c)\<rparr>]\<rparr>)"

text \<open>The handler \<open>start\<close> installs.\<close>

definition onPush :: "packet \<Rightarrow> (client, unit) mon" where
  "onPush packet =
     (if p_type packet = ROOM_LIST then applyRoomListPush packet
      else if p_type packet = SERVER_DIRECTORY then applyServerDirectoryPush packet
      else if p_type packet = MESSAGE then enqueueChatPush packet
      else returnM ())"

definition takePendingChatMessages :: "(client, chatLine list) mon" where
  "takePendingChatMessages =
     bindM (getsM c_pendingChat) (\<lambda>out. thenM (modifyM (\<lambda>c. c\<lparr>c_pendingChat := []\<rparr>)) (returnM out))"

definition clearPendingChatMessages :: "(client, unit) mon" where
  "clearPendingChatMessages = modifyM (\<lambda>c. c\<lparr>c_pendingChat := []\<rparr>)"

section \<open>Waiting for replies\<close>

text \<open>A push touches neither the queue nor the socket.\<close>

definition link_of :: "client \<Rightarrow> SOCKET \<times> bool \<times> bool \<times> arrival list \<times> packet list \<times> packet list" where
  "link_of c = (net_socket c, net_connected c, net_handler c, net_arrivals c, net_incoming c, net_sent c)"

lemma safe_onPush: "safe (\<lambda>c. link_of c = L) (onPush p)"
  unfolding onPush_def applyRoomListPush_def applyRoomDirectory_def applyServerDirectoryPush_def rebuildEndpoints_def
    enqueueChatPush_def Let_def
  by (intro safe_intros safe_modifyM) (simp_all add: link_of_def split: option.split)

lemma onPush_run: "\<exists>c'. onPush p c = (Inr (), c') \<and> link_of c' = link_of c"
  using safe_onPush [of "link_of c" p] by (auto simp: safe_def hoare_def)

text \<open>How much a wait can still consume.\<close>

definition budget :: "client \<Rightarrow> nat" where
  "budget c = (if net_connected c then 1 else 0) + 2 * length (net_arrivals c) + length (net_incoming c)"

lemma sendPacket_link:
  "\<exists>ok c'. net_sendPacket p c = (Inr ok, c') \<and> net_arrivals c' = net_arrivals c \<and> net_incoming c' = net_incoming c \<and>
     (net_connected c' \<longrightarrow> net_connected c)"
  by (auto simp: net_sendPacket_def markLinkDown_def bindM_run thenM_run)

lemma onRead_budget: "\<exists>c'. onRead onPush (Some p) c = (Inr (), c') \<and> budget c' \<le> budget c + 1 \<and> net_arrivals c' = net_arrivals c"
proof -
  let ?c = "c\<lparr>net_lastInboundMs := clk_ms c\<rparr>"
  obtain c1 where c1: "onPush p ?c = (Inr (), c1)" "link_of c1 = link_of ?c" using onPush_run by blast
  obtain ok c2 where c2: "net_sendPacket (mkPacket (clk_s c) ''client'' ''server'' HEARTBEAT [] ''pong'' 0) ?c = (Inr ok, c2)"
    "net_arrivals c2 = net_arrivals ?c" "net_incoming c2 = net_incoming ?c" "net_connected c2 \<longrightarrow> net_connected ?c"
    using sendPacket_link by blast
  show ?thesis
    using c1 c2 by (auto simp: onRead_def noteInbound_def thenM_run bindM_run whenM_def budget_def link_of_def)
qed

lemma readerTurn_budget:
  assumes "net_connected c"
  shows "\<exists>c'. readerTurn onPush c = (Inr (), c') \<and> budget c' < budget c"
proof (cases "net_arrivals c")
  case Nil
  then show ?thesis using assms by (simp add: readerTurn_def bindM_run onRead_def markLinkDown_def budget_def)
next
  case (Cons a rest)
  let ?c = "c\<lparr>net_arrivals := rest\<rparr>"
  have b: "budget ?c + 2 = budget c" using Cons by (simp add: budget_def)
  show ?thesis
  proof (cases a)
    case (Got p)
    obtain c' where "onRead onPush (Some p) ?c = (Inr (), c')" "budget c' \<le> budget ?c + 1" using onRead_budget by blast
    then show ?thesis using Cons Got b by (auto simp: readerTurn_def bindM_run thenM_run)
  qed (use Cons b assms in \<open>auto simp: readerTurn_def bindM_run thenM_run onRead_def markLinkDown_def budget_def\<close>)
qed

lemma readerTurn_less: "net_connected c \<Longrightarrow> budget (snd (readerTurn onPush c)) < budget c"
  using readerTurn_budget [of c] by auto

lemma budget_arrivals: "net_arrivals c = a # rest \<Longrightarrow> budget (c\<lparr>net_arrivals := rest\<rparr>) < budget c"
  by (simp add: budget_def)

text \<open>\<open>receivePacket\<close>, and \<open>receivePacketFor\<close> when \<open>timed\<close>. A connected client always has a socket, so the
  second test never ends a wait the source would continue. The untimed wait of the source ends with a
  packet or with the link; the list of arrivals covers the life of the link, so its end is the end of
  the link, by the peer or by the supervisor, which disconnects a link that stays silent.\<close>

function receivePacket :: "bool \<Rightarrow> (client, packet option) mon" where
  "receivePacket timed c =
     (case net_incoming c of
        p # rest \<Rightarrow> (Inr (Some p), c\<lparr>net_incoming := rest\<rparr>)
      | [] \<Rightarrow>
          if \<not> net_connected c \<or> net_socket c = INVALID_SOCKET then (Inr None, c)
          else case net_arrivals c of
            Silence # rest \<Rightarrow>
              if timed then (Inr None, c\<lparr>net_arrivals := rest\<rparr>) else receivePacket timed (c\<lparr>net_arrivals := rest\<rparr>)
          | _ \<Rightarrow> receivePacket timed (snd (readerTurn onPush c)))"
  by pat_completeness auto
termination
  by (relation "measure (\<lambda>(timed, c). budget c)") (auto intro: readerTurn_less budget_arrivals)

declare receivePacket.simps [simp del]

lemma receivePacket_budget: "receivePacket timed c = (r, c') \<Longrightarrow> r = Inr (Some p) \<Longrightarrow> budget c' < budget c"
proof (induction timed c rule: receivePacket.induct)
  case (1 timed c)
  show ?case
  proof (cases "net_incoming c")
    case (Cons q rest)
    then show ?thesis using "1.prems" by (subst (asm) receivePacket.simps) (auto simp: budget_def)
  next
    case Nil
    note step = "1.IH" [OF Nil]
    have on: "net_connected c" "net_socket c \<noteq> INVALID_SOCKET"
      using "1.prems" Nil by (subst (asm) receivePacket.simps, auto split: if_splits)+
    show ?thesis
    proof (cases "\<exists>rest. net_arrivals c = Silence # rest")
      case True
      then obtain rest where rest: "net_arrivals c = Silence # rest" by blast
      then have "\<not> timed" "receivePacket timed (c\<lparr>net_arrivals := rest\<rparr>) = (r, c')"
        using "1.prems" Nil on by (subst (asm) receivePacket.simps, auto split: if_splits)+
      then have "budget c' < budget (c\<lparr>net_arrivals := rest\<rparr>)" using step on "1.prems"(2) rest by auto
      then show ?thesis using budget_arrivals [OF rest] by simp
    next
      case False
      then have "receivePacket timed (snd (readerTurn onPush c)) = (r, c')"
        using "1.prems" Nil on by (subst (asm) receivePacket.simps) (auto split: list.splits arrival.splits)
      then have "budget c' < budget (snd (readerTurn onPush c))"
        using step on "1.prems"(2) False by (cases "net_arrivals c"; cases "hd (net_arrivals c)") auto
      then show ?thesis using readerTurn_less [OF on(1)] by simp
    qed
  qed
qed

text \<open>\<open>waitFor\<close>: replies of another type are dropped.\<close>

function waitFor :: "bool \<Rightarrow> packetType \<Rightarrow> (client, packet option) mon" where
  "waitFor timed expected c =
     (case receivePacket timed c of
        (Inr (Some response), c') \<Rightarrow>
          if p_type response = expected then (Inr (Some response), c') else waitFor timed expected c'
      | (Inr None, c') \<Rightarrow> (Inr None, c')
      | (Inl e, c') \<Rightarrow> (Inl e, c'))"
  by pat_completeness auto
termination
  by (relation "measure (\<lambda>(timed, expected, c). budget c)") (auto dest: receivePacket_budget [OF sym])

declare waitFor.simps [simp del]

section \<open>Requests\<close>

definition client_isAlive :: "client \<Rightarrow> bool" where
  "client_isAlive c \<longleftrightarrow> net_connected c \<and> \<not> heartbeatMissed c"

text \<open>What every request method does between its guards and the reading of the reply: build the packet,
  send it, wait for the reply of the same type. \<open>Inl\<close> is the error text.\<close>

definition request :: "(u64 \<Rightarrow> exn + packet) \<Rightarrow> packetType \<Rightarrow> string \<Rightarrow> string \<Rightarrow> (client, string + packet) mon" where
  "request build expected sendError lostError =
     bindM (getsM clk_s) (\<lambda>now.
     case build now of
       Inl e \<Rightarrow> returnM (Inl (what e))
     | Inr packet \<Rightarrow>
         bindM (net_sendPacket packet) (\<lambda>sent.
         if \<not> sent then returnM (Inl sendError)
         else bindM (waitFor False expected) (\<lambda>response.
           case response of None \<Rightarrow> returnM (Inl lostError) | Some r \<Rightarrow> returnM (Inr r))))"

text \<open>The end of a method: an error text, a refusal with the server's text or \<open>fallback\<close>, or the
  effect of success.\<close>

definition conclude :: "string \<Rightarrow> (packet \<Rightarrow> (client, unit) mon) \<Rightarrow> string + packet \<Rightarrow> (client, string) mon" where
  "conclude fallback success outcome =
     (case outcome of
        Inl error \<Rightarrow> returnM error
      | Inr response \<Rightarrow>
          if p_code response \<noteq> responseCode SUCCESS then
            returnM (if p_message response = [] then fallback else p_message response)
          else thenM (success response) (returnM []))"

definition notConnected :: string where "notConnected = ''Not connected to the server.''"

definition noIdentity :: string where
  "noIdentity = ''No user identity yet '' @ [CHR 0xE2, CHR 0x80, CHR 0x94] @ '' wait for the server welcome.''"

definition client_username :: "client \<Rightarrow> string" where
  "client_username c = (case st_user c of None \<Rightarrow> [] | Some u \<Rightarrow> u_username u)"

definition client_roomName :: "client \<Rightarrow> string" where
  "client_roomName c = (case st_currentRoom c of None \<Rightarrow> [] | Some r \<Rightarrow> ro_name r)"

definition setCurrentRoom :: "room \<Rightarrow> (client, unit) mon" where
  "setCurrentRoom r = modifyM (\<lambda>c. c\<lparr>st_currentRoom := Some r\<rparr>)"

definition client_joinRoom :: "string \<Rightarrow> (client, string) mon" where
  "client_joinRoom roomName =
     bindM (getsM (\<lambda>c. c)) (\<lambda>c.
     if \<not> client_isAlive c then returnM notConnected
     else if st_user c = None then returnM noIdentity
     else if roomName = [] then returnM ''Room name cannot be empty.''
     else
       bindM (request (\<lambda>now. buildJoinRoom now (client_username c) roomName) ROOM_JOIN
                ''Failed to send join request.'' ''Connection lost while joining.'')
         (conclude ''Join failed.'' (\<lambda>r. setCurrentRoom (room_named (p_room r)))))"

definition client_leaveRoom :: "(client, string) mon" where
  "client_leaveRoom =
     bindM (getsM (\<lambda>c. c)) (\<lambda>c.
     if \<not> client_isAlive c then returnM notConnected
     else if st_user c = None then returnM noIdentity
     else case st_currentRoom c of
       None \<Rightarrow> returnM ''Not in a room.''
     | Some room \<Rightarrow>
         if ro_type room = LOBBY_TYPE \<or> ro_name room = ''Lobby'' then returnM ''Cannot leave the Lobby.''
         else
           bindM (request (\<lambda>now. buildLeaveRoom now (client_username c) (ro_name room)) ROOM_LEAVE
                    ''Failed to send leave request.'' ''Connection lost while leaving.'')
             (conclude ''Leave failed.'' (\<lambda>_. setCurrentRoom lobby_room)))"

text \<open>The replies that carry a user: accepted by the packet handler, refused, or unreadable.\<close>

definition concludeUser :: "string \<Rightarrow> string \<Rightarrow> (user \<Rightarrow> packet \<Rightarrow> (client, unit) mon) \<Rightarrow> string + packet \<Rightarrow> (client, string) mon" where
  "concludeUser fallback invalid success outcome =
     (case outcome of
        Inl error \<Rightarrow> returnM error
      | Inr response \<Rightarrow>
          (case handlePacket response of
             Some user \<Rightarrow> thenM (success user response) (returnM [])
           | None \<Rightarrow>
               if p_code response \<noteq> responseCode SUCCESS then
                 returnM (if p_message response = [] then fallback else p_message response)
               else returnM invalid))"

definition enterAs :: "user \<Rightarrow> packet \<Rightarrow> (client, unit) mon" where
  "enterAs user response =
     thenM (modifyM (\<lambda>c. c\<lparr>st_user := Some user, st_currentRoom := Some lobby_room\<rparr>))
       (applyRoomDirectory (p_room response))"

definition client_login :: "string \<Rightarrow> string \<Rightarrow> (client, string) mon" where
  "client_login username password =
     bindM (getsM (\<lambda>c. c)) (\<lambda>c.
     if \<not> client_isAlive c then returnM notConnected
     else if isLoggedIn c then returnM ''Already logged in.''
     else
       bindM (request (\<lambda>now. buildLogin now username password) LOGIN
                ''Failed to send login request.'' ''Connection lost while logging in.'')
         (concludeUser ''Login failed.'' ''Login failed: invalid user payload'' enterAs))"

definition client_signUp :: "string \<Rightarrow> string \<Rightarrow> string \<Rightarrow> (client, string) mon" where
  "client_signUp username password email =
     bindM (getsM (\<lambda>c. c)) (\<lambda>c.
     if \<not> client_isAlive c then returnM notConnected
     else if isLoggedIn c then returnM ''Already logged in.''
     else
       bindM (request (\<lambda>now. buildRegister now username password email) REGISTER
                ''Failed to send sign-up request.'' ''Connection lost while signing up.'')
         (concludeUser ''Sign up failed.'' ''Sign up failed: invalid user payload'' enterAs))"

definition client_logout :: "(client, string) mon" where
  "client_logout =
     bindM (getsM (\<lambda>c. c)) (\<lambda>c.
     if \<not> client_isAlive c then returnM notConnected
     else case st_user c of
       None \<Rightarrow> returnM ''Not logged in.''
     | Some user \<Rightarrow>
         if \<not> isLoggedIn c then returnM ''Not logged in.''
         else
           bindM (request (\<lambda>now. buildLogout now user) LOGOUT
                    ''Failed to send logout request.'' ''Connection lost while logging out.'')
             (conclude ''Logout failed.'' (\<lambda>_.
               bindM (getsM st_rooms) (\<lambda>rooms.
               thenM state_clear
              (thenM (modifyM (\<lambda>c. c\<lparr>st_rooms := rooms, st_currentRoom := Some lobby_room,
                                     st_user := Some (anonymousUser (clk_draw c)), c_resumePending := False\<rparr>))
                clearPendingChatMessages)))))"

definition client_createRoom :: "string \<Rightarrow> string \<Rightarrow> (client, string) mon" where
  "client_createRoom roomName privacy =
     bindM (getsM (\<lambda>c. c)) (\<lambda>c.
     if \<not> client_isAlive c then returnM notConnected
     else if \<not> isLoggedIn c \<or> st_user c = None then returnM ''Log in to create a room.''
     else
       bindM (request (\<lambda>now. buildCreateRoom now (client_username c) roomName privacy) ROOM_CREATE
                ''Failed to send create-room request.'' ''Connection lost while creating room.'')
         (conclude ''Create room failed.'' (\<lambda>r. modifyM (\<lambda>c.
            if p_room r \<noteq> [] \<and> \<not> (\<exists>room\<in>set (st_rooms c). ro_name room = p_room r)
            then c\<lparr>st_rooms := st_rooms c @ [mkRoom 0 (p_room r) OTHER PUBLIC]\<rparr> else c))))"

text \<open>The room a request is about: the one named, or the current one.\<close>

definition target_room :: "string \<Rightarrow> client \<Rightarrow> string" where
  "target_room roomName c = (if roomName = [] \<and> st_currentRoom c \<noteq> None then client_roomName c else roomName)"

definition client_inviteToRoom :: "string \<Rightarrow> string \<Rightarrow> (client, string) mon" where
  "client_inviteToRoom roomName inviteeUsername =
     bindM (getsM (\<lambda>c. c)) (\<lambda>c.
     if \<not> client_isAlive c then returnM notConnected
     else if \<not> isLoggedIn c \<or> st_user c = None then returnM ''Log in to invite users.''
     else
       bindM (request (\<lambda>now. buildInviteToRoom now (client_username c) (target_room roomName c) inviteeUsername) ROOM_INVITE
                ''Failed to send invite request.'' ''Connection lost while inviting.'')
         (conclude ''Invite failed.'' (\<lambda>_. returnM ())))"

definition client_kickFromRoom :: "string \<Rightarrow> string \<Rightarrow> (client, string) mon" where
  "client_kickFromRoom roomName targetUsername =
     bindM (getsM (\<lambda>c. c)) (\<lambda>c.
     if \<not> client_isAlive c then returnM notConnected
     else if \<not> isLoggedIn c \<or> st_user c = None then returnM ''Log in to kick users.''
     else
       bindM (request (\<lambda>now. buildKickFromRoom now (client_username c) (target_room roomName c) targetUsername) ROOM_KICK
                ''Failed to send kick request.'' ''Connection lost while kicking.'')
         (conclude ''Kick failed.'' (\<lambda>_. returnM ())))"

definition client_deleteRoom :: "string \<Rightarrow> (client, string) mon" where
  "client_deleteRoom roomName =
     bindM (getsM (\<lambda>c. c)) (\<lambda>c.
     if \<not> client_isAlive c then returnM notConnected
     else if \<not> state_isAdmin c \<or> st_user c = None then returnM ''Admin required to delete a room.''
     else
       let room = target_room roomName c in
       bindM (request (\<lambda>now. buildDeleteRoom now (client_username c) room) ROOM_DELETE
                ''Failed to send delete-room request.'' ''Connection lost while deleting room.'')
         (conclude ''Delete room failed.'' (\<lambda>_. modifyM (\<lambda>c.
            if st_currentRoom c \<noteq> None \<and> client_roomName c = room then c\<lparr>st_currentRoom := Some lobby_room\<rparr> else c))))"

definition client_updateProfile :: "string \<Rightarrow> string \<Rightarrow> string \<Rightarrow> (client, string) mon" where
  "client_updateProfile username newPassword email =
     bindM (getsM (\<lambda>c. c)) (\<lambda>c.
     if \<not> client_isAlive c then returnM notConnected
     else if \<not> isLoggedIn c \<or> st_user c = None then returnM ''Log in to update your profile.''
     else
       bindM (request (\<lambda>now. buildUpdateUser now username newPassword email) UPDATE_USER
                ''Failed to send update request.'' ''Connection lost while updating profile.'')
         (concludeUser ''Update profile failed.'' ''Update profile failed: invalid user payload''
           (\<lambda>user _. modifyM (\<lambda>c. c\<lparr>st_user := Some user\<rparr>))))"

definition client_sendMessage :: "string \<Rightarrow> (client, string) mon" where
  "client_sendMessage text =
     bindM (getsM (\<lambda>c. c)) (\<lambda>c.
     if \<not> client_isAlive c then returnM notConnected
     else if st_user c = None then returnM noIdentity
     else if text = [] then returnM ''Message cannot be empty.''
     else
       bindM (request (\<lambda>now. buildMessage now (client_username c) text) MESSAGE
                ''Failed to send message.'' ''Connection lost while sending.'')
         (conclude ''Send failed.'' (\<lambda>_. returnM ())))"

section \<open>History\<close>

definition parse_line :: "string \<Rightarrow> chatLine" where
  "parse_line line =
     (case (if hd line = CHR ''['' then find_char (CHR '']'') line else None) of
        None \<Rightarrow> \<lparr>cl_author = ''system'', cl_text = line, cl_timestamp = 0\<rparr>
      | Some closeUser \<Rightarrow>
          let author = substr line 1 (closeUser - 1); rest = drop (closeUser + 1) line;
              (ts, rest) =
                (case (if rest \<noteq> [] \<and> hd rest = CHR ''['' then find_char (CHR '']'') rest else None) of
                   None \<Rightarrow> (0, rest)
                 | Some closeTs \<Rightarrow>
                     (case std_stoull (substr rest 1 (closeTs - 1)) of None \<Rightarrow> 0 | Some t \<Rightarrow> of_nat t, drop (closeTs + 1) rest));
              rest = (if rest \<noteq> [] \<and> hd rest = CHR '' '' then tl rest else rest)
          in \<lparr>cl_author = author, cl_text = rest, cl_timestamp = ts\<rparr>)"

text \<open>Lines end at a newline or at the end; empty lines are skipped.\<close>

definition parseHistoryPayload :: "string \<Rightarrow> chatLine list" where
  "parseHistoryPayload payload = map parse_line (filter (\<lambda>l. l \<noteq> []) (getlines (CHR 0x0A) payload))"

definition client_loadMessageHistory :: "(client, string \<times> chatLine list) mon" where
  "client_loadMessageHistory =
     bindM (getsM (\<lambda>c. c)) (\<lambda>c.
     if \<not> client_isAlive c then returnM (notConnected, [])
     else if st_user c = None \<or> st_currentRoom c = None then returnM (''No room to load history for.'', [])
     else
       bindM (request (\<lambda>now. buildLoadMessageHistory now (client_username c) (client_roomName c)) LOAD_MESSAGE_HISTORY
                ''Failed to request history.'' ''Connection lost while loading history.'') (\<lambda>outcome.
         bindM (conclude ''Load history failed.'' (\<lambda>_. returnM ()) outcome) (\<lambda>error.
           returnM (error, case outcome of
              Inr r \<Rightarrow> if p_code r = responseCode SUCCESS then parseHistoryPayload (p_message r) else []
            | Inl _ \<Rightarrow> []))))"

end
