(* ===== verification/Supervisor.thy ===== *)
theory Supervisor
  imports Client
begin

text \<open>
  The failover thread of the client (\<open>supervisorLoop\<close> and its helpers in src/client/client.cpp), and
  \<open>start\<close> and \<open>stop\<close>. A round of the loop takes what the operating system and the peer do in it from
  the record \<open>dial\<close>; the end of the list of rounds is a request to stop.
\<close>

text \<open>One second of watching a link: the reader processes \<open>t_reads\<close> arrivals at the time \<open>t_read_ms\<close>, the
  second ends at \<open>t_ms\<close>; \<open>t_sleep\<close>: no stop was requested meanwhile.\<close>

record tick =
  t_reads :: nat
  t_read_ms :: int
  t_ms :: int
  t_sleep :: bool

text \<open>\<open>d_socket\<close>: what connecting returns; \<open>d_arrivals\<close>: what the new link delivers until it ends;
  \<open>d_watch\<close>: the seconds the link is watched; \<open>d_sleep\<close>: the other waits of the round end by time;
  \<open>d_jitter\<close>: the draw of the delay.\<close>

record dial =
  d_wsa :: bool
  d_socket :: SOCKET
  d_arrivals :: "arrival list"
  d_watch :: "tick list"
  d_sleep :: bool
  d_jitter :: "int \<Rightarrow> int"

section \<open>Helpers\<close>

definition rememberConnected :: "ServerPoint \<Rightarrow> (client, unit) mon" where
  "rememberConnected endpoint = modifyM (\<lambda>c. c\<lparr>c_connectedHost := sp_host endpoint, c_connectedPort := sp_port endpoint\<rparr>)"

definition forgetConnected :: "(client, unit) mon" where
  "forgetConnected = modifyM (\<lambda>c. c\<lparr>c_connectedHost := [], c_connectedPort := 0\<rparr>)"

definition connectedEndpoint :: "client \<Rightarrow> string" where
  "connectedEndpoint c =
     (if c_connectedHost c = [] \<or> c_connectedPort c = 0 then []
      else c_connectedHost c @ '':'' @ nat_to_string (unat (c_connectedPort c)))"

text \<open>\<open>sleepFor\<close> ends early exactly when stop was requested.\<close>

definition sleepFor :: "bool \<Rightarrow> (client, bool) mon" where
  "sleepFor undisturbed =
     thenM (modifyM (\<lambda>c. if undisturbed then c else c\<lparr>c_stopRequested := True\<rparr>))
       (getsM (\<lambda>c. \<not> c_stopRequested c))"

text \<open>The attempt counter is passed and returned.\<close>

definition failAndWait :: "dial \<Rightarrow> int \<Rightarrow> (client, bool \<times> int) mon" where
  "failAndWait d attempt =
     thenM (modifyM (\<lambda>c. c\<lparr>c_ring := ring_advance (c_ring c)\<rparr>))
    (bindM (getsM (\<lambda>c. c)) (\<lambda>c.
     let attempt = attempt + 1;
         laps = (if TEST_MODE (c_cfg c) then 1 else 4);
         limit = max 1 (int (ring_size (c_ring c))) * laps
     in if attempt \<ge> limit \<or> c_stopRequested c then returnM (False, attempt)
        else bindM (sleepFor (d_sleep d)) (\<lambda>ok. returnM (ok, attempt))))"

text \<open>The delay of \<open>failAndWait\<close>, in milliseconds.\<close>

definition failDelay :: "dial \<Rightarrow> int \<Rightarrow> client \<Rightarrow> int" where
  "failDelay d attempt c = fullJitterDelayMs (TEST_MODE (c_cfg c)) (attempt - 1) (d_jitter d)"

definition clientHealthAdapter :: "(client, healthReport) mon" where
  "clientHealthAdapter =
     getsM (\<lambda>c. if client_isAlive c then \<lparr>hr_name = ''client'', hr_status = Up, hr_detail = ''connected''\<rparr>
                else \<lparr>hr_name = ''client'', hr_status = Down, hr_detail = ''not connected''\<rparr>)"

definition linkHealthy :: "(client, bool) mon" where
  "linkHealthy =
     bindM (getsM c_healthWired) (\<lambda>wired.
     bindM (monitor_check (if wired then [clientHealthAdapter] else [])) (\<lambda>r. returnM (hr_status r = Up)))"

definition markReconnecting :: "(client, unit) mon" where
  "markReconnecting =
     bindM (getsM c_reconnecting) (\<lambda>already.
       if already then returnM ()
       else
         thenM (modifyM (\<lambda>c. c\<lparr>c_reconnecting := True, c_reconnects := c_reconnects c + 1,
                               c_resumePending := (c_resumePending c \<or> isLoggedIn c)\<rparr>))
           forgetConnected)"

section \<open>Resuming the session\<close>

fun resumeAttempts :: "bool \<Rightarrow> packet \<Rightarrow> nat \<Rightarrow> bool \<Rightarrow> (client, unit) mon" where
  "resumeAttempts undisturbed packet 0 again = returnM ()"
| "resumeAttempts undisturbed packet (Suc left) again =
     bindM (getsM c_stopRequested) (\<lambda>stop.
     if stop then returnM ()
     else
       bindM (if again then sleepFor undisturbed else returnM True) (\<lambda>slept.
       bindM (getsM (\<lambda>c. again \<and> (\<not> isLoggedIn c \<or> \<not> net_connected c))) (\<lambda>gone.
       if \<not> slept \<or> gone then returnM ()
       else
         bindM (net_sendPacket packet) (\<lambda>sent.
         if \<not> sent then returnM ()
         else
           bindM (waitFor True RECONNECT) (\<lambda>response.
           case response of
             Some r \<Rightarrow>
               if p_code r = responseCode SUCCESS then
                 whenM (p_room r \<noteq> []) (applyRoomDirectory (p_room r))
               else resumeAttempts undisturbed packet left True
           | None \<Rightarrow> resumeAttempts undisturbed packet left True)))))"

definition kAttempts :: nat where "kAttempts = 5"

definition resumeSession :: "bool \<Rightarrow> (client, unit) mon" where
  "resumeSession undisturbed =
     thenM (modifyM (\<lambda>c. c\<lparr>c_resumePending := False\<rparr>))
    (bindM (getsM (\<lambda>c. c)) (\<lambda>c.
       if \<not> isLoggedIn c \<or> st_user c = None then returnM ()
       else case buildReconnect (clk_s c) (client_username c)
                   (case st_currentRoom c of None \<Rightarrow> ''Lobby'' | Some r \<Rightarrow> ro_name r) of
         Inl _ \<Rightarrow> returnM ()
       | Inr packet \<Rightarrow> resumeAttempts undisturbed packet kAttempts False))"

section \<open>The supervisor\<close>

text \<open>Turns of \<open>readerLoop\<close>.\<close>

fun readerTurns :: "nat \<Rightarrow> (client, unit) mon" where
  "readerTurns 0 = returnM ()"
| "readerTurns (Suc n) =
     bindM (getsM (\<lambda>c. net_connected c \<and> net_socket c \<noteq> INVALID_SOCKET)) (\<lambda>up.
       if \<not> up then returnM () else thenM (readerTurn onPush) (readerTurns n))"

definition setClock :: "int \<Rightarrow> (client, unit) mon" where
  "setClock ms = modifyM (\<lambda>c. c\<lparr>clk_ms := ms\<rparr>)"

text \<open>The inner loop of \<open>supervisorLoop\<close>: once a second until the link is unhealthy or stop is requested.\<close>

fun watchLink :: "tick list \<Rightarrow> (client, unit) mon" where
  "watchLink [] = modifyM (\<lambda>c. c\<lparr>c_stopRequested := True\<rparr>)"
| "watchLink (t # ts) =
     bindM (getsM c_stopRequested) (\<lambda>stop.
     if stop then returnM ()
     else
       bindM linkHealthy (\<lambda>healthy.
       if \<not> healthy then returnM ()
       else
         thenM (setClock (t_read_ms t))
        (thenM (readerTurns (t_reads t))
        (thenM (setClock (t_ms t))
        (bindM (sleepFor (t_sleep t)) (\<lambda>slept. if slept then watchLink ts else returnM ()))))))"

definition supervisorExit :: "(client, unit) mon" where
  "supervisorExit =
     thenM (modifyM (\<lambda>c. c\<lparr>c_reconnecting := False\<rparr>))
    (thenM forgetConnected
      (modifyM (\<lambda>c. c\<lparr>c_supervisorRunning := False\<rparr>)))"

fun supervisorLoop :: "dial list \<Rightarrow> int \<Rightarrow> bool \<Rightarrow> (client, unit) mon" where
  "supervisorLoop [] attempt hadLink =
     thenM (modifyM (\<lambda>c. c\<lparr>c_stopRequested := True\<rparr>)) supervisorExit"
| "supervisorLoop (d # ds) attempt hadLink =
     bindM (getsM (\<lambda>c. c)) (\<lambda>c.
     let endpoint = ring_current (c_ring c) in
     if c_stopRequested c \<or> sp_port endpoint = 0 then supervisorExit
     else
       bindM (net_connect (sp_host endpoint) (sp_port endpoint) (d_wsa d) (d_socket d) (d_arrivals d)) (\<lambda>up.
       if \<not> up then
         thenM (whenM hadLink markReconnecting)
        (bindM (failAndWait d attempt) (\<lambda>(more, attempt').
           if more then supervisorLoop ds attempt' hadLink else supervisorExit))
       else
         thenM (rememberConnected endpoint)
        (thenM (modifyM (\<lambda>c. c\<lparr>c_reconnecting := False\<rparr>))
        (bindM (getsM c_resumePending) (\<lambda>pending.
         thenM (whenM pending (resumeSession (d_sleep d)))
        (thenM (watchLink (d_watch d))
        (bindM (getsM c_stopRequested) (\<lambda>stop.
         if stop then supervisorExit
         else
           thenM markReconnecting
          (thenM net_disconnect
          (bindM (failAndWait d 0) (\<lambda>(more, attempt').
             if more then supervisorLoop ds attempt' True else supervisorExit)))))))))))"

section \<open>Start and stop\<close>

text \<open>\<open>start\<close> up to the point where the supervisor runs.\<close>

definition client_prepare :: "(client, bool) mon" where
  "client_prepare =
     bindM (getsM (\<lambda>c. c_supervisorRunning c \<or> c_supervisorJoinable c)) (\<lambda>running.
     if running then returnM False
     else
       thenM (modifyM (\<lambda>c. c\<lparr>c_welcome := False, net_handler := True\<rparr>))
      (thenM rebuildEndpoints
      (thenM (modifyM (\<lambda>c. c\<lparr>c_healthWired := True, c_stopRequested := False, c_supervisorRunning := True,
                              c_supervisorJoinable := True\<rparr>))
        (returnM True))))"

text \<open>\<open>stop\<close>: the supervisor it joins has run to its end (\<open>supervisorLoop\<close>) once the request is set.\<close>

definition client_stop :: "(client, unit) mon" where
  "client_stop =
     thenM (modifyM (\<lambda>c. c\<lparr>c_stopRequested := True\<rparr>))
    (thenM (modifyM (\<lambda>c. c\<lparr>c_supervisorJoinable := False\<rparr>))
    (thenM net_disconnect
      (modifyM (\<lambda>c. c\<lparr>c_supervisorRunning := False\<rparr>))))"

text \<open>The end of \<open>start\<close>, after the wait for the first link and the welcome.\<close>

definition client_started :: "(client, bool) mon" where
  "client_started =
     bindM (getsM net_connected) (\<lambda>up.
     if \<not> up then thenM client_stop (returnM False)
     else
       thenM (modifyM (\<lambda>c. if st_rooms c = [] then
                c\<lparr>st_rooms := [lobby_room, mkRoom 2 ''General'' OTHER PUBLIC]\<rparr> else c))
      (thenM (modifyM (\<lambda>c. if st_currentRoom c = None then c\<lparr>st_currentRoom := Some lobby_room\<rparr> else c))
        (returnM True)))"

end
