(* ===== verification/Client_Theorems.thy ===== *)
theory Client_Theorems
  imports Supervisor Packet_Processor
begin

text \<open>
  The client: what it makes of the histories and replies of a server, and its failover.
\<close>

section \<open>History\<close>

text \<open>The line the client shows for a stored message.\<close>

definition shown :: "chat_message \<Rightarrow> chatLine" where
  "shown m = \<lparr>cl_author = u_username (m_from m), cl_text = m_content m, cl_timestamp = of_int (m_timestamp m)\<rparr>"

definition printable :: "chat_message \<Rightarrow> bool" where
  "printable m \<longleftrightarrow> CHR '']'' \<notin> set (u_username (m_from m)) \<and> CHR 0x0A \<notin> set (u_username (m_from m)) \<and>
     CHR 0x0A \<notin> set (m_content m) \<and> 0 \<le> m_timestamp m \<and> m_timestamp m < 2 ^ 64"

definition history_line :: "chat_message \<Rightarrow> string" where
  "history_line m = ''['' @ u_username (m_from m) @ '']['' @ int_to_string (m_timestamp m) @ ''] '' @ m_content m"

lemma encodeHistory_lines: "encodeHistory ms = concat (map (\<lambda>m. history_line m @ [CHR 0x0A]) (rev ms))"
  by (simp add: encodeHistory_def history_line_def)

lemma getlines_lines:
  "\<forall>l\<in>set ls. CHR 0x0A \<notin> set l \<Longrightarrow> getlines (CHR 0x0A) (concat (map (\<lambda>l. l @ [CHR 0x0A]) ls)) = ls"
proof (induction ls)
  case (Cons l ls)
  then show ?case by (simp add: getlines_append)
qed simp

lemma parse_history_line:
  assumes "printable m"
  shows "parse_line (history_line m) = shown m"
proof -
  obtain n where n: "m_timestamp m = int n" "n < 2 ^ 64"
    using assms nonneg_int_cases [of "m_timestamp m"] by (auto simp: printable_def)
  have u: "CHR '']'' \<notin> set (u_username (m_from m))" using assms by (simp add: printable_def)
  let ?rest = "''['' @ nat_to_string n @ ''] '' @ m_content m"
  have line: "history_line m = CHR ''['' # u_username (m_from m) @ CHR '']'' # ?rest"
    by (simp add: history_line_def n(1) int_to_string_def)
  have f1: "find_char (CHR '']'') (history_line m) = Some (Suc (length (u_username (m_from m))))"
    using find_char_append [of "CHR '']''" "CHR ''['' # u_username (m_from m)" ?rest] u unfolding line by simp
  have "CHR '']'' \<notin> set (nat_to_string n)" by (rule nat_to_string_no_sep) (simp add: is_digit_def)
  then have f2: "find_char (CHR '']'') ?rest = Some (Suc (length (nat_to_string n)))"
    using find_char_append [of "CHR '']''" "CHR ''['' # nat_to_string n" "'' '' @ m_content m"] by simp
  show ?thesis
    using f1 f2 n(2) by (simp add: parse_line_def line substr_def std_stoull_nat shown_def n(1) Let_def)
qed

lemma parse_encoded_history:
  assumes "\<forall>m\<in>set ms. printable m"
  shows "parseHistoryPayload (encodeHistory ms) = map shown (rev ms)"
proof -
  have "CHR 0x0A \<notin> set (history_line m)" if "printable m" for m
    using that int_to_string_clean [of "CHR 0x0A" "m_timestamp m"] by (simp add: history_line_def printable_def is_digit_def)
  then have "getlines (CHR 0x0A) (encodeHistory ms) = map history_line (rev ms)"
    using getlines_lines [of "map history_line (rev ms)"] assms by (simp add: encodeHistory_lines comp_def)
  moreover have "history_line m \<noteq> []" for m by (simp add: history_line_def)
  ultimately show ?thesis using assms by (simp add: parseHistoryPayload_def parse_history_line filter_map comp_def)
qed

text \<open>The history a server prints is the history the client shows: oldest first, author, time and text
  of every message, as long as no name contains a closing bracket and neither name nor text a newline.\<close>

theorem history_roundtrip:
  assumes "\<forall>m\<in>set ms. printable m"
  shows "parseHistoryPayload (encodeHistory ms) = map shown (rev ms)"
  using assms by (rule parse_encoded_history)

definition hello_message :: chat_message where
  "hello_message = \<lparr>m_from = \<lparr>u_username = ''ada'', u_email = ''ada@x'', u_type = USER\<rparr>,
     m_to = \<lparr>u_username = [], u_email = [], u_type = GUEST\<rparr>, m_content = ''hello [all]'', m_timestamp = 17, m_id = ''m1''\<rparr>"

theorem history_roundtrip_witness:
  "parseHistoryPayload (encodeHistory [hello_message]) = [\<lparr>cl_author = ''ada'', cl_text = ''hello [all]'', cl_timestamp = 17\<rparr>]"
  using history_roundtrip [of "[hello_message]"] by (simp add: hello_message_def printable_def shown_def)

section \<open>Failover\<close>

definition failover_limit :: "client \<Rightarrow> nat" where
  "failover_limit c = max 1 (ring_size (c_ring c)) * (if TEST_MODE (c_cfg c) then 1 else 4)"

text \<open>Who the client is and where.\<close>

definition identity :: "client \<Rightarrow> user option \<times> room option" where
  "identity c = (st_user c, st_currentRoom c)"

text \<open>A dial that no server accepts, with no request to stop.\<close>

definition refused :: "dial \<Rightarrow> bool" where
  "refused d \<longleftrightarrow> d_wsa d \<and> d_socket d = INVALID_SOCKET \<and> d_sleep d"

abbreviation address :: "ServerPoint \<Rightarrow> string \<times> u16" where
  "address p \<equiv> (sp_host p, sp_port p)"

lemma connect_refused:
  assumes "refused d" and "\<not> net_connected c"
  shows "net_connect h p (d_wsa d) (d_socket d) (d_arrivals d) c =
    (Inr False, c\<lparr>net_dialled := net_dialled c @ [(h, p)], net_winsock := False\<rparr>)"
  using assms by (simp add: net_connect_def net_dial_def bindM_run thenM_run refused_def)

text \<open>What a note of the lost link leaves alone.\<close>

definition dialling :: "client \<Rightarrow> endpointRing \<times> config \<times> bool \<times> bool \<times> (string \<times> u16) list \<times> user option \<times> room option" where
  "dialling c = (c_ring c, c_cfg c, net_connected c, c_stopRequested c, net_dialled c, identity c)"

lemma note_lost: "\<exists>c'. whenM b markReconnecting c = (Inr (), c') \<and> dialling c' = dialling c"
  by (auto simp: whenM_def markReconnecting_def forgetConnected_def bindM_run thenM_run dialling_def identity_def)

lemma failAndWait_run:
  assumes "d_sleep d" and "\<not> c_stopRequested c" and "int a < int (failover_limit c)"
  shows "failAndWait d (int a) c = (Inr (Suc a < failover_limit c, int (Suc a)), c\<lparr>c_ring := ring_advance (c_ring c)\<rparr>)"
proof -
  have "ring_size (ring_advance r) = ring_size r" for r by (simp add: ring_size_def ring_advance_def)
  then show ?thesis
    using assms by (auto simp: failAndWait_def thenM_run bindM_run Let_def failover_limit_def sleepFor_def)
qed

lemma supervisor_refused:
  assumes "\<forall>d\<in>set ds. refused d" and "\<not> net_connected c" and "\<not> c_stopRequested c" and "ring_ok (c_ring c)"
    and "er_points (c_ring c) \<noteq> []" and "a < failover_limit c" and "failover_limit c \<le> a + length ds"
  shows "\<exists>c'. supervisorLoop ds (int a) hadLink c = (Inr (), c') \<and>
    net_dialled c' = net_dialled c @ map (\<lambda>k. address (ring_current ((ring_advance ^^ k) (c_ring c)))) [0..<failover_limit c - a] \<and>
    \<not> c_supervisorRunning c' \<and> \<not> net_connected c' \<and> \<not> c_reconnecting c' \<and> connectedEndpoint c' = [] \<and> identity c' = identity c"
  using assms
proof (induction ds arbitrary: a c)
  case (Cons d ds)
  let ?p = "ring_current (c_ring c)"
  have port: "sp_port ?p \<noteq> 0"
    using Cons.prems(4,5) by (auto simp: ring_ok_def ring_current_def usable_def split: if_splits)
  let ?c0 = "c\<lparr>net_dialled := net_dialled c @ [address ?p], net_winsock := False\<rparr>"
  have w: "net_connect (sp_host ?p) (sp_port ?p) (d_wsa d) (d_socket d) (d_arrivals d) c = (Inr False, ?c0)"
    using connect_refused [of d c] Cons.prems(1,2) by simp
  obtain c1 where c1: "whenM hadLink markReconnecting ?c0 = (Inr (), c1)" "dialling c1 = dialling ?c0" using note_lost by blast
  let ?c = "c1\<lparr>c_ring := ring_advance (c_ring c1)\<rparr>"
  have same: "c_ring c1 = c_ring c" "c_cfg c1 = c_cfg c" "\<not> net_connected c1" "\<not> c_stopRequested c1"
    "net_dialled c1 = net_dialled c @ [address ?p]" "identity c1 = identity c"
    using c1(2) Cons.prems(2,3) by (simp_all add: dialling_def identity_def)
  have lim: "failover_limit c1 = failover_limit c" "failover_limit ?c = failover_limit c"
    using same by (simp_all add: failover_limit_def ring_size_def ring_advance_def)
  have wait: "failAndWait d (int a) c1 = (Inr (Suc a < failover_limit c, int (Suc a)), ?c)"
    using failAndWait_run [of d c1 a] Cons.prems(1,6) same(4) lim(1) by (simp add: refused_def)
  have step: "supervisorLoop (d # ds) (int a) hadLink c =
      (if Suc a < failover_limit c then supervisorLoop ds (int (Suc a)) hadLink ?c else supervisorExit ?c)"
    using port w wait c1(1) Cons.prems(3) by (simp add: bindM_run thenM_run Let_def)
  have k: "failover_limit c - a = Suc (failover_limit c - Suc a)" using Cons.prems(6) by simp
  show ?case
  proof (cases "Suc a < failover_limit c")
    case True
    have "ring_ok (c_ring ?c)" "er_points (c_ring ?c) \<noteq> []"
      using ring_ok_advance [OF Cons.prems(4)] Cons.prems(5) same(1) by (simp_all add: ring_advance_def)
    moreover have "map (\<lambda>k. address (ring_current ((ring_advance ^^ k) (c_ring c)))) [0..<failover_limit c - a] =
        address ?p # map (\<lambda>k. address (ring_current ((ring_advance ^^ k) (ring_advance (c_ring c))))) [0..<failover_limit c - Suc a]"
      unfolding k upt_conv_Cons [OF zero_less_Suc] map_Suc_upt [symmetric] by (simp add: funpow_swap1 comp_def)
    moreover have "identity ?c = identity c" using same(6) by (simp add: identity_def)
    ultimately show ?thesis
      using Cons.IH [of ?c "Suc a"] Cons.prems(1,7) same True lim(2) unfolding step by simp
  next
    case False
    then have "failover_limit c - a = 1" using Cons.prems(6) by simp
    then show ?thesis
      using False same unfolding step
      by (simp add: supervisorExit_def forgetConnected_def thenM_run connectedEndpoint_def identity_def)
  qed
qed simp

lemma ring_visits:
  assumes "ring_ok r" and "p \<in> set (er_points r)"
  shows "\<exists>k < ring_size r. ring_current ((ring_advance ^^ k) r) = p"
proof -
  let ?n = "length (er_points r)"
  obtain j where j: "j < ?n" "er_points r ! j = p" using assms(2) by (auto simp: in_set_conv_nth)
  have i: "er_index r < ?n" "er_points r \<noteq> []" using assms by (auto simp: ring_ok_def split: if_splits)
  define k where "k = (j + (?n - er_index r)) mod ?n"
  have "(er_index r + k) mod ?n = (er_index r + (j + (?n - er_index r))) mod ?n" unfolding k_def by (simp add: mod_add_right_eq)
  also have "er_index r + (j + (?n - er_index r)) = j + ?n" using i(1) by simp
  finally have "(er_index r + k) mod ?n = j" using j(1) by simp
  then show ?thesis
    using advance_power [OF assms(1) i(2), of k] j i(1) by (intro exI [of _ k]) (auto simp: ring_current_def ring_size_def k_def)
qed

text \<open>C18: when no server accepts a connection, dialling ends, be it the first connection (no attempt made,
  no link yet) or a failover after a lost link (one attempt counted): the supervisor dials one server
  after the other from the cursor of the ring on, exactly as many times as the failover limit (servers
  times laps) leaves, each at its own host and port, and then stops with the client offline and its
  session kept. If that is at least one lap, every server of the list was dialled.\<close>

theorem failover_tries_all_and_ends:
  assumes "\<forall>d\<in>set ds. refused d" and "\<not> net_connected c" and "\<not> c_stopRequested c" and "ring_ok (c_ring c)"
    and "er_points (c_ring c) \<noteq> []" and "a < failover_limit c" and "failover_limit c \<le> a + length ds"
  shows "\<exists>c' dials. supervisorLoop ds (int a) hadLink c = (Inr (), c') \<and> net_dialled c' = net_dialled c @ dials \<and>
    dials = map (\<lambda>k. address (ring_current ((ring_advance ^^ k) (c_ring c)))) [0..<failover_limit c - a] \<and>
    (ring_size (c_ring c) \<le> failover_limit c - a \<longrightarrow> address ` set (er_points (c_ring c)) \<subseteq> set dials) \<and>
    \<not> c_supervisorRunning c' \<and> \<not> net_connected c' \<and> \<not> c_reconnecting c' \<and> connectedEndpoint c' = [] \<and>
    st_user c' = st_user c \<and> st_currentRoom c' = st_currentRoom c"
proof -
  let ?dials = "map (\<lambda>k. address (ring_current ((ring_advance ^^ k) (c_ring c)))) [0..<failover_limit c - a]"
  have "address ` set (er_points (c_ring c)) \<subseteq> set ?dials" if "ring_size (c_ring c) \<le> failover_limit c - a"
  proof
    fix x
    assume "x \<in> address ` set (er_points (c_ring c))"
    then obtain p where p: "p \<in> set (er_points (c_ring c))" "x = address p" by blast
    obtain k where "k < ring_size (c_ring c)" "ring_current ((ring_advance ^^ k) (c_ring c)) = p"
      using ring_visits [OF assms(4) p(1)] by blast
    then show "x \<in> set ?dials" using p(2) that by force
  qed
  then show ?thesis
    using supervisor_refused [OF assms, of hadLink] by (auto simp: identity_def simp del: set_map)
qed

definition two_servers :: endpointRing where
  "two_servers = \<lparr>er_points = [\<lparr>sp_host = ''a'', sp_port = 5555\<rparr>, \<lparr>sp_host = ''b'', sp_port = 5556\<rparr>], er_index = 1\<rparr>"

definition fresh_client :: client where
  "fresh_client = \<lparr>st_user = None, st_currentRoom = None, st_rooms = [], st_serverEndpoints = [],
     net_socket = INVALID_SOCKET, net_connected = False, net_winsock = False, net_incoming = [], net_lastInboundMs = 0,
     net_handler = True, net_arrivals = [], net_writesFail = False, net_sent = [], net_closed = [], net_dialled = [], net_linkDowns = 0,
     clk_ms = 1000, clk_s = 1, clk_draw = 0, c_cfg = default_config\<lparr>TEST_MODE := True\<rparr>, c_pendingChat = [], c_welcome = False,
     c_ring = two_servers, c_stopRequested = False, c_supervisorRunning = True, c_supervisorJoinable = True,
     c_reconnecting = False, c_reconnects = 0, c_connectedHost = [], c_connectedPort = 0, c_resumePending = False,
     c_healthWired = True\<rparr>"

definition dead_dial :: dial where
  "dead_dial = \<lparr>d_wsa = True, d_socket = INVALID_SOCKET, d_arrivals = [], d_watch = [], d_sleep = True, d_jitter = (\<lambda>_. 0)\<rparr>"

theorem failover_tries_all_and_ends_witness:
  "\<exists>c'. supervisorLoop [dead_dial, dead_dial] 0 False fresh_client = (Inr (), c') \<and> \<not> c_supervisorRunning c' \<and>
    net_dialled c' = [(''b'', 5556), (''a'', 5555)]"
proof -
  have lim: "failover_limit fresh_client = 2" by (simp add: failover_limit_def fresh_client_def two_servers_def ring_size_def)
  have f: "\<not> net_connected fresh_client" "\<not> c_stopRequested fresh_client" "c_ring fresh_client = two_servers" "net_dialled fresh_client = []"
    by (simp_all add: fresh_client_def)
  have r: "ring_ok two_servers" "er_points two_servers \<noteq> []" by (simp_all add: two_servers_def ring_ok_def usable_def)
  have "\<forall>d\<in>set [dead_dial, dead_dial]. refused d" by (simp add: dead_dial_def refused_def)
  from failover_tries_all_and_ends [OF this f(1,2), of 0 False] f r lim obtain c' where
    "supervisorLoop [dead_dial, dead_dial] 0 False fresh_client = (Inr (), c')" "\<not> c_supervisorRunning c'"
    "net_dialled c' = map (\<lambda>k. address (ring_current ((ring_advance ^^ k) two_servers))) [0..<2]"
    by (auto simp del: supervisorLoop.simps)
  moreover have "map (\<lambda>k. address (ring_current ((ring_advance ^^ k) two_servers))) [0..<2] = [(''b'', 5556), (''a'', 5555)]"
    by (simp add: upt_rec two_servers_def ring_current_def ring_advance_def)
  ultimately show ?thesis by metis
qed

section \<open>A server that falls silent\<close>

text \<open>A second in which nothing is received and no stop is requested.\<close>

definition quiet :: "tick \<Rightarrow> bool" where
  "quiet t \<longleftrightarrow> t_reads t = 0 \<and> t_sleep t"

lemma linkHealthy_run: "c_healthWired c \<Longrightarrow> linkHealthy c = (Inr (client_isAlive c), c)"
  by (simp add: linkHealthy_def monitor_check_def clientHealthAdapter_def bindM_run combine_def)

lemma watch_quiet:
  assumes "\<forall>t\<in>set (qs @ [late]). quiet t" and "net_connected c" and "c_healthWired c" and "\<not> c_stopRequested c"
    and "t_ms late - net_lastInboundMs c > HEARTBEAT_TIMEOUT"
  shows "\<exists>now. watchLink (qs @ late # after # ts) c = (Inr (), c\<lparr>clk_ms := now\<rparr>) \<and> heartbeatMissed (c\<lparr>clk_ms := now\<rparr>)"
  using assms
proof (induction qs arbitrary: c)
  case Nil
  then show ?case
    by (auto simp: bindM_run thenM_run linkHealthy_run client_isAlive_def quiet_def setClock_def sleepFor_def heartbeatMissed_def
        intro: exI [of _ "clk_ms c"])
next
  case (Cons q qs)
  show ?case
  proof (cases "heartbeatMissed c")
    case True
    then show ?thesis
      using Cons.prems by (intro exI [of _ "clk_ms c"]) (simp add: bindM_run linkHealthy_run client_isAlive_def)
  next
    case False
    then show ?thesis
      using Cons.IH [of "c\<lparr>clk_ms := t_ms q\<rparr>"] Cons.prems
      by (simp add: bindM_run thenM_run linkHealthy_run client_isAlive_def quiet_def setClock_def sleepFor_def)
  qed
qed

section \<open>Pushes and replies\<close>

text \<open>The anonymous welcome of a newly dialled server does not end a session: a logged-in client
  keeps its user and its room, and takes over the room directory.\<close>

theorem guest_welcome_keeps_session:
  assumes "isLoggedIn c" and "bar_free (u_username g)" and "bar_free (u_email g)" and "u_type g = GUEST"
    and "\<forall>r\<in>set rooms. listable r" and "rooms \<noteq> []"
  shows "\<exists>c'. onPush (mkPacket now ''server'' (user_serialize g) ROOM_LIST ''Lobby'' (serializeList rooms) 0) c = (Inr (), c') \<and>
    st_user c' = st_user c \<and> st_currentRoom c' = st_currentRoom c \<and> isLoggedIn c' \<and> st_rooms c' = rooms \<and> c_welcome c'"
proof -
  have dir: "serializeList rooms \<noteq> []" "starts_with ''room('' (serializeList rooms)"
    using assms(6) by (cases rooms; cases "tl rooms"; simp add: serializeList_def room_serialize_def starts_with_def)+
  have "starts_with ''user('' (user_serialize g)" by (simp add: user_serialize_def starts_with_def)
  then have "push_user (mkPacket now ''server'' (user_serialize g) ROOM_LIST ''Lobby'' (serializeList rooms) 0) = Some g"
    using user_deserialize_serialize [OF assms(2,3)] by (simp add: push_user_def mkPacket_def)
  then show ?thesis
    using assms dir deserializeList_serializeList [OF assms(5)]
    by (simp add: onPush_def applyRoomListPush_def applyRoomDirectory_def mkPacket_def bindM_run thenM_run whenM_def isLoggedIn_def Let_def)
qed

definition ada_client :: client where
  "ada_client = fresh_client\<lparr>st_user := Some \<lparr>u_username = ''ada'', u_email = ''ada@x'', u_type = USER\<rparr>,
     st_currentRoom := Some (mkRoom 0 ''General'' OTHER PUBLIC)\<rparr>"

theorem guest_welcome_keeps_session_witness:
  "\<exists>c'. onPush (mkPacket 5 ''server'' (user_serialize \<lparr>u_username = ''guest1'', u_email = [], u_type = GUEST\<rparr>) ROOM_LIST ''Lobby''
      (serializeList [lobby_room]) 0) ada_client = (Inr (), c') \<and>
    st_user c' = Some \<lparr>u_username = ''ada'', u_email = ''ada@x'', u_type = USER\<rparr> \<and> st_rooms c' = [lobby_room]"
proof -
  have "listable lobby_room" by (simp add: listable_def lobby_room_def mkRoom_def)
  then show ?thesis
    using guest_welcome_keeps_session [of ada_client "\<lparr>u_username = ''guest1'', u_email = [], u_type = GUEST\<rparr>" "[lobby_room]" 5]
    by (auto simp: ada_client_def isLoggedIn_def)
qed

text \<open>A client that can talk: connected, with nothing queued and a socket that accepts writes.\<close>

definition linked :: "client \<Rightarrow> bool" where
  "linked c \<longleftrightarrow> net_connected c \<and> net_socket c \<noteq> INVALID_SOCKET \<and> net_incoming c = [] \<and> net_handler c \<and> \<not> heartbeatMissed c"

text \<open>A push does not change who a logged-in client is and where when it is a message, a server
  directory, a list of rooms, or the welcome of a server to a guest.\<close>

definition impersonal :: "packet \<Rightarrow> bool" where
  "impersonal p \<longleftrightarrow> (p_type p = ROOM_LIST \<longrightarrow> (case push_user p of None \<Rightarrow> p_room p = [] | Some g \<Rightarrow> u_type g = GUEST))"

lemma onPush_identity:
  assumes "isLoggedIn c" and "impersonal p" and "onPush p c = (r, c')"
  shows "identity c' = identity c"
  using assms
  by (auto simp: onPush_def applyRoomListPush_def applyRoomDirectory_def applyServerDirectoryPush_def rebuildEndpoints_def
      enqueueChatPush_def Let_def bindM_run thenM_run whenM_def identity_def impersonal_def isLoggedIn_def split: option.splits if_splits)

lemma reader_push:
  assumes "isPush p" and "net_arrivals c = Got p # rest" and "net_handler c"
  shows "\<exists>c'. readerTurn onPush c = (Inr (), c') \<and> link_of c' = link_of (c\<lparr>net_arrivals := rest\<rparr>) \<and>
    (isLoggedIn c \<and> impersonal p \<longrightarrow> identity c' = identity c)"
proof -
  let ?c = "c\<lparr>net_arrivals := rest, net_lastInboundMs := clk_ms c\<rparr>"
  have "p_type p \<noteq> HEARTBEAT" using assms(1) by (auto simp: isPush_def)
  moreover obtain c' where c': "onPush p ?c = (Inr (), c')" "link_of c' = link_of ?c" using onPush_run by blast
  moreover have "isLoggedIn c \<and> impersonal p \<longrightarrow> identity c' = identity c"
    using onPush_identity [OF _ _ c'(1)] by (simp add: isLoggedIn_def identity_def)
  ultimately show ?thesis
    using assms by (simp add: readerTurn_def onRead_def noteInbound_def bindM_run thenM_run whenM_def link_of_def)
qed

text \<open>Pushes that come before a reply are handled and the reply is delivered.\<close>

lemma receive_after_pushes:
  assumes "net_connected c" and "net_socket c \<noteq> INVALID_SOCKET" and "net_incoming c = []" and "net_handler c"
    and "net_arrivals c = map Got ps @ Got r # rest" and "\<forall>p\<in>set ps. isPush p"
    and "p_type r \<noteq> HEARTBEAT" and "\<not> isPush r"
  shows "\<exists>c'. receivePacket timed c = (Inr (Some r), c') \<and> link_of c' = link_of (c\<lparr>net_arrivals := rest\<rparr>) \<and>
    (isLoggedIn c \<and> (\<forall>p\<in>set ps. impersonal p) \<longrightarrow> identity c' = identity c)"
  using assms
proof (induction ps arbitrary: c)
  case Nil
  then have "readerTurn onPush c =
      (Inr (), c\<lparr>net_arrivals := rest, net_lastInboundMs := clk_ms c, net_incoming := [r]\<rparr>)"
    by (simp add: readerTurn_def onRead_def noteInbound_def bindM_run thenM_run)
  then show ?case
    using Nil by (subst receivePacket.simps) (simp add: receivePacket.simps [of timed "c\<lparr>net_arrivals := rest, net_lastInboundMs := clk_ms c, net_incoming := [r]\<rparr>"] link_of_def identity_def)
next
  case (Cons p ps)
  obtain c1 where c1: "readerTurn onPush c = (Inr (), c1)" "link_of c1 = link_of (c\<lparr>net_arrivals := map Got ps @ Got r # rest\<rparr>)"
    "isLoggedIn c \<and> impersonal p \<longrightarrow> identity c1 = identity c"
    using reader_push [of p c] Cons.prems by auto
  have "receivePacket timed c = receivePacket timed c1"
    using Cons.prems c1(1) by (subst receivePacket.simps) simp
  moreover obtain c' where "receivePacket timed c1 = (Inr (Some r), c')" "link_of c' = link_of (c1\<lparr>net_arrivals := rest\<rparr>)"
    "isLoggedIn c1 \<and> (\<forall>p\<in>set ps. impersonal p) \<longrightarrow> identity c' = identity c1"
    using Cons.IH [of c1] Cons.prems c1(2) by (auto simp: link_of_def)
  moreover have "isLoggedIn c1 = isLoggedIn c" if "identity c1 = identity c" using that by (simp add: isLoggedIn_def identity_def)
  ultimately show ?case using c1(2,3) by (auto simp: link_of_def)
qed

lemma request_answered:
  assumes "linked c" and "build (clk_s c) = Inr q" and "sendable q" and "\<not> net_writesFail c"
    and "net_arrivals c = map Got ps @ Got r # rest" and "\<forall>p\<in>set ps. isPush p"
    and "p_type r = t" and "t \<noteq> HEARTBEAT" and "\<not> isPush r"
  shows "\<exists>c'. request build t e1 e2 c = (Inr (Inr r), c') \<and> net_sent c' = net_sent c @ [q] \<and> net_arrivals c' = rest \<and> net_connected c'"
proof -
  let ?c = "c\<lparr>net_sent := net_sent c @ [q]\<rparr>"
  obtain c' where c': "receivePacket False ?c = (Inr (Some r), c')" "link_of c' = link_of (?c\<lparr>net_arrivals := rest\<rparr>)"
    using receive_after_pushes [of ?c ps r rest False] assms by (auto simp: linked_def)
  have "net_sendPacket q c = (Inr True, ?c)"
    using assms by (simp add: net_sendPacket_def bindM_run thenM_run linked_def serialize_Nil_iff)
  then show ?thesis
    using assms c' by (simp add: request_def bindM_run waitFor.simps [of False t ?c] link_of_def linked_def)
qed

text \<open>A login that the server accepts: whatever pushes arrive before the reply, the client sends one
  LOGIN packet with the credentials and ends as the user of the reply, in the Lobby, with the room
  directory of the reply.\<close>

lemma login_adopts_reply:
  assumes "linked c" and "\<not> isLoggedIn c" and "\<not> net_writesFail c" and "username \<noteq> []" and "password \<noteq> []"
    and "sendable (mkPacket (clk_s c) username [] LOGIN [] password 0)"
    and "net_arrivals c = map Got ps @ Got r # rest" and "\<forall>p\<in>set ps. isPush p"
    and "p_type r = LOGIN" and "p_code r = responseCode SUCCESS" and "p_message r = user_serialize u" and "p_room r = serializeList rooms"
    and "bar_free (u_username u)" and "bar_free (u_email u)" and "\<forall>r\<in>set rooms. listable r"
  shows "\<exists>c'. client_login username password c = (Inr [], c') \<and> st_user c' = Some u \<and> st_currentRoom c' = Some lobby_room \<and>
    st_rooms c' = rooms \<and> net_sent c' = net_sent c @ [mkPacket (clk_s c) username [] LOGIN [] password 0] \<and> net_arrivals c' = rest"
proof -
  have "\<not> isPush r" using assms(9) by (simp add: isPush_def)
  then obtain c' where c': "request (\<lambda>now. buildLogin now username password) LOGIN
      ''Failed to send login request.'' ''Connection lost while logging in.'' c = (Inr (Inr r), c')"
    "net_sent c' = net_sent c @ [mkPacket (clk_s c) username [] LOGIN [] password 0]" "net_arrivals c' = rest"
    using request_answered [OF assms(1) _ assms(6,3,7,8,9)] assms(4,5) by (fastforce simp: buildLogin_def)
  have "handlePacket r = Some u"
    using assms user_deserialize_serialize by (simp add: handlePacket_def client_handleLogin_def)
  then show ?thesis
    using assms c' deserializeList_serializeList [OF assms(15)]
    by (simp add: client_login_def bindM_run thenM_run client_isAlive_def linked_def concludeUser_def enterAs_def applyRoomDirectory_def)
qed

definition ada :: user where "ada = \<lparr>u_username = ''ada'', u_email = ''ada@x'', u_type = USER\<rparr>"

definition login_reply :: packet where
  "login_reply = mkPacket 9 ''server'' ''ada'' LOGIN (serializeList [lobby_room]) (user_serialize ada) (responseCode SUCCESS)"

definition waiting_client :: client where
  "waiting_client = fresh_client\<lparr>net_connected := True, net_socket := 7, net_lastInboundMs := 900,
     net_arrivals := [Got (mkPacket 8 ''bob'' [] MESSAGE ''Lobby'' ''hi'' 0), Got login_reply]\<rparr>"

end
