(* ===== verification/Link_Frame.thy ===== *)
theory Link_Frame
  imports Client_Theorems
begin

text \<open>
  Waiting on a link. Whatever a client does while it waits, for a reply or as the reader thread, comes
  down to three things: sending, reading an arrival, and taking a packet off the queue. The locale
  \<open>link_frame\<close> states that these keep a property of the client and derives that every wait returns and
  keeps it too. It is interpreted for what pushes make of a session (\<open>Client_Calls\<close>) and for a link that
  is going to be given up (\<open>Link_Loss\<close>).
\<close>

lemma readerTurn_returns: "\<exists>c'. readerTurn onPush c = (Inr (), c')"
proof (cases "net_arrivals c")
  case Nil
  then show ?thesis by (simp add: readerTurn_def bindM_run onRead_def markLinkDown_def)
next
  case (Cons a rest)
  show ?thesis
  proof (cases a)
    case (Got p)
    obtain c' where "onRead onPush (Some p) (c\<lparr>net_arrivals := rest\<rparr>) = (Inr (), c')" using onRead_budget by blast
    then show ?thesis using Cons Got by (simp add: readerTurn_def bindM_run thenM_run)
  qed (use Cons in \<open>simp_all add: readerTurn_def bindM_run thenM_run onRead_def markLinkDown_def\<close>)
qed

text \<open>One arrival, case by case.\<close>

lemma readerTurn_eq:
  assumes "net_arrivals c = a # rest"
  shows "readerTurn onPush c =
    (let d = c\<lparr>net_arrivals := rest, net_lastInboundMs := clk_ms c\<rparr> in
     case a of
       Got p \<Rightarrow>
         if p_type p = HEARTBEAT then
           (Inr (), if p_message p = ''ping'' then snd (net_sendPacket (mkPacket (clk_s c) ''client'' ''server'' HEARTBEAT [] ''pong'' 0) d) else d)
         else if isPush p then (if net_handler c then onPush p d else (Inr (), d))
         else (Inr (), d\<lparr>net_incoming := net_incoming c @ [p]\<rparr>)
     | ReadFails \<Rightarrow> markLinkDown (c\<lparr>net_arrivals := rest\<rparr>)
     | Silence \<Rightarrow> (Inr (), c\<lparr>net_arrivals := rest\<rparr>))"
proof -
  let ?d = "c\<lparr>net_arrivals := rest, net_lastInboundMs := clk_ms c\<rparr>"
  obtain ok c2 where "net_sendPacket (mkPacket (clk_s c) ''client'' ''server'' HEARTBEAT [] ''pong'' 0) ?d = (Inr ok, c2)"
    using sendPacket_link by blast
  then show ?thesis
    using assms by (cases a) (simp_all add: readerTurn_def onRead_def noteInbound_def markLinkDown_def bindM_run thenM_run whenM_def Let_def)
qed

locale link_frame =
  fixes I :: "client \<Rightarrow> bool"
  assumes sends: "safe I (net_sendPacket p)"
    and turn: "I c \<Longrightarrow> net_connected c \<Longrightarrow> I (snd (readerTurn onPush c))"
    and taken: "I c \<Longrightarrow> I (c\<lparr>net_incoming := ps\<rparr>)"
begin

lemma receive_keeps: "I c \<Longrightarrow> \<exists>r c'. receivePacket timed c = (Inr r, c') \<and> I c'"
proof (induction timed c rule: receivePacket.induct)
  case (1 timed c)
  show ?case
  proof (cases "net_incoming c = [] \<and> net_connected c \<and> net_socket c \<noteq> INVALID_SOCKET")
    case False
    then show ?thesis using "1.prems" taken by (subst receivePacket.simps) (auto split: list.split)
  next
    case True
    then have I: "I (snd (readerTurn onPush c))" using "1.prems" turn by blast
    have "snd (readerTurn onPush c) = c\<lparr>net_arrivals := rest\<rparr>" if "net_arrivals c = Silence # rest" for rest
      using that by (simp add: readerTurn_def bindM_run thenM_run)
    then show ?thesis
      using "1.IH" True I by (subst receivePacket.simps) (auto split: list.split arrival.split)
  qed
qed

lemma wait_keeps: "I c \<Longrightarrow> \<exists>r c'. waitFor timed t c = (Inr r, c') \<and> I c'"
proof (induction timed t c rule: waitFor.induct)
  case (1 timed t c)
  obtain r c1 where r: "receivePacket timed c = (Inr r, c1)" "I c1" using receive_keeps [OF "1.prems"] by blast
  show ?case by (subst waitFor.simps) (use "1.IH" [OF r(1) [symmetric]] r in \<open>auto split: option.split\<close>)
qed

lemma safe_waitFor: "safe I (waitFor timed t)"
  using wait_keeps by (simp add: safe_def hoare_def)

lemma safe_request: "safe I (request build t e1 e2)"
  unfolding request_def by (intro safe_intros sends safe_waitFor)

lemma safe_readerTurns: "safe I (readerTurns n)"
proof (induction n)
  case (Suc n)
  show ?case
  proof (rule safeI)
    fix c
    assume I: "I c"
    obtain c1 where t: "readerTurn onPush c = (Inr (), c1)" using readerTurn_returns by blast
    then have "net_connected c \<Longrightarrow> I c1" using turn [OF I] by simp
    moreover have "I s \<Longrightarrow> \<exists>t. readerTurns n s = (Inr (), t) \<and> I t" for s using Suc by (auto simp: safe_def hoare_def)
    ultimately show "\<exists>a t. readerTurns (Suc n) c = (Inr a, t) \<and> I t" using t I by (auto simp: bindM_run thenM_run)
  qed
qed (simp only: readerTurns.simps safe_returnM)

end

text \<open>What a push reads and writes.\<close>

definition view :: "client \<Rightarrow> (user option \<times> room option \<times> room list \<times> clientEndpoint list) \<times> chatLine list \<times> bool \<times> endpointRing \<times> config \<times> u64" where
  "view c = ((st_user c, st_currentRoom c, st_rooms c, st_serverEndpoints c), c_pendingChat c, c_welcome c, c_ring c, c_cfg c, clk_s c)"

text \<open>What it leaves alone.\<close>

definition steady :: "client \<Rightarrow> bool \<times> bool \<times> config \<times> nat \<times> bool \<times> bool \<times> int \<times> SOCKET list \<times> (string \<times> u16) list \<times> int \<times> bool" where
  "steady c = (c_stopRequested c, c_healthWired c, c_cfg c, c_reconnects c, c_reconnecting c, c_resumePending c,
     net_lastInboundMs c, net_closed c, net_dialled c, clk_ms c, net_writesFail c)"

lemma onPush_steady: "safe (\<lambda>c. steady c = S) (onPush p)"
  unfolding onPush_def applyRoomListPush_def applyRoomDirectory_def applyServerDirectoryPush_def rebuildEndpoints_def
    enqueueChatPush_def Let_def
  by (intro safe_intros safe_modifyM) (simp_all add: steady_def split: option.split)

lemma onPush_frame: "\<exists>c'. onPush p c = (Inr (), c') \<and> link_of c' = link_of c \<and> steady c' = steady c"
  using safe_onPush [of "link_of c" p] onPush_steady [of "steady c" p] unfolding safe_def hoare_def by (metis Pair_inject old.unit.exhaust)

text \<open>A computation that depends on the view only.\<close>

definition viewed :: "(client, 'a) mon \<Rightarrow> bool" where
  "viewed m \<longleftrightarrow> (\<forall>c d. view c = view d \<longrightarrow> fst (m c) = fst (m d) \<and> view (snd (m c)) = view (snd (m d)))"

lemma viewedI:
  "(\<And>c d. view c = view d \<Longrightarrow> fst (m c) = fst (m d) \<and> view (snd (m c)) = view (snd (m d))) \<Longrightarrow> viewed m"
  unfolding viewed_def by blast

lemma viewedD: "viewed m \<Longrightarrow> view c = view d \<Longrightarrow> fst (m c) = fst (m d) \<and> view (snd (m c)) = view (snd (m d))"
  unfolding viewed_def by blast

lemma viewed_bindM:
  assumes m: "viewed m" and f: "\<And>a. viewed (f a)"
  shows "viewed (bindM m f)"
proof (rule viewedI)
  fix c d
  assume e: "view c = view d"
  obtain r c1 where c: "m c = (r, c1)" by fastforce
  obtain d1 where d: "m d = (r, d1)" "view c1 = view d1" using viewedD [OF m e] c by (cases "m d") simp
  show "fst (bindM m f c) = fst (bindM m f d) \<and> view (snd (bindM m f c)) = view (snd (bindM m f d))"
  proof (cases r)
    case (Inr a)
    then show ?thesis using c d(1) viewedD [OF f d(2), of a] by (simp add: bindM_run)
  qed (use c d in \<open>simp add: bindM_run\<close>)
qed

lemma viewed_thenM: "viewed m \<Longrightarrow> viewed k \<Longrightarrow> viewed (thenM m k)"
  unfolding thenM_def by (rule viewed_bindM)

lemma viewed_returnM: "viewed (returnM a)"
  by (rule viewedI) simp

lemma viewed_getsM: "(\<And>c d. view c = view d \<Longrightarrow> f c = f d) \<Longrightarrow> viewed (getsM f)"
  unfolding viewed_def by (metis getsM_run fst_conv snd_conv)

lemma viewed_modifyM: "(\<And>c d. view c = view d \<Longrightarrow> view (g c) = view (g d)) \<Longrightarrow> viewed (modifyM g)"
  unfolding viewed_def by (metis modifyM_run fst_conv snd_conv)

lemma viewed_if: "(b \<Longrightarrow> viewed m) \<Longrightarrow> (\<not> b \<Longrightarrow> viewed k) \<Longrightarrow> viewed (if b then m else k)"
  by simp

lemma viewed_whenM: "viewed m \<Longrightarrow> viewed (whenM b m)"
  unfolding whenM_def by (intro viewed_if viewed_returnM)

lemma viewed_case: "viewed m \<Longrightarrow> (\<And>a. viewed (h a)) \<Longrightarrow> viewed (case x of None \<Rightarrow> m | Some a \<Rightarrow> h a)"
  by (cases x) simp_all

lemmas viewed_rules = viewed_bindM viewed_thenM viewed_returnM viewed_whenM viewed_if viewed_case

lemma viewed_onPush: "viewed (onPush p)"
proof -
  have u: "viewed (modifyM (\<lambda>c. c\<lparr>st_rooms := rs\<rparr>))" "viewed (modifyM (\<lambda>c. c\<lparr>st_currentRoom := r\<rparr>))"
    "viewed (modifyM (\<lambda>c. c\<lparr>st_user := u\<rparr>))" "viewed (modifyM (\<lambda>c. c\<lparr>st_serverEndpoints := es\<rparr>))"
    "viewed (modifyM (\<lambda>c. if st_rooms c \<noteq> [] then c\<lparr>c_welcome := True\<rparr> else c))" for rs r u es
    by (rule viewed_modifyM, simp add: view_def)+
  have g: "viewed (getsM (\<lambda>c. isLoggedIn c \<and> b))" for b
    by (rule viewed_getsM) (simp add: view_def isLoggedIn_def)
  have r: "viewed rebuildEndpoints"
    unfolding rebuildEndpoints_def Let_def by (rule viewed_modifyM) (simp add: view_def)
  have q: "viewed (enqueueChatPush p)"
    unfolding enqueueChatPush_def by (rule viewed_modifyM) (simp add: view_def)
  show ?thesis
    unfolding onPush_def applyRoomListPush_def applyRoomDirectory_def applyServerDirectoryPush_def Let_def
    by (intro viewed_rules u g r q)
qed

lemma onPush_view: "view c = view d \<Longrightarrow> view (snd (onPush p c)) = view (snd (onPush p d))"
  using viewedD [OF viewed_onPush] by blast

lemma onPush_ring: "p_type p \<noteq> SERVER_DIRECTORY \<Longrightarrow> onPush p c = (r, c') \<Longrightarrow> c_ring c' = c_ring c"
  by (auto simp: onPush_def applyRoomListPush_def applyRoomDirectory_def enqueueChatPush_def Let_def bindM_run thenM_run whenM_def
      split: option.splits if_splits)

end
