(* ===== verification/Client_Calls.thy ===== *)
theory Client_Calls
  imports Link_Frame
begin

text \<open>
  The request methods of the client as one type, and what they have in common: they return, and a
  request that ends with an error text changes nothing of the session by itself: what is different
  afterwards are the pushes that came in while the client waited. The wait of the source has no
  time-out; it ends with the link, and the end of the list of arrivals is the end of the link. A link
  that stays silent does end, as the supervisor closes it after the heartbeat time-out (\<open>Link_Loss\<close>).
\<close>

datatype call =
    Join string | Leave | Login string string | SignUp string string string | Logout
  | CreateRoom string string | Invite string string | Kick string string | DeleteRoom string
  | UpdateProfile string string string | SendMessage string

fun perform :: "call \<Rightarrow> (client, string) mon" where
  "perform (Join room) = client_joinRoom room"
| "perform Leave = client_leaveRoom"
| "perform (Login username password) = client_login username password"
| "perform (SignUp username password email) = client_signUp username password email"
| "perform Logout = client_logout"
| "perform (CreateRoom room privacy) = client_createRoom room privacy"
| "perform (Invite room user) = client_inviteToRoom room user"
| "perform (Kick room user) = client_kickFromRoom room user"
| "perform (DeleteRoom room) = client_deleteRoom room"
| "perform (UpdateProfile username password email) = client_updateProfile username password email"
| "perform (SendMessage text) = client_sendMessage text"

text \<open>What a user sees of the client.\<close>

definition session_of :: "client \<Rightarrow> user option \<times> room option \<times> room list \<times> chatLine list" where
  "session_of c = (st_user c, st_currentRoom c, st_rooms c, c_pendingChat c)"

text \<open>The pushes among what a link delivered, and what the client makes of them.\<close>

definition pushes_in :: "arrival list \<Rightarrow> packet list" where
  "pushes_in as = concat (map (\<lambda>a. case a of Got p \<Rightarrow> if isPush p then [p] else [] | _ \<Rightarrow> []) as)"

definition hear :: "packet list \<Rightarrow> client \<Rightarrow> client" where
  "hear ps c = fold (\<lambda>p c. snd (onPush p c)) ps c"

text \<open>\<open>c\<close> is \<open>c0\<close> after some arrivals were read: all that changed of its view are their pushes.\<close>

definition meanwhile :: "client \<Rightarrow> client \<Rightarrow> bool" where
  "meanwhile c0 c \<longleftrightarrow> net_handler c = net_handler c0 \<and>
     (\<exists>pre. net_arrivals c0 = pre @ net_arrivals c \<and> view c = view (hear (if net_handler c0 then pushes_in pre else []) c0))"

lemma meanwhile_refl: "meanwhile c c"
  by (auto simp: meanwhile_def hear_def pushes_in_def intro: exI [of _ "[]"])

lemma meanwhile_same:
  assumes "meanwhile c0 c" and "view c' = view c" "net_handler c' = net_handler c" "net_arrivals c' = net_arrivals c"
  shows "meanwhile c0 c'"
  using assms unfolding meanwhile_def by simp

lemma sends_same:
  "\<exists>ok c'. net_sendPacket p c = (Inr ok, c') \<and> view c' = view c \<and> net_handler c' = net_handler c \<and> net_arrivals c' = net_arrivals c"
  by (auto simp: net_sendPacket_def markLinkDown_def bindM_run thenM_run view_def)

lemma meanwhile_next:
  assumes "meanwhile c0 c" and "net_arrivals c = a # rest" and "net_handler c' = net_handler c" "net_arrivals c' = rest"
    and "view c' = (case a of Got p \<Rightarrow> if isPush p \<and> net_handler c then view (snd (onPush p c)) else view c | _ \<Rightarrow> view c)"
  shows "meanwhile c0 c'"
proof -
  obtain pre where pre: "net_arrivals c0 = pre @ a # rest" "net_handler c = net_handler c0"
    "view c = view (hear (if net_handler c0 then pushes_in pre else []) c0)"
    using assms(1,2) by (auto simp: meanwhile_def)
  have "view c' = view (hear (if net_handler c0 then pushes_in (pre @ [a]) else []) c0)"
    using assms(5) pre(2,3) onPush_view [OF pre(3)] by (cases a) (auto simp: pushes_in_def hear_def)
  then show ?thesis using pre assms(3,4) unfolding meanwhile_def by (intro conjI exI [of _ "pre @ [a]"]) simp_all
qed

lemma meanwhile_turn:
  assumes "meanwhile c0 c"
  shows "meanwhile c0 (snd (readerTurn onPush c))"
proof (cases "net_arrivals c")
  case Nil
  then show ?thesis
    using assms by (intro meanwhile_same [OF assms]) (simp_all add: readerTurn_def onRead_def markLinkDown_def bindM_run view_def)
next
  case (Cons a rest)
  show ?thesis
  proof (rule meanwhile_next [OF assms Cons])
    let ?d = "c\<lparr>net_arrivals := rest, net_lastInboundMs := clk_ms c\<rparr>"
    let ?pong = "mkPacket (clk_s c) ''client'' ''server'' HEARTBEAT [] ''pong'' 0"
    obtain ok c2 where s: "net_sendPacket ?pong ?d = (Inr ok, c2)" "view c2 = view ?d" "net_handler c2 = net_handler ?d"
      "net_arrivals c2 = net_arrivals ?d" using sends_same by blast
    have d: "view ?d = view c" "net_handler ?d = net_handler c" "net_arrivals ?d = rest" by (simp_all add: view_def)
    have turn: "readerTurn onPush c = (case a of Got p \<Rightarrow>
        if p_type p = HEARTBEAT then (Inr (), if p_message p = ''ping'' then c2 else ?d)
        else if isPush p then (if net_handler c then onPush p ?d else (Inr (), ?d))
        else (Inr (), ?d\<lparr>net_incoming := net_incoming c @ [p]\<rparr>)
      | ReadFails \<Rightarrow> markLinkDown (c\<lparr>net_arrivals := rest\<rparr>) | Silence \<Rightarrow> (Inr (), c\<lparr>net_arrivals := rest\<rparr>))"
      using readerTurn_eq [OF Cons] s(1) by (cases a) (simp_all add: Let_def)
    have h: "link_of (snd (onPush p ?d)) = link_of ?d" for p using onPush_run [of _ ?d] by (metis snd_conv)
    have hb: "p_type p = HEARTBEAT \<Longrightarrow> \<not> isPush p" for p by (auto simp: isPush_def)
    show "net_handler (snd (readerTurn onPush c)) = net_handler c"
      using turn s(3) h by (cases a) (auto simp: markLinkDown_def link_of_def)
    show "net_arrivals (snd (readerTurn onPush c)) = rest"
      using turn s(4) h by (cases a) (auto simp: markLinkDown_def link_of_def)
    show "view (snd (readerTurn onPush c)) =
        (case a of Got p \<Rightarrow> if isPush p \<and> net_handler c then view (snd (onPush p c)) else view c | _ \<Rightarrow> view c)"
    proof (cases a)
      case (Got p)
      have "view (?d\<lparr>net_incoming := q\<rparr>) = view c" for q by (simp add: view_def)
      then show ?thesis using turn Got s(2) d(1) hb onPush_view [OF d(1)] by simp
    qed (use turn in \<open>simp_all add: markLinkDown_def view_def\<close>)
  qed
qed

interpretation pushed: link_frame "meanwhile c0" for c0
proof
  show "safe (meanwhile c0) (net_sendPacket p)" for p
    using sends_same [of p] meanwhile_same [of c0] by (fastforce intro!: safeI)
  show "meanwhile c0 (snd (readerTurn onPush c))" if "meanwhile c0 c" for c using that by (rule meanwhile_turn)
  show "meanwhile c0 (c\<lparr>net_incoming := ps\<rparr>)" if "meanwhile c0 c" for c ps
    using meanwhile_same [OF that] by (simp add: view_def)
qed

lemma request_returns: "\<exists>r c'. request build t e1 e2 c = (Inr r, c') \<and> meanwhile c c'"
  using pushed.safe_request [of c build t e1 e2] meanwhile_refl by (auto simp: safe_def hoare_def)

section \<open>Requests that fail\<close>

text \<open>A computation that returns an error text, and changes nothing of the session but by pushes unless the
  text is empty.\<close>

definition orderly :: "client \<Rightarrow> (client, string) mon \<Rightarrow> bool" where
  "orderly c m \<longleftrightarrow> (\<exists>e c'. m c = (Inr e, c') \<and> (e \<noteq> [] \<longrightarrow> meanwhile c c'))"

definition returns :: "(client, unit) mon \<Rightarrow> bool" where
  "returns m \<longleftrightarrow> (\<forall>c. \<exists>c'. m c = (Inr (), c'))"

lemma returns_modifyM [simp]: "returns (modifyM f)" and returns_returnM [simp]: "returns (returnM ())"
  by (simp_all add: returns_def)

lemma returns_thenM [simp]: "returns m \<Longrightarrow> returns n \<Longrightarrow> returns (thenM m n)"
  by (auto simp: returns_def thenM_run split: prod.split sum.split) (metis Pair_inject sum.distinct(1))

lemma returns_getsM [simp]: "(\<And>x. returns (f x)) \<Longrightarrow> returns (bindM (getsM g) f)"
  by (simp add: returns_def bindM_run)

lemma orderly_text [simp]: "orderly c (returnM e)"
  by (simp add: orderly_def meanwhile_refl)

lemma orderly_read [simp]: "orderly c (bindM (getsM (\<lambda>c. c)) f) = orderly c (f c)"
  by (simp add: orderly_def bindM_run)

lemma orderly_conclude [simp]:
  assumes "\<And>r. returns (succ r)"
  shows "orderly c (bindM (request build t e1 e2) (conclude fallback succ))"
proof -
  obtain r c1 where r: "request build t e1 e2 c = (Inr r, c1)" "meanwhile c c1"
    using request_returns by blast
  show ?thesis
  proof (cases "\<exists>p. r = Inr p \<and> p_code p = responseCode SUCCESS")
    case True
    then obtain p where p: "r = Inr p" "p_code p = responseCode SUCCESS" by blast
    obtain c2 where "succ p c1 = (Inr (), c2)" using assms [of p] by (auto simp: returns_def)
    then show ?thesis using r p by (simp add: orderly_def conclude_def bindM_run thenM_run)
  next
    case False
    then show ?thesis using r by (cases r) (auto simp: orderly_def conclude_def bindM_run)
  qed
qed

lemma orderly_concludeUser [simp]:
  assumes "\<And>u r. returns (succ u r)"
  shows "orderly c (bindM (request build t e1 e2) (concludeUser fallback invalid succ))"
proof -
  obtain r c1 where r: "request build t e1 e2 c = (Inr r, c1)" "meanwhile c c1"
    using request_returns by blast
  show ?thesis
  proof (cases "\<exists>p u. r = Inr p \<and> handlePacket p = Some u")
    case True
    then obtain p u where p: "r = Inr p" "handlePacket p = Some u" by blast
    obtain c2 where "succ u p c1 = (Inr (), c2)" using assms [of u p] by (auto simp: returns_def)
    then show ?thesis using r p by (simp add: orderly_def concludeUser_def bindM_run thenM_run)
  next
    case False
    then show ?thesis using r by (cases r) (auto simp: orderly_def concludeUser_def bindM_run split: option.splits)
  qed
qed

text \<open>C20: a request of the client returns, throwing nothing: its wait has no time-out, but it ends with the
  link, which the supervisor closes when it stays silent. A request that ends with an error text,
  whether the client refused it itself, the server refused it or the connection broke, changes nothing
  of the session (the user, the current room, the room directory and the pending chat) by itself:
  afterwards the session is the one before with exactly the pushes applied that were read meanwhile.\<close>

theorem failed_requests_change_nothing:
  "\<exists>e c'. perform k c = (Inr e, c') \<and> (e \<noteq> [] \<longrightarrow>
     (\<exists>pre. net_arrivals c = pre @ net_arrivals c' \<and>
        session_of c' = session_of (hear (if net_handler c then pushes_in pre else []) c)))"
proof -
  have "orderly c (perform k)"
    by (cases k) (simp_all add: client_joinRoom_def client_leaveRoom_def client_login_def client_signUp_def client_logout_def
        client_createRoom_def client_inviteToRoom_def client_kickFromRoom_def client_deleteRoom_def client_updateProfile_def
        client_sendMessage_def setCurrentRoom_def enterAs_def applyRoomDirectory_def state_clear_def clearPendingChatMessages_def
        Let_def split: option.split)
  moreover have "session_of x = session_of y" if "view x = view y" for x y using that by (simp add: view_def session_of_def)
  ultimately show ?thesis unfolding orderly_def meanwhile_def by blast
qed

definition refused_client :: client where
  "refused_client = waiting_client\<lparr>net_arrivals := [Got (mkPacket 8 ''bob'' [] MESSAGE ''Lobby'' ''hi'' 0), Got (mkPacket 9 ''server'' ''ada'' LOGIN [] ''bad password'' 404)]\<rparr>"

text \<open>The witness: a chat line arrives, then the refusal.\<close>

theorem failed_requests_change_nothing_witness:
  "\<exists>c'. perform (Login ''ada'' ''pw'') refused_client = (Inr ''bad password'', c') \<and> st_user c' = st_user refused_client \<and>
     c_pendingChat c' = [\<lparr>cl_author = ''bob'', cl_text = ''hi'', cl_timestamp = 8\<rparr>]"
proof -
  let ?chat = "mkPacket 8 ''bob'' [] MESSAGE ''Lobby'' ''hi'' 0"
  let ?no = "mkPacket 9 ''server'' ''ada'' LOGIN [] ''bad password'' 404"
  have l: "linked refused_client"
    by (simp add: linked_def refused_client_def waiting_client_def fresh_client_def heartbeatMissed_def INVALID_SOCKET_def HEARTBEAT_TIMEOUT_def)
  have a: "net_arrivals refused_client = [Got ?chat, Got ?no]" "net_handler refused_client" "clk_s refused_client = 1"
    "\<not> net_writesFail refused_client" "c_pendingChat refused_client = []" "st_currentRoom refused_client = None"
    by (simp_all add: refused_client_def waiting_client_def fresh_client_def)
  have p: "isPush ?chat" "\<not> isPush ?no" "p_type ?no = LOGIN" by (simp_all add: isPush_def mkPacket_def)
  have b: "buildLogin 1 ''ada'' ''pw'' = Inr (mkPacket 1 ''ada'' [] LOGIN [] ''pw'' 0)" "sendable (mkPacket 1 ''ada'' [] LOGIN [] ''pw'' 0)"
    by (simp_all add: buildLogin_def mkPacket_def sendable_def length_serializePayload MAX_PAYLOAD_BYTES_def isValidPacketType_iff)
  obtain c' where c': "request (\<lambda>now. buildLogin now ''ada'' ''pw'') LOGIN
      ''Failed to send login request.'' ''Connection lost while logging in.'' refused_client = (Inr (Inr ?no), c')" "net_arrivals c' = []"
    using request_answered [OF l, of "\<lambda>now. buildLogin now ''ada'' ''pw''" "mkPacket 1 ''ada'' [] LOGIN [] ''pw'' 0" "[?chat]" ?no "[]" LOGIN]
      a p b by auto
  have "client_isAlive refused_client" "\<not> isLoggedIn refused_client" using l
    by (simp_all add: linked_def client_isAlive_def isLoggedIn_def refused_client_def waiting_client_def fresh_client_def)
  then have run: "perform (Login ''ada'' ''pw'') refused_client = (Inr ''bad password'', c')"
    using c'(1) by (simp add: client_login_def bindM_run concludeUser_def handlePacket_def client_handleLogin_def mkPacket_def)
  then have "session_of c' = session_of (hear (pushes_in [Got ?chat, Got ?no]) refused_client)"
    using failed_requests_change_nothing [of "Login ''ada'' ''pw''" refused_client] c'(2) a(1,2) by auto
  also have "\<dots> = session_of (snd (onPush ?chat refused_client))" using p by (simp add: pushes_in_def hear_def)
  finally show ?thesis
    using run a by (simp add: session_of_def onPush_def enqueueChatPush_def mkPacket_def)
qed

end
