(* ===== verification/End_To_End.thy ===== *)
theory End_To_End
  imports Presence_Theorems Client_Calls
begin

text \<open>
  A client and a node together: the request one builds is the packet the other processes, and the reply one
  returns is the packet the other reads.
\<close>

lemma lobby_agree: "lobby_room = LOBBY"
  by (simp add: lobby_room_def LOBBY_def)

text \<open>C5: a login from the client to the node and back: with the right password of a user who is not logged
  in, the node answers the packet the client sends so that both ends agree, whatever pushes arrive before
  the reply: the client ends as the stored user in the room of its session on the node, which is
  authenticated as the same user, and with the rooms the node knows. The ids of the two events are new
  to the node, they and the room name fit the fields of an event, and the names of the user and of the
  rooms are free of the separators of the format and of NUL.\<close>

theorem login_end_to_end:
  assumes "reach enabled (node_exec A) (booted cfg) n" and "map_of (sessions n) fd = Some s" and "fd \<noteq> INVALID_SOCKET"
    and "find (\<lambda>r. ur_username r = u) (t_users (n_db n)) = Some r"
    and "checkPassword A password (c_str (ur_password r))" and "\<not> logged_in n (user_of_row r)"
    and "nul_free u" and "u \<noteq> []" and "gossip_wired n" and "nodeId n \<noteq> []"
    and "i = next_id n ''LOGIN'' u" and "j = next_id (n\<lparr>nextPresenceSeq := nextPresenceSeq n + 1\<rparr>) ''ROOM_JOIN'' u"
    and "i \<notin> set (seenEvents n)" and "j \<notin> set (seenEvents n)" and "short i" and "short j" and "short (ro_name (cs_room s))"
    and "linked c" and "\<not> isLoggedIn c" and "\<not> net_writesFail c" and "password \<noteq> []"
    and "sendable (mkPacket (clk_s c) u [] LOGIN [] password 0)" and "\<forall>p\<in>set ps. isPush p"
    and "bar_free (u_username (user_of_row r))" and "bar_free (u_email (user_of_row r))" and "\<forall>r\<in>set (map snd (knownRooms n)). listable r"
  shows "\<exists>m n' c' s'. processPacket A (mkPacket (clk_s c) u [] LOGIN [] password 0) fd n = (Inr m, n') \<and>
    client_login u password (c\<lparr>net_arrivals := map Got ps @ Got m # rest\<rparr>) = (Inr [], c') \<and>
    net_sent c' = net_sent c @ [mkPacket (clk_s c) u [] LOGIN [] password 0] \<and>
    map_of (sessions n') fd = Some s' \<and> cs_authenticated s' \<and> st_user c' = Some (cs_user s') \<and> cs_user s' = user_of_row r \<and>
    st_currentRoom c' = Some (cs_room s') \<and> st_rooms c' = map snd (knownRooms n)"
proof -
  let ?p = "mkPacket (clk_s c) u [] LOGIN [] password 0"
  have row: "ur_username r = u" using assms(4) by (simp add: find_Some_iff) blast
  obtain m n' where m: "processPacket A ?p fd n = (Inr m, n')" "p_code m = responseCode SUCCESS"
    "p_message m = user_serialize (user_of_row r)" "p_type m = LOGIN" "p_room m = serializeList (map snd (knownRooms n))" "logged_on fd s r n n'"
    using login_run_full [OF assms(1-3), of ?p r u i j] assms row by (auto simp: mkPacket_def)
  let ?c = "c\<lparr>net_arrivals := map Got ps @ Got m # rest\<rparr>"
  have l: "linked ?c" "\<not> isLoggedIn ?c" "\<not> net_writesFail ?c" "sendable (mkPacket (clk_s ?c) u [] LOGIN [] password 0)"
    "net_arrivals ?c = map Got ps @ Got m # rest"
    using assms(18,19,20,22) by (simp_all add: linked_def heartbeatMissed_def isLoggedIn_def)
  obtain c' where "client_login u password ?c = (Inr [], c')" "st_user c' = Some (user_of_row r)" "st_currentRoom c' = Some lobby_room"
    "st_rooms c' = map snd (knownRooms n)" "net_sent c' = net_sent c @ [?p]"
    using login_adopts_reply [OF l(1-3) assms(8,21) l(4,5) assms(23) m(4,2,3,5) assms(24-26)] by auto
  then show ?thesis using m(1,6) by (auto simp: logged_on_def lobby_agree)
qed

definition admin_password :: string where
  "admin_password = c_str (ur_password admin_row)"

lemma admin_password_facts: "admin_password \<noteq> []" "length admin_password = 97"
  by (simp_all add: admin_password_def admin_row_def new_db_eq empty_db_def sql_init_def seed_user_def seed_room_def c_str_def)

theorem login_end_to_end_witness:
  "\<exists>m n' c' s'. processPacket plain_argon2 (mkPacket 1 ''admin'' [] LOGIN [] admin_password 0) 5 one_client = (Inr m, n') \<and>
    client_login ''admin'' admin_password (waiting_client\<lparr>net_arrivals := [Got m]\<rparr>) = (Inr [], c') \<and>
    map_of (sessions n') 5 = Some s' \<and> st_user c' = Some (cs_user s') \<and> st_rooms c' = [LOBBY, GENERAL]"
proof -
  have c: "checkPassword plain_argon2 admin_password (c_str (ur_password admin_row))"
    by (simp add: plain_argon2_def checkPassword_def admin_password_def)
  have l: "\<not> logged_in one_client (user_of_row admin_row)"
    by (simp add: logged_in_def one_client_facts mkSession_def new_db_tables)
  have s: "map_of (sessions one_client) 5 = Some (mkSession 5 (anonymousUser 0) LOBBY 0)" by (simp add: one_client_facts)
  have w: "linked waiting_client" "\<not> isLoggedIn waiting_client" "\<not> net_writesFail waiting_client" "clk_s waiting_client = 1" "net_sent waiting_client = []"
    by (simp_all add: linked_def waiting_client_def fresh_client_def heartbeatMissed_def INVALID_SOCKET_def HEARTBEAT_TIMEOUT_def isLoggedIn_def)
  have z: "sendable (mkPacket 1 ''admin'' [] LOGIN [] admin_password 0)"
    by (simp add: sendable_def length_serializePayload MAX_PAYLOAD_BYTES_def isValidPacketType_iff mkPacket_def admin_password_facts)
  have k: "\<forall>r\<in>set (map snd (knownRooms one_client)). listable r"
    by (simp add: one_client_facts listable_def LOBBY_def GENERAL_def mkRoom_def)
  have b: "bar_free (u_username (user_of_row admin_row))" "bar_free (u_email (user_of_row admin_row))"
    by (simp_all add: user_of_row_def admin_row_facts c_str_def)
  have i: "next_id one_client ''LOGIN'' ''admin'' = ''node1-LOGIN-admin-0-1''"
    "next_id (one_client\<lparr>nextPresenceSeq := nextPresenceSeq one_client + 1\<rparr>) ''ROOM_JOIN'' ''admin'' = ''node1-ROOM_JOIN-admin-0-2''"
    by (simp_all add: next_id_def nodeId_def one_client_facts default_config_def nat_to_string.simps int_to_string_def small_digits)
  have "short (ro_name (cs_room (mkSession 5 (anonymousUser 0) LOBBY 0)))" by (simp add: mkSession_def LOBBY_def mkRoom_def)
  from login_end_to_end [OF one_client_reach s _ _ c l _ _ _ _ i [symmetric] _ _ _ _ this w(1-3) admin_password_facts(1) _ _ b k, of "[]" "[]"]
  show ?thesis
    using z w by (fastforce simp: one_client_facts admin_row_facts INVALID_SOCKET_def nodeId_def default_config_def)
qed

end
