(* ===== verification/Failover.thy ===== *)
theory Failover
  imports Reconnect_Theorems End_To_End
begin

text \<open>
  A session across the failure of a node: what \<open>resumeSession\<close> of the client and the RECONNECT handler of
  the node it lands on do together.
\<close>

declare map_of_eq_Some_iff [simp del] Some_eq_map_of_iff [simp del]

text \<open>The packet with which a client asks a node for its session.\<close>

definition reconnect_request :: "client \<Rightarrow> user \<Rightarrow> room \<Rightarrow> packet" where
  "reconnect_request c v rm = mkPacket (clk_s c) (u_username v) [] RECONNECT (if ro_name rm = [] then ''Lobby'' else ro_name rm) [] 0"

lemma resume_answered:
  assumes c: "linked c" "isLoggedIn c" "\<not> net_writesFail c" "\<not> c_stopRequested c" "st_user c = Some v" "st_currentRoom c = Some rm"
    and q: "u_username v \<noteq> []" "sendable (reconnect_request c v rm)"
    and a: "net_arrivals c = map Got ps @ Got r # rest" "\<forall>p\<in>set ps. isPush p \<and> impersonal p"
    and r: "p_type r = RECONNECT" "p_code r = responseCode SUCCESS" "p_room r = serializeList rooms" "rooms \<noteq> []" "\<forall>r\<in>set rooms. listable r"
  shows "\<exists>c'. resumeSession b c = (Inr (), c') \<and> st_user c' = Some v \<and> st_currentRoom c' = Some rm \<and> st_rooms c' = rooms \<and>
    net_sent c' = net_sent c @ [reconnect_request c v rm]"
proof -
  let ?q = "reconnect_request c v rm" and ?c = "c\<lparr>c_resumePending := False\<rparr>"
  let ?d = "?c\<lparr>net_sent := net_sent c @ [?q]\<rparr>"
  have build: "buildReconnect (clk_s ?c) (client_username ?c) (case st_currentRoom ?c of None \<Rightarrow> ''Lobby'' | Some r \<Rightarrow> ro_name r) = Inr ?q"
    using c q(1) by (simp add: buildReconnect_def client_username_def reconnect_request_def)
  have send: "net_sendPacket ?q ?c = (Inr True, ?d)"
    using c q(2) by (simp add: net_sendPacket_def bindM_run thenM_run linked_def serialize_Nil_iff)
  obtain c' where c': "receivePacket True ?d = (Inr (Some r), c')" "link_of c' = link_of (?d\<lparr>net_arrivals := rest\<rparr>)" "identity c' = identity ?d"
    using receive_after_pushes [of ?d ps r rest True] c a r(1) by (auto simp: linked_def isPush_def isLoggedIn_def)
  have "serializeList rooms \<noteq> []"
    using r(4) by (cases rooms; cases "tl rooms"; simp add: serializeList_def room_serialize_def)
  moreover have "waitFor True RECONNECT ?d = (Inr (Some r), c')" using c'(1) r(1) by (simp add: waitFor.simps)
  ultimately have "resumeAttempts b ?q (Suc k) False ?c = (Inr (), c'\<lparr>st_rooms := rooms\<rparr>)" for k
    using c(4) send r deserializeList_serializeList [OF r(5)] by (simp add: bindM_run applyRoomDirectory_def)
  from this [of 4] have "resumeSession b c = (Inr (), c'\<lparr>st_rooms := rooms\<rparr>)"
    using c build by (simp add: resumeSession_def bindM_run thenM_run isLoggedIn_def kAttempts_def)
  then show ?thesis using c'(2,3) c by (simp add: link_of_def identity_def)
qed

text \<open>Whether a node knows the room a client asks for and lets the user in.\<close>

definition open_to :: "node \<Rightarrow> user \<Rightarrow> string \<Rightarrow> bool" where
  "open_to n v name \<longleftrightarrow> (case map_of (knownRooms n) name of
     None \<Rightarrow> False
   | Some r \<Rightarrow> ro_privacy r \<noteq> PRIVATE \<or> u_type v = ADMIN \<or>
       (\<exists>a\<in>set (t_allow (n_db n)). al_room a = ro_id r \<and> al_email a = u_email v))"

lemma resume_room_open:
  assumes "rooms_known n" and "cs_user s = v" "cs_authenticated s"
  shows "ro_name (resume_room n s name) = (if open_to n v name then name else ro_name LOBBY)"
proof -
  have "ro_name r = name" if "map_of (knownRooms n) name = Some r" for r
    using assms(1) that by (auto simp: rooms_known_def dest: map_of_SomeD)
  then show ?thesis using assms(2,3) by (auto simp: resume_room_def open_to_def admitted_def isAdmin_def split: option.split)
qed

text \<open>C6: a session survives the failure of a node. A logged-in client whose link moved to a node where its
  presence can be claimed sends one RECONNECT packet with its name and room; the node answers it so that the
  session it serves is authenticated as the same user, and the client, whatever messages, directories and
  guest welcomes arrive before the reply, keeps its user and its room and takes over the rooms of the node.
  The session on the node is in the room the client shows when the node knows it and lets the user in;
  otherwise it is in the Lobby, and the client still shows the old room. The ids of the two events are
  new to the node, they and the room name fit the fields of an event, the request fits a packet, and
  the names are free of the separators of the format and of NUL.\<close>

theorem session_survives_failover:
  assumes "reach enabled (node_exec A) (booted cfg) n" and "map_of (sessions n) fd = Some s" and "fd \<noteq> INVALID_SOCKET"
    and "find (\<lambda>r. ur_username r = u) (t_users (n_db n)) = Some r" and "claimable n (user_of_row r)"
    and "nul_free u" and "u \<noteq> []" and "nul_free (ur_email r)" and "gossip_wired n" and "nodeId n \<noteq> []"
    and "i = next_id n ''RECONNECT'' u" and "i \<notin> set (seenEvents n)" and "short i"
    and "j = next_id (n\<lparr>nextPresenceSeq := nextPresenceSeq n + 1\<rparr>) ''ROOM_JOIN'' u" and "j \<notin> set (seenEvents n)" and "short j"
    and "short (ro_name (cs_room s))"
    and "linked c" and "isLoggedIn c" and "\<not> net_writesFail c" and "\<not> c_stopRequested c"
    and "st_user c = Some (user_of_row r)" and "st_currentRoom c = Some rm" and "ro_name rm \<noteq> []"
    and "sendable (reconnect_request c (user_of_row r) rm)"
    and "\<forall>p\<in>set ps. isPush p \<and> impersonal p" and "\<forall>r\<in>set (map snd (knownRooms n)). listable r"
  shows "\<exists>m n' c' s'. processPacket A (reconnect_request c (user_of_row r) rm) fd n = (Inr m, n') \<and>
    resumeSession b (c\<lparr>net_arrivals := map Got ps @ Got m # rest\<rparr>) = (Inr (), c') \<and>
    net_sent c' = net_sent c @ [reconnect_request c (user_of_row r) rm] \<and>
    map_of (sessions n') fd = Some s' \<and> cs_authenticated s' \<and> cs_user s' = user_of_row r \<and>
    st_user c' = Some (cs_user s') \<and> st_currentRoom c' = Some rm \<and> st_rooms c' = map snd (knownRooms n) \<and>
    ro_name (cs_room s') = (if open_to n (user_of_row r) (ro_name rm) then ro_name rm else ro_name LOBBY)"
proof -
  let ?v = "user_of_row r" and ?s = "s\<lparr>cs_user := user_of_row r, cs_authenticated := True\<rparr>"
  let ?p = "reconnect_request c ?v rm" and ?R = "resume_room n ?s (ro_name rm)"
  have row: "ur_username r = u" using assms(4) by (simp add: find_Some_iff) blast
  have v: "u_username ?v = u" using row assms(6) by (simp add: user_of_row_def)
  have rooms: "rooms_known n" "knownRooms n \<noteq> []"
    using node.reach_inv [OF assms(1) booted_ok] by (auto simp: node_inv_def rooms_known_def)
  have p: "p_type ?p = RECONNECT" "p_room ?p = ro_name rm" "p_sender ?p = u"
    using assms(24) v by (simp_all add: reconnect_request_def mkPacket_def)
  obtain n' where n': "processPacket A ?p fd n = (Inr ((reply (response_to n ?p) SUCCESS (user_serialize ?v))
      \<lparr>p_room := serializeList (map snd (knownRooms n))\<rparr>), n')" "resumed fd s r ?R n n'"
    using reconnect_run [OF assms(1-3) p(1) _ assms(5) row assms(6-10) assms(11-17), of ?R] p(2,3) assms(4,24) by auto
  let ?m = "(reply (response_to n ?p) SUCCESS (user_serialize ?v))\<lparr>p_room := serializeList (map snd (knownRooms n))\<rparr>"
  let ?c = "c\<lparr>net_arrivals := map Got ps @ Got ?m # rest\<rparr>"
  have m: "p_type ?m = RECONNECT" "p_code ?m = responseCode SUCCESS" "p_room ?m = serializeList (map snd (knownRooms n))" "map snd (knownRooms n) \<noteq> []"
    using p(1) rooms(2) by (simp_all add: reply_def response_to_def)
  have c: "linked ?c" "isLoggedIn ?c" "\<not> net_writesFail ?c" "\<not> c_stopRequested ?c" "st_user ?c = Some ?v" "st_currentRoom ?c = Some rm"
    "reconnect_request ?c ?v rm = ?p" "net_sent ?c = net_sent c" "net_arrivals ?c = map Got ps @ Got ?m # rest"
    using assms(18-23) by (simp_all add: linked_def isLoggedIn_def heartbeatMissed_def reconnect_request_def)
  obtain c' where "resumeSession b ?c = (Inr (), c')" "st_user c' = Some ?v" "st_currentRoom c' = Some rm"
    "st_rooms c' = map snd (knownRooms n)" "net_sent c' = net_sent c @ [?p]"
    using resume_answered [OF c(1-6) _ _ c(9) assms(26) m assms(27), of b] c(7,8) v assms(7,25) by auto
  moreover have "ro_name ?R = (if open_to n ?v (ro_name rm) then ro_name rm else ro_name LOBBY)"
    using resume_room_open [OF rooms(1)] by simp
  ultimately show ?thesis using n' by (auto simp: resumed_def)
qed

definition failed_over_client :: client where
  "failed_over_client = waiting_client\<lparr>st_user := Some (user_of_row admin_row), st_currentRoom := Some GENERAL\<rparr>"

lemma admin_type: "u_type (user_of_row admin_row) = ADMIN"
  by (simp add: user_of_row_def admin_row_def new_db_eq empty_db_def sql_init_def seed_user_def seed_room_def c_str_def stringToType_def userTypeToStringMap_def)

theorem session_survives_failover_witness:
  "\<exists>m n' c' s'. processPacket plain_argon2 (reconnect_request failed_over_client (user_of_row admin_row) GENERAL) 5 away_node = (Inr m, n') \<and>
     resumeSession True (failed_over_client\<lparr>net_arrivals := [Got m]\<rparr>) = (Inr (), c') \<and>
     map_of (sessions n') 5 = Some s' \<and> st_user c' = Some (cs_user s') \<and> ro_name (cs_room s') = ''General''"
proof -
  let ?c = failed_over_client and ?v = "user_of_row admin_row" and ?s = "mkSession 5 (anonymousUser 0) LOBBY 0"
  have ids: "next_id away_node ''RECONNECT'' ''admin'' = ''node1-RECONNECT-admin-0-1''"
    "next_id (away_node\<lparr>nextPresenceSeq := nextPresenceSeq away_node + 1\<rparr>) ''ROOM_JOIN'' ''admin'' = ''node1-ROOM_JOIN-admin-0-2''"
    by (simp_all add: next_id_def nodeId_def away_node_facts default_config_def nat_to_string.simps int_to_string_def small_digits)
  have new: "''node1-RECONNECT-admin-0-1'' \<notin> set (seenEvents away_node)" "''node1-ROOM_JOIN-admin-0-2'' \<notin> set (seenEvents away_node)"
    using away_node_facts(8) by auto
  have row: "find (\<lambda>r. ur_username r = ''admin'') (t_users (n_db away_node)) = Some admin_row"
    by (simp add: away_node_facts admin_row_facts)
  have s: "map_of (sessions away_node) 5 = Some ?s" by (simp add: away_node_facts)
  have sh: "short (ro_name (cs_room ?s))" by (simp add: mkSession_def LOBBY_def mkRoom_def)
  have c: "linked ?c" "isLoggedIn ?c" "\<not> net_writesFail ?c" "\<not> c_stopRequested ?c" "st_user ?c = Some ?v" "st_currentRoom ?c = Some GENERAL"
    by (simp_all add: linked_def failed_over_client_def waiting_client_def fresh_client_def heartbeatMissed_def INVALID_SOCKET_def
        HEARTBEAT_TIMEOUT_def isLoggedIn_def admin_type)
  have g: "ro_name GENERAL = ''General''" by (simp add: GENERAL_def mkRoom_def)
  have z: "sendable (reconnect_request ?c ?v GENERAL)"
    by (simp add: sendable_def length_serializePayload MAX_PAYLOAD_BYTES_def isValidPacketType_iff mkPacket_def reconnect_request_def g
        user_of_row_def admin_row_facts c_str_def)
  have k: "\<forall>r\<in>set (map snd (knownRooms away_node)). listable r"
    by (simp add: away_node_facts listable_def LOBBY_def GENERAL_def mkRoom_def)
  have o: "open_to away_node ?v ''General''" by (simp add: open_to_def away_node_facts g admin_type LOBBY_def mkRoom_def)
  have "nodeId away_node \<noteq> []" by (simp add: nodeId_def away_node_facts default_config_def)
  then show ?thesis
    using session_survives_failover [OF away_node_reach s _ row away_node_facts(10) _ _ _ away_node_facts(5) _ ids(1) [symmetric] new(1) _
        ids(2) [symmetric] new(2) _ sh c _ z _ k, of "[]" True "[]"] o
    by (auto simp: INVALID_SOCKET_def admin_row_facts g)
qed

end
