(* ===== verification/Console.thy ===== *)
theory Console
  imports Supervisor
begin

text \<open>
  The console of the client (src/client/console_ui.cpp and \<open>Client::showDashboard\<close>). The terminal is the
  list of lines that will be typed (its end is the end of the input) and the text printed so far. Every
  screen is a computation on the terminal; \<open>showDashboard\<close> runs on the client together with the terminal.
\<close>

record terminal =
  tm_in :: "string list"
  tm_out :: string

definition nl :: string where "nl = [CHR 0x0A]"

definition say :: "string \<Rightarrow> (terminal, unit) mon" where
  "say s = modifyM (\<lambda>t. t\<lparr>tm_out := tm_out t @ s\<rparr>)"

text \<open>\<open>std::getline\<close>: nothing at the end of the input.\<close>

definition getLine :: "(terminal, string option) mon" where
  "getLine =
     bindM (getsM tm_in) (\<lambda>ls. case ls of
        [] \<Rightarrow> returnM None
      | l # rest \<Rightarrow> thenM (modifyM (\<lambda>t. t\<lparr>tm_in := rest\<rparr>)) (returnM (Some l)))"

section \<open>Reading a choice or a value\<close>

definition MIN_MENU_CHOICE :: int where "MIN_MENU_CHOICE = 1"
definition MAX_MENU_CHOICE :: int where "MAX_MENU_CHOICE = 3"
definition MIN_USER_CHOICE :: int where "MIN_USER_CHOICE = 1"
definition MAX_USER_CHOICE :: int where "MAX_USER_CHOICE = 8"
definition MAX_ADMIN_CHOICE :: int where "MAX_ADMIN_CHOICE = 10"

definition tryReadMenuChoice :: "int \<Rightarrow> int \<Rightarrow> (terminal, int option) mon" where
  "tryReadMenuChoice lo hi =
     thenM (say ''Enter your choice: '')
    (bindM getLine (\<lambda>line. case line of
       None \<Rightarrow> returnM (Some hi)
     | Some l \<Rightarrow>
         (case std_stoi l of
            Some answer \<Rightarrow> if answer \<ge> lo \<and> answer \<le> hi then thenM (say nl) (returnM (Some answer)) else returnM None
          | None \<Rightarrow> returnM None)))"

lemma tryReadMenuChoice_None: "tryReadMenuChoice lo hi t = (Inr None, t') \<Longrightarrow> length (tm_in t') < length (tm_in t)"
  by (auto simp: tryReadMenuChoice_def getLine_def say_def bindM_run thenM_run split: list.splits option.splits if_splits)

text \<open>The loop of the two menus: the menu is printed again until the choice is valid.\<close>

function menuLoop :: "string \<Rightarrow> int \<Rightarrow> int \<Rightarrow> (terminal, int) mon" where
  "menuLoop menu lo hi t =
     (case thenM (say menu) (tryReadMenuChoice lo hi) t of
        (Inl e, t') \<Rightarrow> (Inl e, t')
      | (Inr (Some answer), t') \<Rightarrow> (Inr answer, t')
      | (Inr None, t') \<Rightarrow>
          menuLoop menu lo hi (t'\<lparr>tm_out := tm_out t' @ nl @ ''Invalid choice. Please enter a valid choice.'' @ nl @ nl\<rparr>))"
  by pat_completeness auto
termination
  by (relation "measure (\<lambda>(menu, lo, hi, t). length (tm_in t))")
     (auto simp: thenM_run say_def dest: tryReadMenuChoice_None [OF sym])

declare menuLoop.simps [simp del]

function readLine :: "string \<Rightarrow> (terminal, string option) mon" where
  "readLine prompt t =
     (case thenM (say prompt) getLine t of
        (Inl e, t') \<Rightarrow> (Inl e, t')
      | (Inr None, t') \<Rightarrow> (Inr None, t')
      | (Inr (Some line), t') \<Rightarrow>
          let t' = t'\<lparr>tm_out := tm_out t' @ nl\<rparr> in
          if line = ''exit'' then (Inr None, t')
          else if line = [] then readLine prompt (t'\<lparr>tm_out := tm_out t' @ ''>> Value cannot be empty.'' @ nl\<rparr>)
          else (Inr (Some line), t'))"
  by pat_completeness auto
termination
  by (relation "measure (\<lambda>(prompt, t). length (tm_in t))")
     (auto simp: thenM_run bindM_run say_def getLine_def split: list.splits)

declare readLine.simps [simp del]

section \<open>Menus\<close>

definition rule_line :: string where "rule_line = ''--------------------------------''"

definition lines_of :: "string list \<Rightarrow> string" where
  "lines_of ls = concat (map (\<lambda>l. l @ nl) ls)"

definition showHomeScreen :: "(terminal, int) mon" where
  "showHomeScreen =
     menuLoop (lines_of [''=== Distributed Chat Application ==='', ''Welcome to the distributed chat application.'',
       ''Please enter an action:'', ''1. Login'', ''2. Register'', ''3. Exit'', rule_line])
       MIN_MENU_CHOICE MAX_MENU_CHOICE"

definition showUserDashboard :: "client \<Rightarrow> (terminal, int) mon" where
  "showUserDashboard c =
     (case st_user c of
        None \<Rightarrow> returnM (- 1)
      | Some user \<Rightarrow>
          let admin = (u_type user = ADMIN) in
          menuLoop (lines_of ([''=== User Dashboard ==='', ''Welcome '' @ u_username user @ ''.''] @
              (case st_currentRoom c of None \<Rightarrow> [] | Some r \<Rightarrow> [''Current room: '' @ ro_name r @ ''.'']) @
              [''1. Update Profile'', ''2. Join Room'', ''3. Leave Room'', ''4. Send Message'', ''5. Create Room'',
               ''6. Load Message History'', ''7. Invite to Room''] @
              (if admin then [''8. Kick from Room'', ''9. Delete Room'', ''10. Logout''] else [''8. Logout'']) @ [rule_line]))
            MIN_USER_CHOICE (if admin then MAX_ADMIN_CHOICE else MAX_USER_CHOICE))"

section \<open>Forms\<close>

text \<open>The end of every form: the packet built, or the message of the exception printed.\<close>

definition built :: "exn + packet \<Rightarrow> (terminal, packet option) mon" where
  "built r = (case r of Inr p \<Rightarrow> returnM (Some p) | Inl e \<Rightarrow> thenM (say (''>> '' @ what e @ nl)) (returnM None))"

text \<open>A value of a form; the form is left when there is none.\<close>

definition ask :: "string \<Rightarrow> (string \<Rightarrow> (terminal, packet option) mon) \<Rightarrow> (terminal, packet option) mon" where
  "ask prompt k = bindM (readLine prompt) (\<lambda>v. case v of None \<Rightarrow> returnM None | Some s \<Rightarrow> k s)"

definition showLogin :: "u64 \<Rightarrow> (terminal, packet option) mon" where
  "showLogin now =
     thenM (say (''>> Please login:'' @ nl))
       (ask ''>> Username (type 'exit' to go back): '' (\<lambda>username.
        ask ''>> Password (type 'exit' to go back): '' (\<lambda>password.
        built (buildLogin now username password))))"

definition showRegister :: "u64 \<Rightarrow> (terminal, packet option) mon" where
  "showRegister now =
     thenM (say (''>> Please register:'' @ nl))
       (ask ''>> New username (type 'exit' to go back): '' (\<lambda>username.
        ask ''>> New password (type 'exit' to go back): '' (\<lambda>password.
        ask ''>> New email (type 'exit' to go back): '' (\<lambda>email.
        built (buildRegister now username password email)))))"

definition dash :: string where "dash = [CHR 0xE2, CHR 0x80, CHR 0x94]"

definition showJoinRoom :: "u64 \<Rightarrow> client \<Rightarrow> (terminal, packet option) mon" where
  "showJoinRoom now c =
     (if st_user c = None then returnM None
      else
        thenM (say (''>> Available rooms:'' @ nl))
       (thenM (say (if st_rooms c = [] then ''   (none cached '' @ dash @ '' type a room name anyway)'' @ nl
                    else lines_of (map (\<lambda>r. ''   - '' @ ro_name r @ '' ('' @ roomTypeToString (ro_type r) @ '', '' @
                           privacyToString (ro_privacy r) @ '')'') (st_rooms c))))
       (ask ''>> Which room do you want to join? (type 'exit' to go back): '' (\<lambda>roomName.
        built (buildJoinRoom now (client_username c) roomName)))))"

definition showCreateRoom :: "u64 \<Rightarrow> user \<Rightarrow> (terminal, packet option) mon" where
  "showCreateRoom now user =
     thenM (say (lines_of [''>> Create room:'', ''1. Public Room'', ''2. Private Room'', ''3. Back'', rule_line]))
    (bindM (tryReadMenuChoice 1 3) (\<lambda>answer.
       if answer = None \<or> answer = Some 3 then returnM None
       else
         let roomPrivacy = (if answer = Some 1 then privacyToString PUBLIC else privacyToString PRIVATE) in
         ask ''>> New room name (type 'exit' to go back): '' (\<lambda>roomName.
         built (buildCreateRoom now (u_username user) roomName roomPrivacy))))"

text \<open>The room of an invitation or a kick: the current one, or one that is asked for.\<close>

definition roomOrAsk :: "client \<Rightarrow> string \<Rightarrow> string \<Rightarrow> (string \<Rightarrow> (terminal, packet option) mon) \<Rightarrow> (terminal, packet option) mon" where
  "roomOrAsk c note prompt k =
     (if st_currentRoom c \<noteq> None \<and> client_roomName c \<noteq> [] then thenM (say (note @ client_roomName c @ nl)) (k (client_roomName c))
      else ask prompt k)"

definition showInviteToRoom :: "u64 \<Rightarrow> client \<Rightarrow> (terminal, packet option) mon" where
  "showInviteToRoom now c =
     (if st_user c = None then returnM None
      else
        roomOrAsk c ''>> Inviting into current room: '' ''>> Room to invite into (type 'exit' to go back): '' (\<lambda>room.
        ask ''>> Username to invite (type 'exit' to go back): '' (\<lambda>invitee.
        built (buildInviteToRoom now (client_username c) room invitee))))"

definition showKickFromRoom :: "u64 \<Rightarrow> client \<Rightarrow> (terminal, packet option) mon" where
  "showKickFromRoom now c =
     (if st_user c = None then returnM None
      else
        roomOrAsk c ''>> Kicking from current room: '' ''>> Room to kick from (type 'exit' to go back): '' (\<lambda>room.
        ask ''>> Username to kick (type 'exit' to go back): '' (\<lambda>target.
        built (buildKickFromRoom now (client_username c) room target))))"

definition showDeleteRoom :: "u64 \<Rightarrow> client \<Rightarrow> (terminal, packet option) mon" where
  "showDeleteRoom now c =
     (if st_user c = None then returnM None
      else
        let finish = (\<lambda>room. built (buildDeleteRoom now (client_username c) room)) in
        if st_currentRoom c \<noteq> None \<and> client_roomName c \<noteq> ''Lobby'' \<and> client_roomName c \<noteq> ''General'' then
          thenM (say (''>> Deleting current room: '' @ client_roomName c @ nl)) (finish (client_roomName c))
        else ask ''>> Room to delete (type 'exit' to go back): '' finish)"

definition showCreateMessage :: "u64 \<Rightarrow> user \<Rightarrow> (terminal, packet option) mon" where
  "showCreateMessage now user =
     ask ''>> What do you want to say? (type 'exit' to go back): '' (\<lambda>message.
     built (buildMessage now (u_username user) message))"

definition showUpdateProfile :: "u64 \<Rightarrow> user \<Rightarrow> (terminal, packet option) mon" where
  "showUpdateProfile now user =
     thenM (say (lines_of [''>> Update profile for '' @ u_username user @ '' ('' @ u_email user @ '')'',
                           ''1. Update username'', ''2. Update password'', ''3. Back'', rule_line]))
    (bindM (tryReadMenuChoice 1 3) (\<lambda>answer.
       if answer = None \<or> answer = Some 3 then returnM None
       else if answer = Some 1 then
         ask ''>> New username (type 'exit' to go back): '' (\<lambda>newUsername.
         built (buildUpdateUser now newUsername [] (u_email user)))
       else if answer = Some 2 then
         ask ''>> New password (type 'exit' to go back): '' (\<lambda>newPassword.
         built (buildUpdateUser now (u_username user) newPassword (u_email user)))
       else returnM None))"

section \<open>The dashboard\<close>

record desk =
  dk_client :: client
  dk_term :: terminal

definition onClient :: "(client, 'a) mon \<Rightarrow> (desk, 'a) mon" where
  "onClient = zoomM dk_client (\<lambda>c d. d\<lparr>dk_client := c\<rparr>)"

definition onTerm :: "(terminal, 'a) mon \<Rightarrow> (desk, 'a) mon" where
  "onTerm = zoomM dk_term (\<lambda>t d. d\<lparr>dk_term := t\<rparr>)"

text \<open>A form, and the request made with its values when it was filled in. The client methods log their
  error text; the menu drops it.\<close>

definition submit :: "(u64 \<Rightarrow> client \<Rightarrow> (terminal, packet option) mon) \<Rightarrow> (packet \<Rightarrow> (client, string) mon) \<Rightarrow> (desk, unit) mon" where
  "submit form act =
     bindM (getsM dk_client) (\<lambda>c.
     bindM (onTerm (form (clk_s c) c)) (\<lambda>p. case p of
        None \<Rightarrow> returnM ()
      | Some packet \<Rightarrow> ignoreM (onClient (act packet))))"

text \<open>The form of a user: \<open>*state.user\<close>, which a logged-in client has.\<close>

definition ofUser :: "(u64 \<Rightarrow> user \<Rightarrow> (terminal, packet option) mon) \<Rightarrow> u64 \<Rightarrow> client \<Rightarrow> (terminal, packet option) mon" where
  "ofUser form now c = (case st_user c of None \<Rightarrow> returnM None | Some user \<Rightarrow> form now user)"

definition showHistory :: "(desk, unit) mon" where
  "showHistory =
     bindM (onClient client_loadMessageHistory) (\<lambda>(error, lines).
     if error \<noteq> [] then returnM ()
     else
       bindM (getsM dk_client) (\<lambda>c.
       onTerm (say (''>> History for '' @ (case st_currentRoom c of None \<Rightarrow> ''?'' | Some r \<Rightarrow> ro_name r) @ '':'' @ nl @
         (if lines = [] then ''   (no messages)'' @ nl
          else lines_of (map (\<lambda>l. ''   ['' @ cl_author l @ ''] '' @ cl_text l) lines))))))"

definition guestMenu :: "int \<Rightarrow> (desk, unit) mon" where
  "guestMenu answer =
     (if answer = 1 then submit (\<lambda>now _. showLogin now) (\<lambda>p. client_login (p_sender p) (p_message p))
      else if answer = 2 then
        submit (\<lambda>now _. showRegister now) (\<lambda>p. client_signUp (p_sender p) (p_message p) (p_room p))
      else if answer = 3 then onClient client_stop
      else returnM ())"

definition userMenu :: "int \<Rightarrow> (desk, unit) mon" where
  "userMenu answer =
     bindM (getsM dk_client) (\<lambda>c.
     if answer = 1 then
       submit (ofUser showUpdateProfile) (\<lambda>p. client_updateProfile (p_sender p) (p_message p) (p_room p))
     else if answer = 2 then submit showJoinRoom (\<lambda>p. client_joinRoom (p_room p))
     else if answer = 3 then ignoreM (onClient client_leaveRoom)
     else if answer = 4 then submit (ofUser showCreateMessage) (\<lambda>p. client_sendMessage (p_message p))
     else if answer = 5 then submit (ofUser showCreateRoom) (\<lambda>p. client_createRoom (p_room p) (p_message p))
     else if answer = 6 then showHistory
     else if answer = 7 then submit showInviteToRoom (\<lambda>p. client_inviteToRoom (p_room p) (p_message p))
     else if answer = 8 then
       (if state_isAdmin c then submit showKickFromRoom (\<lambda>p. client_kickFromRoom (p_room p) (p_message p))
        else ignoreM (onClient client_logout))
     else if answer = 9 then
       (if state_isAdmin c then submit showDeleteRoom (\<lambda>p. client_deleteRoom (p_room p)) else returnM ())
     else if answer = 10 then (if state_isAdmin c then ignoreM (onClient client_logout) else returnM ())
     else returnM ())"

definition showDashboard :: "(desk, unit) mon" where
  "showDashboard =
     bindM (getsM dk_client) (\<lambda>c.
     if \<not> isLoggedIn c then bindM (onTerm showHomeScreen) guestMenu
     else bindM (onTerm (showUserDashboard c)) userMenu)"

section \<open>What is read\<close>

text \<open>The value of a prompt is the first line that is not empty, unless it is \<open>exit\<close>.\<close>

lemma readLine_spec:
  "\<exists>t'. readLine prompt t = (Inr (case dropWhile (\<lambda>l. l = []) (tm_in t) of [] \<Rightarrow> None | l # _ \<Rightarrow> if l = ''exit'' then None else Some l), t') \<and>
     tm_in t' = drop 1 (dropWhile (\<lambda>l. l = []) (tm_in t))"
proof (induction prompt t rule: readLine.induct)
  case (1 prompt t)
  show ?case
  proof (cases "tm_in t")
    case Nil
    then show ?thesis by (subst readLine.simps) (simp add: thenM_run bindM_run say_def getLine_def)
  next
    case (Cons l rest)
    let ?t = "t\<lparr>tm_in := rest, tm_out := tm_out t @ prompt\<rparr>"
    have got: "thenM (say prompt) getLine t = (Inr (Some l), ?t)"
      using Cons by (simp add: thenM_run bindM_run say_def getLine_def)
    show ?thesis
    proof (cases "l = []")
      case True
      then show ?thesis
        using "1.IH" [OF got [symmetric] refl refl refl] Cons got by (subst readLine.simps) (simp add: Let_def)
    next
      case False
      then show ?thesis using Cons got by (subst readLine.simps) (simp add: Let_def)
    qed
  qed
qed

text \<open>A menu ends with a valid choice: the first line that is one, or the last entry when the input ends.\<close>

definition valid_choice :: "int \<Rightarrow> int \<Rightarrow> string \<Rightarrow> bool" where
  "valid_choice lo hi l \<longleftrightarrow> (case std_stoi l of None \<Rightarrow> False | Some a \<Rightarrow> lo \<le> a \<and> a \<le> hi)"

lemma menuLoop_spec:
  "\<exists>t'. menuLoop menu lo hi t =
      (Inr (case dropWhile (\<lambda>l. \<not> valid_choice lo hi l) (tm_in t) of [] \<Rightarrow> hi | l # _ \<Rightarrow> the (std_stoi l)), t') \<and>
     tm_in t' = drop 1 (dropWhile (\<lambda>l. \<not> valid_choice lo hi l) (tm_in t))"
proof (induction menu lo hi t rule: menuLoop.induct)
  case (1 menu lo hi t)
  show ?case
  proof (cases "tm_in t")
    case Nil
    then show ?thesis by (subst menuLoop.simps) (simp add: thenM_run bindM_run say_def getLine_def tryReadMenuChoice_def)
  next
    case (Cons l rest)
    show ?thesis
    proof (cases "valid_choice lo hi l")
      case True
      then show ?thesis
        using Cons by (subst menuLoop.simps)
          (auto simp: thenM_run bindM_run say_def getLine_def tryReadMenuChoice_def valid_choice_def split: option.splits)
    next
      case False
      let ?t = "t\<lparr>tm_in := rest, tm_out := (tm_out t @ menu) @ ''Enter your choice: ''\<rparr>"
      have got: "thenM (say menu) (tryReadMenuChoice lo hi) t = (Inr None, ?t)"
        using Cons False
        by (auto simp: thenM_run bindM_run say_def getLine_def tryReadMenuChoice_def valid_choice_def split: option.splits)
      show ?thesis
        using "1.IH" [OF got [symmetric] refl refl] Cons False got by (subst menuLoop.simps) simp
    qed
  qed
qed

end
