(* ===== verification/Console_Theorems.thy ===== *)
theory Console_Theorems
  imports Console Client_Calls
begin

text \<open>
  The console: what a typed login does, and that a closed input ends the program instead of repeating the
  menu for ever.
\<close>

lemma login_returns: "\<exists>e c'. client_login u p c = (Inr e, c')"
  and logout_returns: "\<exists>e c'. client_logout c = (Inr e, c')"
proof -
  have "orderly c (client_login u p)" "orderly c client_logout"
    by (simp_all add: client_login_def client_logout_def enterAs_def applyRoomDirectory_def state_clear_def
        clearPendingChatMessages_def split: option.split)
  then show "\<exists>e c'. client_login u p c = (Inr e, c')" "\<exists>e c'. client_logout c = (Inr e, c')"
    by (auto simp: orderly_def)
qed

lemma ask_run:
  assumes "tm_in t = blanks @ v # rest" and "\<forall>l\<in>set blanks. l = []" and "v \<noteq> []" and "v \<noteq> ''exit''"
  shows "\<exists>t'. (\<forall>k. ask prompt k t = k v t') \<and> tm_in t' = rest"
proof -
  have "dropWhile (\<lambda>l. l = []) (tm_in t) = v # rest" using assms(1,2,3) by (simp add: dropWhile_append2)
  then show ?thesis using readLine_spec [of prompt t] assms(4) by (auto simp: ask_def bindM_run)
qed

lemma home_run:
  assumes "tm_in t = noise @ l # rest" and "\<forall>l\<in>set noise. \<not> valid_choice 1 3 l" and "valid_choice 1 3 l"
  shows "\<exists>t'. showHomeScreen t = (Inr (the (std_stoi l)), t') \<and> tm_in t' = rest"
proof -
  have "dropWhile (\<lambda>l. \<not> valid_choice 1 3 l) (tm_in t) = l # rest" using assms by (simp add: dropWhile_append2)
  then show ?thesis
    using menuLoop_spec [of _ 1 3 t] unfolding showHomeScreen_def MIN_MENU_CHOICE_def MAX_MENU_CHOICE_def by fastforce
qed

text \<open>Typing the choice 1, a user name and a password in the console runs the login request with exactly
  these two values, whatever invalid choices and empty lines come in between.\<close>

theorem console_login:
  assumes "\<not> isLoggedIn (dk_client d)"
    and "tm_in (dk_term d) = noise @ ''1'' # blanks @ username # blanks' @ password # rest"
    and "\<forall>l\<in>set noise. \<not> valid_choice 1 3 l" and "\<forall>l\<in>set (blanks @ blanks'). l = []"
    and "username \<noteq> []" and "username \<noteq> ''exit''" and "password \<noteq> []" and "password \<noteq> ''exit''"
  shows "\<exists>t'. showDashboard d = (Inr (), d\<lparr>dk_client := snd (client_login username password (dk_client d)), dk_term := t'\<rparr>) \<and>
    tm_in t' = rest"
proof -
  let ?c = "dk_client d"
  have one: "std_stoi ''1'' = Some 1" 
    by (simp add: std_stoi_def parse_signed_def scan_number_def Let_def is_space_def is_digit_def digits_val_def)
  then have "valid_choice 1 3 ''1''" by (simp add: valid_choice_def)
  then obtain t1 where t1: "showHomeScreen (dk_term d) = (Inr 1, t1)" "tm_in t1 = blanks @ username # blanks' @ password # rest"
    using home_run [OF assms(2,3)] one by auto
  let ?t1 = "t1\<lparr>tm_out := tm_out t1 @ ''>> Please login:'' @ nl\<rparr>"
  obtain t2 where t2: "\<forall>k. ask ''>> Username (type 'exit' to go back): '' k ?t1 = k username t2" "tm_in t2 = blanks' @ password # rest"
    using ask_run [of ?t1 blanks username "blanks' @ password # rest" "''>> Username (type 'exit' to go back): ''"] t1(2) assms by auto
  obtain t3 where t3: "\<forall>k. ask ''>> Password (type 'exit' to go back): '' k t2 = k password t3" "tm_in t3 = rest"
    using ask_run [OF t2(2), of "''>> Password (type 'exit' to go back): ''"] assms by auto
  have form: "showLogin (clk_s ?c) t1 = (Inr (Some (mkPacket (clk_s ?c) username [] LOGIN [] password 0)), t3)"
    using t2 t3 assms by (simp add: showLogin_def thenM_run say_def built_def buildLogin_def)
  obtain e c' where "client_login username password ?c = (Inr e, c')" using login_returns by blast
  then show ?thesis
    using assms(1) t1 form t3
    by (intro exI [of _ t3]) (simp add: showDashboard_def onTerm_def onClient_def zoomM_run guestMenu_def submit_def bindM_run
        ignoreM_def thenM_run mkPacket_def)
qed

definition login_desk :: desk where
  "login_desk = \<lparr>dk_client = waiting_client, dk_term = \<lparr>tm_in = [''x'', ''1'', [], ''ada'', ''pw''], tm_out = []\<rparr>\<rparr>"

theorem console_login_witness:
  "\<exists>t'. showDashboard login_desk =
      (Inr (), login_desk\<lparr>dk_client := snd (client_login ''ada'' ''pw'' waiting_client), dk_term := t'\<rparr>) \<and> tm_in t' = []"
proof -
  have "std_stoi ''x'' = None"
    by (simp add: std_stoi_def parse_signed_def scan_number_def Let_def is_space_def is_digit_def)
  then have "\<not> valid_choice 1 3 ''x''" by (simp add: valid_choice_def)
  then show ?thesis
    using console_login [of login_desk "[''x'']" "[[]]" "''ada''" "[]" "''pw''" "[]"]
    by (simp add: login_desk_def isLoggedIn_def waiting_client_def fresh_client_def)
qed

lemma end_of_input_run:
  assumes "tm_in (dk_term d) = []"
  shows "\<exists>d'. showDashboard d = (Inr (), d') \<and> tm_in (dk_term d') = [] \<and>
    (if isLoggedIn (dk_client d) then dk_client d' = snd (client_logout (dk_client d))
     else c_stopRequested (dk_client d') \<and> \<not> c_supervisorRunning (dk_client d') \<and> \<not> net_connected (dk_client d'))"
proof (cases "isLoggedIn (dk_client d)")
  case True
  then obtain u where u: "st_user (dk_client d) = Some u" by (auto simp: isLoggedIn_def split: option.splits)
  obtain e c' where out: "client_logout (dk_client d) = (Inr e, c')" using logout_returns by blast
  let ?hi = "if u_type u = ADMIN then MAX_ADMIN_CHOICE else MAX_USER_CHOICE"
  obtain t' where t': "showUserDashboard (dk_client d) (dk_term d) = (Inr ?hi, t')" "tm_in t' = []"
    using menuLoop_spec [of _ MIN_USER_CHOICE ?hi "dk_term d"] u assms unfolding showUserDashboard_def Let_def by fastforce
  then show ?thesis
    using True u out
    by (simp add: showDashboard_def onTerm_def onClient_def zoomM_run userMenu_def bindM_run ignoreM_def thenM_run
        state_isAdmin_def MAX_ADMIN_CHOICE_def MAX_USER_CHOICE_def)
next
  case False
  obtain t' where t': "showHomeScreen (dk_term d) = (Inr 3, t')" "tm_in t' = []"
    using menuLoop_spec [of _ 1 3 "dk_term d"] assms unfolding showHomeScreen_def MIN_MENU_CHOICE_def MAX_MENU_CHOICE_def by fastforce
  then show ?thesis
    using False by (simp add: showDashboard_def onTerm_def onClient_def zoomM_run guestMenu_def bindM_run client_stop_def
        net_disconnect_def thenM_run)
qed

text \<open>C29: at the end of the input the console leaves instead of asking again: a guest's menu stops the client
  (no supervisor, no connection), the menu of an ordinary user or of an administrator logs out.\<close>

theorem console_end_of_input:
  assumes "tm_in (dk_term d) = []"
  shows "\<exists>d'. showDashboard d = (Inr (), d') \<and> tm_in (dk_term d') = [] \<and>
    (if isLoggedIn (dk_client d) then dk_client d' = snd (client_logout (dk_client d))
     else c_stopRequested (dk_client d') \<and> \<not> c_supervisorRunning (dk_client d') \<and> \<not> net_connected (dk_client d'))"
  using assms by (rule end_of_input_run)

theorem console_end_of_input_witness:
  "\<exists>d'. showDashboard \<lparr>dk_client = fresh_client, dk_term = \<lparr>tm_in = [], tm_out = []\<rparr>\<rparr> = (Inr (), d') \<and>
    c_stopRequested (dk_client d') \<and> \<not> c_supervisorRunning (dk_client d')"
  using console_end_of_input [of "\<lparr>dk_client = fresh_client, dk_term = \<lparr>tm_in = [], tm_out = []\<rparr>\<rparr>"]
  by (auto simp: isLoggedIn_def fresh_client_def)

end
