(* ===== verification/Dashboard.thy ===== *)
theory Dashboard
  imports Server
begin

text \<open>
  The text dashboard of the server (\<open>Server::dashboard\<close>, src/server/server.cpp) and the console mode of its
  \<open>main\<close> (src/server/main.cpp). The dashboard computes the overall health in a loop of its own; the theorem
  shows that it prints what the health monitor reports.
\<close>

definition endl :: string where "endl = [CHR 0x0A]"

text \<open>A separator before every item but the first.\<close>

fun comma_sep :: "string list \<Rightarrow> string" where
  "comma_sep [] = []"
| "comma_sep [x] = x"
| "comma_sep (x # y # xs) = x @ '', '' @ comma_sep (y # xs)"

definition show_port :: "u16 \<Rightarrow> string" where "show_port p = nat_to_string (unat p)"

text \<open>The loop over the reports: the text printed, the overall status and its detail.\<close>

fun health_lines :: "healthReport list \<Rightarrow> string \<times> healthStatus \<times> string \<Rightarrow> string \<times> healthStatus \<times> string" where
  "health_lines [] acc = acc"
| "health_lines (report # rest) (out, overallStatus, overallDetail) =
     (let out = out @ ''  '' @ hr_name report @ '': '' @ statusToString report @
            (if hr_detail report \<noteq> [] then '' ('' @ hr_detail report @ '')'' else []) @ endl
      in if hr_status report = Down then
           health_lines rest (out, Down,
             (if overallDetail \<noteq> [] then overallDetail @ ''; '' else overallDetail) @ hr_name report @ '':Down'')
         else if hr_status report = Degraded \<and> overallStatus \<noteq> Down then
           health_lines rest (out, Degraded, overallDetail)
         else health_lines rest (out, overallStatus, overallDetail))"

definition overall_line :: "healthStatus \<Rightarrow> string \<Rightarrow> string" where
  "overall_line overallStatus overallDetail =
     ''Overall: '' @ healthStatusToString overallStatus @
     (if overallDetail \<noteq> [] then '' ('' @ overallDetail @ '')'' else []) @ endl"

definition dashboard_head :: "server \<Rightarrow> string" where
  "dashboard_head s =
     (let n = s_node s; cfg = n_cfg n; live = getClientPeers n in
      ''--------------------------------'' @ endl @ ''Server dashboard'' @ endl @ ''--------------------------------'' @ endl @
      ''Node id: '' @ NODE_ID cfg @ endl @
      ''Port: '' @ show_port (PORT cfg) @ '' Web port: '' @ show_port (w_listenPort (s_web s)) @
        '' Peer port: '' @ show_port (PEER_PORT cfg) @ endl @
      ''Database path: '' @ DB_PATH cfg @ endl @
      ''Gossip seeds: '' @ (if PEERS cfg = [] then ''(none)'' else comma_sep (PEERS cfg)) @ endl @
      ''Client endpoints: '' @
        (if live = [] then ''(none)''
         else comma_sep (map (\<lambda>(_, e). ce_nodeId e @ ''='' @ ce_host e @ '':'' @ show_port (ce_port e)) live)) @ endl @
      ''Listening: '' @ (if listening n then ''yes'' else ''no'') @ endl @ ''Health:'' @ endl)"

definition dashboard :: "(server, string) mon" where
  "dashboard =
     bindM (getsM dashboard_head) (\<lambda>out.
     bindM (getsM healthChecks) (\<lambda>cs.
     bindM (checkAll (map check cs)) (\<lambda>reports.
     case health_lines reports (out, Up, []) of
       (out, overallStatus, overallDetail) \<Rightarrow>
         returnM (out @ overall_line overallStatus overallDetail @ ''--------------------------------'' @ endl @ endl))))"

text \<open>The console mode of \<open>main\<close>: the dashboard, then a stop when the console asks for it.\<close>

definition server_main_console :: "os_results \<Rightarrow> (server, string) mon" where
  "server_main_console os =
     thenM (server_start os) (bindM dashboard (\<lambda>out. thenM server_stop (returnM out)))"

section \<open>The overall line\<close>

text \<open>The loop of the dashboard follows the loop of \<open>HealthMonitor::check\<close>.\<close>

lemma health_lines_combine:
  "\<exists>body. health_lines rs (out, hr_status overall, hr_detail overall) =
     (out @ body, hr_status (foldl combine overall rs), hr_detail (foldl combine overall rs))"
proof (induction rs arbitrary: out overall)
  case (Cons r rs)
  let ?line = "''  '' @ hr_name r @ '': '' @ statusToString r @ (if hr_detail r \<noteq> [] then '' ('' @ hr_detail r @ '')'' else []) @ endl"
  obtain body where body: "health_lines rs (out @ ?line, hr_status (combine overall r), hr_detail (combine overall r)) =
      ((out @ ?line) @ body, hr_status (foldl combine (combine overall r) rs), hr_detail (foldl combine (combine overall r) rs))"
    using Cons [of "out @ ?line" "combine overall r"] by blast
  have "health_lines (r # rs) (out, hr_status overall, hr_detail overall) =
      health_lines rs (out @ ?line, hr_status (combine overall r), hr_detail (combine overall r))"
    by (simp add: combine_def Let_def)
  then show ?case using body by auto
qed simp

text \<open>The overall line of the dashboard states the status and the detail of the report of the health
  monitor: the two loops of the code agree, and printing changes the server only as checking does.\<close>

theorem dashboard_shows_monitor:
  "\<exists>out. dashboard s =
     (case server_health s of
        (Inl e, s') \<Rightarrow> (Inl e, s')
      | (Inr r, s') \<Rightarrow> (Inr (out @ overall_line (hr_status r) (hr_detail r) @ ''--------------------------------'' @ endl @ endl), s'))"
proof (cases "checkAll (map check (healthChecks s)) s")
  case (Pair r s')
  show ?thesis
  proof (cases r)
    case (Inr rs)
    obtain body where "health_lines rs (dashboard_head s, Up, []) = (dashboard_head s @ body,
        hr_status (foldl combine \<lparr>hr_name = ''cluster'', hr_status = Up, hr_detail = []\<rparr> rs),
        hr_detail (foldl combine \<lparr>hr_name = ''cluster'', hr_status = Up, hr_detail = []\<rparr> rs))"
      using health_lines_combine [of rs "dashboard_head s" "\<lparr>hr_name = ''cluster'', hr_status = Up, hr_detail = []\<rparr>"] by auto
    then show ?thesis
      using Pair Inr by (intro exI [of _ "dashboard_head s @ body"]) (simp add: dashboard_def server_health_def monitor_check_def bindM_run)
  qed (use Pair in \<open>simp add: dashboard_def server_health_def monitor_check_def bindM_run\<close>)
qed

end
