(* ===== verification/Logger.thy ===== *)
theory Logger
  imports Ring_Buffer
begin

text \<open>
  The logger (src/utils/logger/logger.cpp, log_message.cpp, consolelogger.cpp): messages are kept in a
  queue of at most \<open>MAX_MESSAGES\<close> and forwarded to the registered sinks. A sink is known by its address,
  \<open>0\<close> being \<open>nullptr\<close>; what the sinks were handed is recorded in order. The logging calls of the other
  classes are left out of their models, because no operation reads the logger.
\<close>

datatype logType = INFO | WARNING | LOG_ERROR | LOG_HEARTBEAT

definition logTypeToStringMap :: "(logType \<times> string) list" where
  "logTypeToStringMap = [(INFO, ''INFO''), (WARNING, ''WARNING''), (LOG_ERROR, ''ERROR''), (LOG_HEARTBEAT, ''HEARTBEAT'')]"

definition logTypeToString :: "logType \<Rightarrow> string" where
  "logTypeToString t = (case map_of logTypeToStringMap t of Some s \<Rightarrow> s | None \<Rightarrow> ''INFO'')"

definition stringToLogType :: "string \<Rightarrow> logType" where
  "stringToLogType s = (case find (\<lambda>(k, v). v = s) logTypeToStringMap of Some (k, _) \<Rightarrow> k | None \<Rightarrow> INFO)"

record logMessage =
  lm_id :: string
  lm_source :: string
  lm_message :: string
  lm_type :: logType
  lm_timestamp :: int

text \<open>\<open>lg_next\<close> is the counter of message ids, \<open>lg_time\<close> the clock, \<open>lg_sunk\<close> what the sinks received.\<close>

record logger =
  lg_messages :: "logMessage list"
  lg_loggers :: "nat list"
  lg_next :: u64
  lg_time :: int
  lg_sunk :: "(nat \<times> logMessage) list"

definition MAX_MESSAGES :: nat where "MAX_MESSAGES = 1000"

definition mkLogMessage :: "string \<Rightarrow> string \<Rightarrow> logType \<Rightarrow> logger \<Rightarrow> logMessage" where
  "mkLogMessage source message t l =
     \<lparr>lm_id = nat_to_string (unat (lg_next l + 1)), lm_source = source, lm_message = message, lm_type = t, lm_timestamp = lg_time l\<rparr>"

definition addMessage :: "string \<Rightarrow> string \<Rightarrow> logType \<Rightarrow> logger \<Rightarrow> logger" where
  "addMessage source message t l =
     (let m = mkLogMessage source message t l
      in l\<lparr>lg_next := lg_next l + 1,
           lg_messages := trim MAX_MESSAGES (lg_messages l @ [m]),
           lg_sunk := lg_sunk l @ map (\<lambda>sink. (sink, m)) (lg_loggers l)\<rparr>)"

definition logInfo :: "string \<Rightarrow> string \<Rightarrow> logger \<Rightarrow> logger" where
  "logInfo source message = addMessage source message INFO"

definition logWarning :: "string \<Rightarrow> string \<Rightarrow> logger \<Rightarrow> logger" where
  "logWarning source message = addMessage source message WARNING"

definition logError :: "string \<Rightarrow> string \<Rightarrow> logger \<Rightarrow> logger" where
  "logError source message = addMessage source message LOG_ERROR"

definition logHeartbeat :: "string \<Rightarrow> string \<Rightarrow> logger \<Rightarrow> logger" where
  "logHeartbeat source message = addMessage source message LOG_HEARTBEAT"

datatype logFault = OutOfRange string

definition getMessage :: "nat \<Rightarrow> logger \<Rightarrow> logFault + logMessage" where
  "getMessage index l =
     (if index \<ge> length (lg_messages l) then Inl (OutOfRange ''Logger::getMessage index out of range'')
      else Inr (lg_messages l ! index))"

definition logger_clear :: "logger \<Rightarrow> logger" where
  "logger_clear l = l\<lparr>lg_messages := []\<rparr>"

definition logger_size :: "logger \<Rightarrow> nat" where
  "logger_size l = length (lg_messages l)"

definition addLogger :: "nat \<Rightarrow> logger \<Rightarrow> logger" where
  "addLogger sink l =
     (if sink = 0 then l else if sink \<in> set (lg_loggers l) then l else l\<lparr>lg_loggers := lg_loggers l @ [sink]\<rparr>)"

definition clearLoggers :: "logger \<Rightarrow> logger" where
  "clearLoggers l = l\<lparr>lg_loggers := []\<rparr>"

text \<open>Printing.\<close>

definition showLogMessage :: "logMessage \<Rightarrow> string" where
  "showLogMessage m =
     ''[Msg: '' @ lm_id m @ ''] ('' @ logTypeToString (lm_type m) @ '', '' @ int_to_string (lm_timestamp m) @ '')'' @ [CHR 0x0A] @
     lm_source m @ '': '' @ lm_message m @ [CHR 0x0A]"

definition sameLogMessage :: "logMessage \<Rightarrow> logMessage \<Rightarrow> bool" where
  "sameLogMessage a b \<longleftrightarrow> lm_id a = lm_id b"

definition showLogger :: "logger \<Rightarrow> string" where
  "showLogger l =
     ''Logger: '' @ nat_to_string (length (lg_messages l)) @ '' messages'' @ [CHR 0x0A] @ ''Messages:'' @ [CHR 0x0A] @
     concat (map (\<lambda>m. showLogMessage m @ [CHR 0x0A]) (lg_messages l)) @ [CHR 0x0A]"

text \<open>\<open>ConsoleLogger::log\<close>: errors go to the error stream. The two streams are the components.\<close>

definition consoleLog :: "logMessage \<Rightarrow> string \<times> string \<Rightarrow> string \<times> string" where
  "consoleLog m streams =
     (if lm_type m = LOG_ERROR then (fst streams, snd streams @ showLogMessage m @ [CHR 0x0A])
      else (fst streams @ showLogMessage m @ [CHR 0x0A], snd streams))"

section \<open>The queue is a bounded history\<close>

interpretation logq: ring_buffer lg_messages "\<lambda>(source, message, t). addMessage source message t"
  "\<lambda>(source, message, t). mkLogMessage source message t" MAX_MESSAGES
  by unfold_locales (auto simp: addMessage_def trim_lastn Let_def)

section \<open>Histories of the logger\<close>

datatype logOp = Log string string logType | Clear | AddSink nat | ClearSinks | Tick int

fun log_exec :: "logOp \<Rightarrow> logger \<Rightarrow> logger" where
  "log_exec (Log source message t) l = addMessage source message t l"
| "log_exec Clear l = logger_clear l"
| "log_exec (AddSink sink) l = addLogger sink l"
| "log_exec ClearSinks l = clearLoggers l"
| "log_exec (Tick d) l = l\<lparr>lg_time := lg_time l + d\<rparr>"

text \<open>The abstract logger: the whole history since the last \<open>clear\<close>, the set of sinks, and for every sink
  the list of the messages it received.\<close>

record abs_log =
  al_history :: "logMessage list"
  al_sinks :: "nat set"
  al_received :: "nat \<Rightarrow> logMessage list"

fun abs_exec :: "logOp \<Rightarrow> logMessage \<Rightarrow> abs_log \<Rightarrow> abs_log" where
  "abs_exec (Log source message t) m a =
     a\<lparr>al_history := al_history a @ [m], al_received := (\<lambda>s. if s \<in> al_sinks a then al_received a s @ [m] else al_received a s)\<rparr>"
| "abs_exec Clear m a = a\<lparr>al_history := []\<rparr>"
| "abs_exec (AddSink sink) m a = a\<lparr>al_sinks := al_sinks a \<union> ({sink} - {0})\<rparr>"
| "abs_exec ClearSinks m a = a\<lparr>al_sinks := {}\<rparr>"
| "abs_exec (Tick d) m a = a"

text \<open>The message an operation makes.\<close>

fun made :: "logOp \<Rightarrow> logger \<Rightarrow> logMessage" where
  "made (Log source message t) l = mkLogMessage source message t l"
| "made _ l = mkLogMessage [] [] INFO l"

definition log_refines :: "logger \<Rightarrow> abs_log \<Rightarrow> bool" where
  "log_refines l a \<longleftrightarrow> lg_messages l = lastn MAX_MESSAGES (al_history a) \<and> distinct (lg_loggers l) \<and>
     set (lg_loggers l) = al_sinks a \<and> (\<forall>s. map snd (filter (\<lambda>(k, _). k = s) (lg_sunk l)) = al_received a s)"

lemma deliveries:
  "distinct sinks \<Longrightarrow> map snd (filter (\<lambda>(k, _). k = s) (map (\<lambda>sink. (sink, m)) sinks)) = (if s \<in> set sinks then [m] else [])"
  by (induction sinks) auto

lemma refines_step: "log_refines l a \<Longrightarrow> log_refines (log_exec op l) (abs_exec op (made op l) a)"
  by (cases op) (auto simp: log_refines_def addMessage_def logger_clear_def addLogger_def clearLoggers_def trim_lastn
      lastn_append deliveries lastn_short Let_def)

primrec log_run :: "logOp list \<Rightarrow> logger \<times> abs_log \<Rightarrow> logger \<times> abs_log" where
  "log_run [] s = s"
| "log_run (op # ops) s = log_run ops (log_exec op (fst s), abs_exec op (made op (fst s)) (snd s))"

lemma refines_run: "log_refines (fst s) (snd s) \<Longrightarrow> log_refines (fst (log_run ops s)) (snd (log_run ops s))"
  by (induction ops arbitrary: s) (simp_all add: refines_step)

definition empty_logger :: "int \<Rightarrow> logger" where
  "empty_logger now = \<lparr>lg_messages = [], lg_loggers = [], lg_next = 0, lg_time = now, lg_sunk = []\<rparr>"

definition empty_history :: abs_log where
  "empty_history = \<lparr>al_history = [], al_sinks = {}, al_received = (\<lambda>_. [])\<rparr>"

text \<open>C26: the logger implements its abstract specification under every sequence of operations: it shows the
  last 1000 messages logged since it was cleared, its sinks are the set of the addresses registered, each
  once, and every sink was handed each message logged while it was registered exactly once, in order.\<close>

theorem logger_refines_history:
  "log_refines (fst (log_run ops (empty_logger now, empty_history))) (snd (log_run ops (empty_logger now, empty_history)))"
  by (rule refines_run) (simp add: log_refines_def empty_logger_def empty_history_def lastn_short)

end
