(* ===== verification/Server_Window.thy ===== *)
theory Server_Window
  imports Dashboard Logger
begin

text \<open>
  The window of the server (src/server/gui): the four panels as the texts they set on their labels and lists,
  each with its \<open>refresh\<close>, and the sink \<open>QtLogger\<close> (src/utils/logger/qtLogger.cpp) that feeds the log panel.
  The layout of the widgets is left out. Qt is a parameter: \<open>wq_arg\<close> is \<open>QString::arg\<close>, \<open>wq_time\<close> the
  formatting of \<open>QDateTime\<close>, \<open>wq_range\<close> the largest position of the scroll bar of a text of the given lines.
  Strings are the UTF-8 bytes of the \<open>QString\<close>s. A panel has a server except where \<open>None\<close> says otherwise.
\<close>

record window_qt =
  wq_arg :: "string \<Rightarrow> string \<Rightarrow> string"
  wq_time :: "int \<Rightarrow> string"
  wq_range :: "string list \<Rightarrow> int"

definition em_dash :: string where "em_dash = [CHR 0xE2, CHR 0x80, CHR 0x94]"

section \<open>Node and ports\<close>

record portsPanel =
  nodeLabel :: string
  clientLabel :: string
  peerLabel :: string
  peersLabel :: string
  endpointsLabel :: string
  dbLabel :: string
  healthOverall :: string
  healthDetails :: string

definition makeValue :: string where "makeValue = em_dash"

definition newPortsPanel :: portsPanel where
  "newPortsPanel = \<lparr>nodeLabel = makeValue, clientLabel = makeValue, peerLabel = makeValue, peersLabel = makeValue,
     endpointsLabel = makeValue, dbLabel = makeValue, healthOverall = makeValue, healthDetails = makeValue\<rparr>"

text \<open>\<open>QStringList::join\<close>.\<close>

fun join :: "string \<Rightarrow> string list \<Rightarrow> string" where
  "join sep [] = []"
| "join sep [x] = x"
| "join sep (x # y # xs) = x @ sep @ join sep (y # xs)"

definition report_line :: "healthReport \<Rightarrow> string" where
  "report_line report =
     hr_name report @ '': '' @ statusToString report @
     (if hr_detail report \<noteq> [] then '' ('' @ hr_detail report @ '')'' else [])"

text \<open>The loop over the reports: the overall status, the lines and the names of the failing checks.\<close>

fun panel_health :: "healthReport list \<Rightarrow> healthStatus \<times> string list \<times> string list \<Rightarrow> healthStatus \<times> string list \<times> string list" where
  "panel_health [] acc = acc"
| "panel_health (report # rest) (overallStatus, lines, downDetails) =
     (let lines = lines @ [report_line report] in
      if hr_status report = Down then panel_health rest (Down, lines, downDetails @ [hr_name report @ '':Down''])
      else if hr_status report = Degraded \<and> overallStatus \<noteq> Down then panel_health rest (Degraded, lines, downDetails)
      else panel_health rest (overallStatus, lines, downDetails))"

definition overall_text :: "healthStatus \<Rightarrow> string list \<Rightarrow> string" where
  "overall_text overallStatus downDetails =
     healthStatusToString overallStatus @ (if downDetails = [] then [] else '' ('' @ join ''; '' downDetails @ '')'')"

text \<open>What does not depend on the server.\<close>

definition ports_config :: "config \<Rightarrow> portsPanel \<Rightarrow> portsPanel" where
  "ports_config cfg p =
     p\<lparr>nodeLabel := NODE_ID cfg, clientLabel := show_port (PORT cfg), peerLabel := show_port (PEER_PORT cfg),
       peersLabel := (if PEERS cfg = [] then ''(none)'' else comma_sep (PEERS cfg)), dbLabel := DB_PATH cfg\<rparr>"

definition ports_refresh :: "portsPanel \<Rightarrow> (server, portsPanel) mon" where
  "ports_refresh p =
     bindM (getsM s_node) (\<lambda>n.
     let live = getClientPeers n;
         p = (ports_config (n_cfg n) p)\<lparr>endpointsLabel :=
           (if live = [] then ''(none)''
            else comma_sep (map (\<lambda>(_, e). ce_nodeId e @ ''='' @ ce_host e @ '':'' @ show_port (ce_port e)) live))\<rparr>
     in bindM (getsM healthChecks) (\<lambda>cs.
        bindM (checkAll (map check cs)) (\<lambda>reports.
        case panel_health reports (Up, [], []) of
          (overallStatus, lines, downDetails) \<Rightarrow>
            returnM (p\<lparr>healthOverall := overall_text overallStatus downDetails,
                       healthDetails := (if lines = [] then ''(none)'' else join [CHR 0x0A] lines)\<rparr>))))"

text \<open>Without a server.\<close>

definition ports_refresh_null :: "config \<Rightarrow> portsPanel \<Rightarrow> portsPanel" where
  "ports_refresh_null cfg p =
     (ports_config cfg p)\<lparr>endpointsLabel := em_dash, healthOverall := em_dash, healthDetails := em_dash\<rparr>"

section \<open>Users and rooms\<close>

definition addUser :: "window_qt \<Rightarrow> user \<Rightarrow> room \<Rightarrow> bool \<Rightarrow> string list \<Rightarrow> string list" where
  "addUser q user room authenticated usersList =
     (let formatted = wq_arg q (wq_arg q ''%1 @ %2'' (u_username user)) (ro_name room) in
      usersList @ [if \<not> authenticated then formatted @ '' (un-authenticated)'' else formatted])"

definition users_refresh :: "window_qt \<Rightarrow> node option \<Rightarrow> string list \<Rightarrow> string list" where
  "users_refresh q server usersList =
     (case server of
        None \<Rightarrow> [''(no server)'']
      | Some n \<Rightarrow>
          if sessions n = [] then [''(no sessions)'']
          else foldl (\<lambda>l (_, s). addUser q (cs_user s) (cs_room s) (cs_authenticated s) l) [] (sessions n))"

definition addRoom :: "window_qt \<Rightarrow> room \<Rightarrow> string list \<Rightarrow> string list" where
  "addRoom q room roomsList =
     roomsList @ [wq_arg q (wq_arg q (wq_arg q (''%1 '' @ em_dash @ '' %2 / %3'') (ro_name room))
       (roomTypeToString (ro_type room))) (privacyToString (ro_privacy room))]"

definition rooms_refresh :: "window_qt \<Rightarrow> node \<Rightarrow> string list \<Rightarrow> string list" where
  "rooms_refresh q n roomsList =
     (case rm_listRooms n of
        (Inl _, _) \<Rightarrow> []
      | (Inr rooms, _) \<Rightarrow> if rooms = [] then [''(no rooms)''] else foldl (\<lambda>l r. addRoom q r l) [] rooms)"

section \<open>The log\<close>

text \<open>The text view: its lines and the position of its scroll bar.\<close>

record logPanel =
  lp_lines :: "string list"
  lp_scroll :: int

definition log_line :: "window_qt \<Rightarrow> logMessage \<Rightarrow> string" where
  "log_line q m = wq_arg q (wq_arg q (wq_arg q (wq_arg q ''[%1] (%2) %3: %4'' (wq_time q (lm_timestamp m)))
     (logTypeToString (lm_type m))) (lm_source m)) (lm_message m)"

text \<open>\<open>QtLogger::log\<close>: the line it emits.\<close>

definition qtLog :: "window_qt \<Rightarrow> logMessage \<Rightarrow> string" where
  "qtLog q m = log_line q m"

definition appendLine :: "window_qt \<Rightarrow> string \<Rightarrow> logPanel \<Rightarrow> logPanel" where
  "appendLine q line p =
     (let stickToBottom = (lp_scroll p = wq_range q (lp_lines p));
          lines = lp_lines p @ [line]
      in p\<lparr>lp_lines := lines, lp_scroll := (if stickToBottom then wq_range q lines else lp_scroll p)\<rparr>)"

definition logMessageLine :: "window_qt \<Rightarrow> logMessage \<Rightarrow> logPanel \<Rightarrow> logPanel" where
  "logMessageLine q m p = p\<lparr>lp_lines := lp_lines p @ [log_line q m]\<rparr>"

text \<open>The loop of \<open>refresh\<close> over the indices below the size read before it; \<open>getMessage\<close> throws when the queue
  shrank meanwhile, which ends the loop.\<close>

fun backlog :: "window_qt \<Rightarrow> logger \<Rightarrow> nat list \<Rightarrow> logPanel \<Rightarrow> logPanel" where
  "backlog q l [] p = p"
| "backlog q l (i # is) p =
     (case getMessage i l of Inl _ \<Rightarrow> p | Inr m \<Rightarrow> backlog q l is (logMessageLine q m p))"

definition log_refresh :: "window_qt \<Rightarrow> logger \<Rightarrow> logPanel \<Rightarrow> logPanel" where
  "log_refresh q l p =
     (let p' = backlog q l [0..<logger_size l] (p\<lparr>lp_lines := []\<rparr>)
      in p'\<lparr>lp_scroll := wq_range q (lp_lines p')\<rparr>)"

text \<open>The constructor registers the sink before it reads the backlog.\<close>

definition newLogPanel :: "window_qt \<Rightarrow> nat \<Rightarrow> logger \<Rightarrow> logPanel \<times> logger" where
  "newLogPanel q sink l = (let l' = addLogger sink l in (log_refresh q l' \<lparr>lp_lines = [], lp_scroll = 0\<rparr>, l'))"

text \<open>The queued connection: the lines the sink emits are appended in order.\<close>

definition deliver :: "window_qt \<Rightarrow> nat \<Rightarrow> (nat \<times> logMessage) list \<Rightarrow> logPanel \<Rightarrow> logPanel" where
  "deliver q sink sunk p = foldl (\<lambda>p (k, m). if k = sink then appendLine q (qtLog q m) p else p) p sunk"

section \<open>The health shown\<close>

lemma join_snoc: "join sep (xs @ [x]) = (if xs = [] then x else join sep xs @ sep @ x)"
  by (induction sep xs rule: join.induct) auto

lemma join_Nil: "\<forall>x\<in>set xs. x \<noteq> [] \<Longrightarrow> join sep xs = [] \<longleftrightarrow> xs = []"
  by (induction sep xs rule: join.induct) auto

lemma panel_health_combine:
  assumes "hr_detail overall = join ''; '' down" and "\<forall>x\<in>set down. x \<noteq> []"
  shows "\<exists>down'. panel_health rs (hr_status overall, lines, down) =
      (hr_status (foldl combine overall rs), lines @ map report_line rs, down') \<and>
    hr_detail (foldl combine overall rs) = join ''; '' down' \<and> (\<forall>x\<in>set down'. x \<noteq> [])"
  using assms
proof (induction rs arbitrary: overall lines down)
  case (Cons r rs)
  let ?down = "if hr_status r = Down then down @ [hr_name r @ '':Down''] else down"
  have "panel_health (r # rs) (hr_status overall, lines, down) = panel_health rs (hr_status (combine overall r), lines @ [report_line r], ?down)"
    by (simp add: combine_def Let_def)
  moreover have "hr_detail (combine overall r) = join ''; '' ?down" "\<forall>x\<in>set ?down. x \<noteq> []"
    using Cons.prems by (auto simp: combine_def join_snoc join_Nil)
  note Cons.IH [OF this, of "lines @ [report_line r]"]
  ultimately show ?case by simp
qed simp

text \<open>The status line of the window and that of the text dashboard both state the report of the health monitor:
  the three loops of the code agree.\<close>

definition shown_health :: "healthReport \<Rightarrow> string" where
  "shown_health r = healthStatusToString (hr_status r) @ (if hr_detail r \<noteq> [] then '' ('' @ hr_detail r @ '')'' else [])"

lemma overall_line_shown: "overall_line (hr_status r) (hr_detail r) = ''Overall: '' @ shown_health r @ endl"
  by (simp add: overall_line_def shown_health_def)

theorem window_shows_monitor:
  "map_prod (map_sum id healthOverall) id (ports_refresh p s) = map_prod (map_sum id shown_health) id (server_health s)"
proof (cases "checkAll (map check (healthChecks s)) s")
  case (Pair r s')
  show ?thesis
  proof (cases r)
    case (Inr rs)
    let ?o = "\<lparr>hr_name = ''cluster'', hr_status = Up, hr_detail = []\<rparr>"
    obtain down where "panel_health rs (Up, [], []) = (hr_status (foldl combine ?o rs), map report_line rs, down)"
      "hr_detail (foldl combine ?o rs) = join ''; '' down" "\<forall>x\<in>set down. x \<noteq> []"
      using panel_health_combine [of ?o "[]" rs "[]"] by auto
    then show ?thesis
      using Pair Inr join_Nil by (simp add: ports_refresh_def server_health_def monitor_check_def bindM_run Let_def overall_text_def shown_health_def)
  qed (use Pair in \<open>simp add: ports_refresh_def server_health_def monitor_check_def bindM_run Let_def\<close>)
qed

section \<open>The log shown\<close>

lemma backlog_all:
  "\<forall>i\<in>set is. i < length (lg_messages l) \<Longrightarrow>
     backlog q l is p = p\<lparr>lp_lines := lp_lines p @ map (\<lambda>i. log_line q (lg_messages l ! i)) is\<rparr>"
  by (induction "is" arbitrary: p) (simp_all add: getMessage_def logMessageLine_def)

lemma log_refresh_run:
  "log_refresh q l p = \<lparr>lp_lines = map (log_line q) (lg_messages l), lp_scroll = wq_range q (map (log_line q) (lg_messages l))\<rparr>"
proof -
  have "map (\<lambda>i. log_line q (lg_messages l ! i)) [0..<length (lg_messages l)] = map (log_line q) (lg_messages l)"
    by (rule nth_equalityI) simp_all
  then show ?thesis
    using backlog_all [of "[0..<length (lg_messages l)]" l q "p\<lparr>lp_lines := []\<rparr>"] by (simp add: log_refresh_def logger_size_def)
qed

definition at_bottom :: "window_qt \<Rightarrow> logPanel \<Rightarrow> bool" where
  "at_bottom q p \<longleftrightarrow> lp_scroll p = wq_range q (lp_lines p)"

lemma deliver_run:
  "at_bottom q p \<Longrightarrow> at_bottom q (deliver q sink sunk p) \<and>
     lp_lines (deliver q sink sunk p) = lp_lines p @ map (log_line q) (map snd (filter (\<lambda>(k, _). k = sink) sunk))"
proof (induction sunk arbitrary: p)
  case (Cons km sunk)
  have "at_bottom q (appendLine q line p)" "lp_lines (appendLine q line p) = lp_lines p @ [line]" for line
    using Cons.prems by (simp_all add: appendLine_def at_bottom_def Let_def)
  then show ?case using Cons by (cases km) (auto simp: deliver_def qtLog_def)
qed (simp add: deliver_def)

text \<open>C27: the log panel is complete and follows the log. A panel opened on a logger shows the messages of
  its queue, oldest first; after any further operations on the logger and the delivery of the lines its sink
  was handed it shows them followed by every message logged since while it was registered, each once and in order,
  even when the queue has dropped them, and the view is at the last line.\<close>

theorem log_panel_follows:
  assumes "log_refines l a" and "sink \<noteq> 0" and "al_received a sink = []"
    and "newLogPanel q sink l = (p, l1)" and "log_run ops (l1, a\<lparr>al_sinks := insert sink (al_sinks a)\<rparr>) = (l2, a2)"
  shows "lp_lines p = map (log_line q) (lg_messages l) \<and>
    lp_lines (deliver q sink (lg_sunk l2) p) = map (log_line q) (lg_messages l @ al_received a2 sink) \<and>
    at_bottom q (deliver q sink (lg_sunk l2) p)"
proof -
  have l1: "l1 = addLogger sink l" "lg_messages l1 = lg_messages l" and p: "p = log_refresh q l1 \<lparr>lp_lines = [], lp_scroll = 0\<rparr>"
    using assms(4) by (auto simp: newLogPanel_def addLogger_def Let_def)
  have "al_sinks a \<union> ({sink} - {0}) = insert sink (al_sinks a)" using assms(2) by auto
  then have "log_refines l1 (a\<lparr>al_sinks := insert sink (al_sinks a)\<rparr>)"
    using refines_step [OF assms(1), of "AddSink sink"] l1(1) by simp
  then have "log_refines l2 a2" using refines_run [of "(l1, a\<lparr>al_sinks := insert sink (al_sinks a)\<rparr>)" ops] assms(5) by simp
  then have "map snd (filter (\<lambda>(k, _). k = sink) (lg_sunk l2)) = al_received a2 sink" by (simp add: log_refines_def)
  moreover have "at_bottom q p" "lp_lines p = map (log_line q) (lg_messages l)" using p l1(2) by (simp_all add: log_refresh_run at_bottom_def)
  ultimately show ?thesis
    using deliver_run [of q p sink "lg_sunk l2"] by simp
qed

text \<open>A stand-in for Qt that substitutes nothing and appends the argument instead.\<close>

definition plain_qt :: window_qt where
  "plain_qt = \<lparr>wq_arg = (\<lambda>s a. s @ a), wq_time = int_to_string, wq_range = (\<lambda>ls. int (length ls))\<rparr>"

theorem log_panel_follows_witness:
  "\<exists>p l1 l2 a2. newLogPanel plain_qt 3 (empty_logger 7) = (p, l1) \<and>
     log_run [Log ''Server'' ''up'' INFO] (l1, empty_history\<lparr>al_sinks := {3}\<rparr>) = (l2, a2) \<and>
     length (lp_lines (deliver plain_qt 3 (lg_sunk l2) p)) = 1"
proof -
  let ?r = "newLogPanel plain_qt 3 (empty_logger 7)"
  let ?z = "log_run [Log ''Server'' ''up'' INFO] (snd ?r, empty_history\<lparr>al_sinks := {3}\<rparr>)"
  have "log_refines (empty_logger 7) empty_history" "al_received empty_history 3 = []"
    by (simp_all add: log_refines_def empty_logger_def empty_history_def lastn_short)
  then have "lp_lines (deliver plain_qt 3 (lg_sunk (fst ?z)) (fst ?r)) = map (log_line plain_qt) (lg_messages (empty_logger 7) @ al_received (snd ?z) 3)"
    using log_panel_follows [of "empty_logger 7" empty_history 3 plain_qt "fst ?r" "snd ?r" "[Log ''Server'' ''up'' INFO]" "fst ?z" "snd ?z"]
    by (simp add: empty_history_def)
  moreover have "length (al_received (snd ?z) 3) = 1" by (simp add: empty_history_def)
  ultimately show ?thesis by (intro exI [of _ "fst ?r"] exI [of _ "snd ?r"] exI [of _ "fst ?z"] exI [of _ "snd ?z"]) (simp add: empty_logger_def)
qed

end
