(* ===== verification/Main_Loops.thy ===== *)
theory Main_Loops
  imports Console_Theorems Server_Window
begin

text \<open>
  The loops around the components: the worker of the heartbeat (\<open>Heartbeat::run\<close>, src/server/heartbeat.cpp), the
  window mode of the server's \<open>main\<close> (src/server/main.cpp, src/server/gui/main_page.cpp), and the \<open>main\<close> of the
  client (src/client/main.cpp). What other threads do between two looks at the shared state is a function of
  the state in the list the loop runs over; the end of that list is the request to stop.
\<close>

section \<open>The heartbeat worker\<close>

text \<open>A round: what the other threads do during the wait. \<open>wait_for\<close> returns whether stop was requested.\<close>

fun heartbeat_run :: "(server \<Rightarrow> server) list \<Rightarrow> (server, unit) mon" where
  "heartbeat_run [] = modifyM (\<lambda>s. s\<lparr>hb_running := False\<rparr>)"
| "heartbeat_run (waited # rounds) =
     bindM (getsM hb_stopped) (\<lambda>stopped.
     if stopped then modifyM (\<lambda>s. s\<lparr>hb_running := False\<rparr>)
     else
       thenM (modifyM waited)
      (bindM (getsM hb_stopped) (\<lambda>stopped.
       if stopped then modifyM (\<lambda>s. s\<lparr>hb_running := False\<rparr>)
       else
         thenM (catchM (onNode pingOnce) (\<lambda>_. returnM ()))
           (heartbeat_run rounds))))"

text \<open>An exception of a round does not end the worker: it runs until it is told to stop.\<close>

theorem heartbeat_survives: "\<exists>s'. heartbeat_run rounds s = (Inr (), s') \<and> \<not> hb_running s'"
proof (induction rounds arbitrary: s)
  case (Cons waited rounds)
  obtain s' where "catchM (onNode pingOnce) (\<lambda>_. returnM ()) (waited s) = (Inr (), s')"
    by (cases "onNode pingOnce (waited s)"; cases "fst (onNode pingOnce (waited s))") (auto simp: catchM_run)
  moreover obtain s'' where "heartbeat_run rounds s' = (Inr (), s'')" "\<not> hb_running s''" using Cons by blast
  ultimately show ?case by (simp add: thenM_run bindM_run)
qed simp

section \<open>The server\<close>

text \<open>\<open>MainPage::run\<close> is the event loop of Qt; \<open>exec\<close> is what happens while it runs, with its result.\<close>

definition server_main_window :: "os_results \<Rightarrow> (server, int) mon \<Rightarrow> (server, int) mon" where
  "server_main_window os exec =
     thenM (server_start os) (bindM exec (\<lambda>rc. thenM server_stop (returnM rc)))"

definition server_main :: "string list \<Rightarrow> os_results \<Rightarrow> (server, int) mon \<Rightarrow> config \<Rightarrow> (server, int) mon" where
  "server_main argv os exec initial =
     (case parseArgs argv initial of
        (False, _) \<Rightarrow> returnM 1
      | (True, cfg) \<Rightarrow>
          thenM (onNode (modifyM (\<lambda>n. n\<lparr>n_cfg := cfg\<rparr>)))
            (if TEST_MODE cfg then thenM (server_main_console os) (returnM 0) else server_main_window os exec))"

section \<open>The client\<close>

definition client_isRunning :: "client \<Rightarrow> bool" where "client_isRunning c \<longleftrightarrow> c_supervisorRunning c"

definition client_isReconnecting :: "client \<Rightarrow> bool" where "client_isReconnecting c \<longleftrightarrow> c_reconnecting c"

text \<open>One look at the state: whether the console asked to stop, and what the other threads did before.\<close>

record poll =
  po_stop :: bool
  po_env :: "client \<Rightarrow> client"

text \<open>The loop of the console mode; \<open>waiting\<close> says that it is in the inner loop.\<close>

fun mainLoop :: "bool \<Rightarrow> poll list \<Rightarrow> (desk, unit) mon" where
  "mainLoop waiting [] = returnM ()"
| "mainLoop waiting (p # ps) =
     thenM (onClient (modifyM (po_env p)))
    (bindM (getsM dk_client) (\<lambda>c.
     if waiting then
       if \<not> po_stop p \<and> client_isRunning c \<and> client_isReconnecting c then mainLoop True ps else mainLoop False ps
     else if po_stop p \<or> \<not> client_isRunning c then returnM ()
     else if client_isReconnecting c then thenM (onTerm (say (''reconnecting...'' @ nl))) (mainLoop True ps)
     else if \<not> client_isAlive c then mainLoop False ps
     else thenM showDashboard (mainLoop False ps)))"

text \<open>\<open>dial\<close>: what the supervisor and the reader did while \<open>start\<close> waited; \<open>exec\<close>: the event loop of the window.\<close>

definition client_main :: "string list \<Rightarrow> (client \<Rightarrow> client) \<Rightarrow> poll list \<Rightarrow> (client, int) mon \<Rightarrow> (desk, int) mon" where
  "client_main argv dial polls exec =
     bindM (getsM (\<lambda>d. parseArgs argv (c_cfg (dk_client d)))) (\<lambda>(ok, cfg).
     if \<not> ok then returnM 1
     else
       thenM (onClient (modifyM (\<lambda>c. c\<lparr>c_cfg := cfg\<rparr>)))
      (bindM (onClient client_prepare) (\<lambda>prepared.
       if \<not> prepared then returnM 1
       else
         thenM (onClient (modifyM dial))
        (bindM (onClient client_started) (\<lambda>up.
         if \<not> up then returnM 1
         else if TEST_MODE cfg then
           thenM (mainLoop False polls) (thenM (onClient client_stop) (returnM 0))
         else bindM (onClient exec) (\<lambda>rc. thenM (onClient client_stop) (returnM rc)))))))"

text \<open>A guest at the end of the input: the next look at the dashboard ends the loop, whatever would follow.
  Once the supervisor is joined no other thread marks it as running.\<close>

theorem main_loop_ends_with_input:
  assumes "tm_in (dk_term d) = []" and "\<not> isLoggedIn (po_env p (dk_client d))" and "\<not> po_stop p"
    and "client_isRunning (po_env p (dk_client d))" and "\<not> client_isReconnecting (po_env p (dk_client d))"
    and "client_isAlive (po_env p (dk_client d))"
    and "\<And>c. \<not> client_isRunning c \<Longrightarrow> \<not> client_isRunning (po_env p' c)"
  shows "\<exists>d'. mainLoop False (p # p' # ps) d = (Inr (), d') \<and> \<not> client_isRunning (dk_client d')"
proof -
  let ?d = "d\<lparr>dk_client := po_env p (dk_client d)\<rparr>"
  obtain d1 where d1: "showDashboard ?d = (Inr (), d1)" "\<not> c_supervisorRunning (dk_client d1)"
    using end_of_input_run [of ?d] assms(1,2) by auto
  then have "\<not> client_isRunning (po_env p' (dk_client d1))" using assms(7) by (simp add: client_isRunning_def)
  then show ?thesis
    using d1(1) assms(2-6) by (simp add: thenM_run bindM_run onClient_def zoomM_run)
qed

end
