(* ===== verification/Chat_Page.thy ===== *)
theory Chat_Page
  imports Supervisor
begin

text \<open>
  The dashboard page of the graphical client (src/client/gui/pages/dashboard_page.cpp): what it shows and
  what its buttons and dialogs do. The widgets are represented by what the page sets on them; their layout and
  the text of the style sheet (src/client/gui/chat_style.cpp) are left out. Qt is a parameter: \<open>qt_trimmed\<close> is \<open>QString::trimmed\<close>, \<open>qt_date\<close> the formatting of
  \<open>QDateTime\<close>, \<open>qt_now\<close> its clock. A dialog is the texts of its fields when it was accepted. Strings are the
  UTF-8 bytes of the \<open>QString\<close>s. A page has a client.
\<close>

record qt =
  qt_trimmed :: "string \<Rightarrow> string"
  qt_date :: "int \<Rightarrow> string"
  qt_now :: int

datatype theme = Light | Dark
datatype density = Comfortable | Compact

text \<open>The distances of \<open>ChatSpacing\<close> in the order of its fields.\<close>

definition spacingFor :: "density \<Rightarrow> int list" where
  "spacingFor d = (if d = Compact then [8, 8, 8, 6, 220, 12, 8, 8] else [20, 16, 16, 10, 280, 24, 16, 16])"

text \<open>\<open>pg_atBottom\<close>: the transcript shows its last line, the test value() >= maximum() of the scroll bar (a change of
  the maximum by a resize shows as a scroll event of the environment); \<open>pg_badge\<close>: the text of the unread button when it is
  visible; \<open>pg_rows\<close>: name and label of the entries of the room list; \<open>pg_boxes\<close>: the message boxes shown;
  \<open>pg_look\<close>: theme and density of the client; \<open>pg_applied\<close>: those the window was last painted with;
  \<open>pg_sheets\<close>: the style sheets set so far.\<close>

record page =
  pg_client :: client
  pg_transcript :: "string list"
  pg_atBottom :: bool
  unreadCount :: int
  pg_badge :: "string option"
  pg_composer :: string
  pg_subtitle :: string
  pg_header :: "bool \<times> string"
  pg_createVisible :: bool
  pg_inviteVisible :: bool
  pg_kickVisible :: bool
  pg_deleteVisible :: bool
  pg_rows :: "(string \<times> string) list"
  pg_roomTitle :: string
  pg_leaveEnabled :: bool
  pg_boxes :: "(string \<times> string) list"
  pg_look :: "theme \<times> density"
  pg_applied :: "(theme \<times> density) option"
  pg_lookButtons :: "string \<times> string"
  pg_spacing :: "int list"
  pg_sheets :: "(theme \<times> density) list"

definition onC :: "(client, 'a) mon \<Rightarrow> (page, 'a) mon" where
  "onC = zoomM pg_client (\<lambda>c p. p\<lparr>pg_client := c\<rparr>)"

definition messageBox :: "string \<Rightarrow> string \<Rightarrow> (page, unit) mon" where
  "messageBox title text = modifyM (\<lambda>p. p\<lparr>pg_boxes := pg_boxes p @ [(title, text)]\<rparr>)"

section \<open>Labels\<close>

definition roomNameOf :: "client \<Rightarrow> string" where
  "roomNameOf c = (case st_currentRoom c of None \<Rightarrow> ''Lobby'' | Some r \<Rightarrow> ro_name r)"

definition formatChatTime :: "qt \<Rightarrow> u64 \<Rightarrow> string" where
  "formatChatTime q timestamp = qt_date q (if timestamp \<noteq> 0 then sint timestamp else qt_now q)"

definition privacyLabel :: "privacy \<Rightarrow> string" where
  "privacyLabel p = (if p = PRIVATE then ''Private'' else ''Public'')"

definition dot :: string where "dot = ''  '' @ [CHR 0xC2, CHR 0xB7] @ ''  ''"

definition roomListLabel :: "room \<Rightarrow> string \<Rightarrow> string" where
  "roomListLabel r currentRoom =
     ro_name r @ '' room'' @ dot @ privacyLabel (ro_privacy r) @ (if ro_name r = currentRoom then dot @ ''here'' else [])"

definition displayName :: "client \<Rightarrow> string" where
  "displayName c = (case st_user c of Some u \<Rightarrow> u_username u | None \<Rightarrow> ''Guest'')"

section \<open>The transcript\<close>

definition showUnread :: "(page, unit) mon" where
  "showUnread = modifyM (\<lambda>p.
     let p = (if unreadCount p < 0 then p\<lparr>unreadCount := 0\<rparr> else p) in
     if unreadCount p = 0 then p\<lparr>pg_badge := None\<rparr>
     else p\<lparr>pg_badge := Some (if unreadCount p = 1 then ''1 new'' else int_to_string (unreadCount p) @ '' new'')\<rparr>)"

text \<open>The handler of the scroll bar, for a move of the user.\<close>

definition onScroll :: "bool \<Rightarrow> (page, unit) mon" where
  "onScroll atBottom =
     thenM (modifyM (\<lambda>p. p\<lparr>pg_atBottom := atBottom\<rparr>))
       (if \<not> atBottom then returnM ()
        else thenM (modifyM (\<lambda>p. p\<lparr>unreadCount := 0\<rparr>)) showUnread)"

definition scrollTranscriptToBottom :: "(page, unit) mon" where
  "scrollTranscriptToBottom =
     thenM (modifyM (\<lambda>p. p\<lparr>pg_atBottom := True, unreadCount := 0\<rparr>)) showUnread"

definition chat_text :: "qt \<Rightarrow> chatLine \<Rightarrow> string" where
  "chat_text q l = formatChatTime q (cl_timestamp l) @ dot @ cl_author l @ dot @ cl_text l"

definition appendMessage :: "qt \<Rightarrow> chatLine \<Rightarrow> (page, unit) mon" where
  "appendMessage q l =
     thenM (modifyM (\<lambda>p. p\<lparr>pg_transcript := pg_transcript p @ [chat_text q l],
                           unreadCount := (if pg_atBottom p then 0 else unreadCount p + 1)\<rparr>))
       showUnread"

definition flushIncomingChat :: "qt \<Rightarrow> (page, unit) mon" where
  "flushIncomingChat q = bindM (onC takePendingChatMessages) (\<lambda>lines. forM lines (appendMessage q))"

text \<open>An emptied transcript is at its last line.\<close>

definition resetTranscriptForCurrentRoom :: "qt \<Rightarrow> (page, unit) mon" where
  "resetTranscriptForCurrentRoom q =
     thenM (onC clearPendingChatMessages)
    (thenM (modifyM (\<lambda>p. p\<lparr>pg_transcript := [], pg_atBottom := True, unreadCount := 0\<rparr>))
    (thenM showUnread
    (bindM (onC client_loadMessageHistory) (\<lambda>(error, lines).
       if error \<noteq> [] then appendMessage q \<lparr>cl_author = ''system'', cl_text = error, cl_timestamp = 0\<rparr>
       else forM lines (appendMessage q)))))"

section \<open>Appearance\<close>

definition toggleTheme :: "(page, unit) mon" where
  "toggleTheme = modifyM (\<lambda>p. p\<lparr>pg_look := (if fst (pg_look p) = Dark then Light else Dark, snd (pg_look p))\<rparr>)"

definition toggleDensity :: "(page, unit) mon" where
  "toggleDensity = modifyM (\<lambda>p. p\<lparr>pg_look := (fst (pg_look p), if snd (pg_look p) = Compact then Comfortable else Compact)\<rparr>)"

definition applyAppearance :: "(page, unit) mon" where
  "applyAppearance = modifyM (\<lambda>p.
     let (theme, density) = pg_look p;
         p = p\<lparr>pg_lookButtons := (if theme = Dark then ''Dark'' else ''Light'', if density = Compact then ''Compact'' else ''Comfortable'')\<rparr>
     in if pg_applied p = Some (theme, density) then p
        else p\<lparr>pg_applied := Some (theme, density), pg_sheets := pg_sheets p @ [(theme, density)], pg_spacing := spacingFor density\<rparr>)"

section \<open>Refreshing\<close>

definition link_status :: "(client, healthStatus) mon" where
  "link_status =
     bindM (getsM c_healthWired) (\<lambda>wired.
     bindM (monitor_check (if wired then [clientHealthAdapter] else [])) (\<lambda>r. returnM (hr_status r)))"

definition ellipsis :: string where "ellipsis = [CHR 0xE2, CHR 0x80, CHR 0xA6]"

definition subtitle_of :: "healthStatus \<Rightarrow> client \<Rightarrow> string" where
  "subtitle_of link c =
     (if c_reconnecting c then ''reconnecting...''
      else if link = Up then ''Connected'' @ (if connectedEndpoint c \<noteq> [] then '' '' @ connectedEndpoint c else [])
      else if link = Degraded then ''Degraded'' else ''Disconnected'')"

text \<open>\<open>std::sort\<close> by id; the order of rooms with the same id is one of those it may produce.\<close>

definition rows_of :: "healthStatus \<Rightarrow> client \<Rightarrow> (string \<times> string) list" where
  "rows_of link c =
     (let nextRows = map (\<lambda>r. (ro_name r, roomListLabel r (roomNameOf c))) (sort_key ro_id (st_rooms c)) in
      if nextRows = [] then
        [([], if c_reconnecting c then ''(reconnecting...)''
              else if link \<noteq> Down then ''(waiting for rooms'' @ ellipsis @ '')'' else ''(not connected)'')]
      else nextRows)"

definition refresh :: "qt \<Rightarrow> (page, unit) mon" where
  "refresh q =
     thenM (flushIncomingChat q)
    (thenM applyAppearance
    (bindM (onC link_status) (\<lambda>link.
     modifyM (\<lambda>p.
       let c = pg_client p; nextRows = rows_of link c in
       p\<lparr>pg_subtitle := subtitle_of link c, pg_header := (isLoggedIn c, displayName c),
         pg_createVisible := isLoggedIn c, pg_inviteVisible := isLoggedIn c,
         pg_kickVisible := state_isAdmin c, pg_deleteVisible := state_isAdmin c,
         pg_rows := (if pg_rows p = nextRows then pg_rows p else nextRows),
         pg_roomTitle := ''#  '' @ roomNameOf c, pg_leaveEnabled := (roomNameOf c \<noteq> ''Lobby'')\<rparr>))))"

section \<open>Buttons and dialogs\<close>

text \<open>A client request whose error is shown in a box; \<open>success\<close> otherwise.\<close>

definition attempt :: "string \<Rightarrow> (client, string) mon \<Rightarrow> (page, 'a) mon \<Rightarrow> 'a \<Rightarrow> (page, 'a) mon" where
  "attempt title m success failed =
     bindM (onC m) (\<lambda>error. if error \<noteq> [] then thenM (messageBox title error) (returnM failed) else success)"

definition showRoom :: "qt \<Rightarrow> (page, unit) mon" where
  "showRoom q = thenM (resetTranscriptForCurrentRoom q) (refresh q)"

definition enterRoom :: "qt \<Rightarrow> string \<Rightarrow> (page, bool) mon" where
  "enterRoom q name =
     (if name = [] then returnM False
      else attempt ''Join room'' (client_joinRoom name) (thenM (showRoom q) (returnM True)) False)"

text \<open>A double click on an entry of the room list.\<close>

definition onRoomDoubleClicked :: "qt \<Rightarrow> string \<Rightarrow> (page, unit) mon" where
  "onRoomDoubleClicked q name = (if name = [] \<or> hd name = CHR ''('' then returnM () else ignoreM (enterRoom q name))"

definition openLogInDialog :: "qt \<Rightarrow> (string \<times> string) option \<Rightarrow> (page, unit) mon" where
  "openLogInDialog q answer =
     bindM (getsM pg_client) (\<lambda>c.
     if isLoggedIn c then messageBox ''Log in'' ''Already logged in.''
     else case answer of
       None \<Rightarrow> returnM ()
     | Some (userField, password) \<Rightarrow>
         let username = qt_trimmed q userField in
         if username = [] then messageBox ''Log in'' ''Username cannot be empty.''
         else if password = [] then messageBox ''Log in'' ''Password cannot be empty.''
         else attempt ''Log in'' (client_login username password) (showRoom q) ())"

definition openSignUpDialog :: "qt \<Rightarrow> (string \<times> string \<times> string) option \<Rightarrow> (page, unit) mon" where
  "openSignUpDialog q answer =
     bindM (getsM pg_client) (\<lambda>c.
     if isLoggedIn c then messageBox ''Sign in'' ''Already logged in.''
     else case answer of
       None \<Rightarrow> returnM ()
     | Some (userField, password, emailField) \<Rightarrow>
         let username = qt_trimmed q userField; email = qt_trimmed q emailField in
         if username = [] \<or> email = [] then messageBox ''Sign in'' ''Username and email are required.''
         else if password = [] then messageBox ''Sign in'' ''Password cannot be empty.''
         else attempt ''Sign in'' (client_signUp username password email) (showRoom q) ())"

definition openUpdateProfileDialog :: "qt \<Rightarrow> (string \<times> string) option \<Rightarrow> (page, unit) mon" where
  "openUpdateProfileDialog q answer =
     bindM (getsM pg_client) (\<lambda>c.
     if \<not> isLoggedIn c then messageBox ''Update profile'' ''Log in first.''
     else case answer of
       None \<Rightarrow> returnM ()
     | Some (userField, password) \<Rightarrow>
         let username = qt_trimmed q userField; email = (case st_user c of None \<Rightarrow> [] | Some u \<Rightarrow> u_email u) in
         if username = [] then messageBox ''Update profile'' ''Username cannot be empty.''
         else attempt ''Update profile'' (client_updateProfile username password email) (refresh q) ())"

definition openJoinRoomDialog :: "qt \<Rightarrow> string option \<Rightarrow> (page, unit) mon" where
  "openJoinRoomDialog q answer =
     (case answer of
        None \<Rightarrow> returnM ()
      | Some roomField \<Rightarrow>
          let name = qt_trimmed q roomField in
          if name = [] then messageBox ''Join room'' ''Room name cannot be empty.'' else ignoreM (enterRoom q name))"

definition openCreateRoomDialog :: "qt \<Rightarrow> (string \<times> string) option \<Rightarrow> (page, unit) mon" where
  "openCreateRoomDialog q answer =
     bindM (getsM pg_client) (\<lambda>c.
     if \<not> isLoggedIn c then messageBox ''Create room'' ''Log in to create a room.''
     else case answer of
       None \<Rightarrow> returnM ()
     | Some (nameField, privacyText) \<Rightarrow>
         let name = qt_trimmed q nameField; privacyWire = (if privacyText = ''Private'' then ''PRIVATE'' else ''PUBLIC'') in
         if name = [] then messageBox ''Create room'' ''Room name cannot be empty.''
         else attempt ''Create room'' (client_createRoom name privacyWire) (ignoreM (enterRoom q name)) ())"

definition openInviteDialog :: "qt \<Rightarrow> string option \<Rightarrow> (page, unit) mon" where
  "openInviteDialog q answer =
     bindM (getsM pg_client) (\<lambda>c.
     let currentRoom = roomNameOf c in
     if \<not> isLoggedIn c then messageBox ''Invite'' ''Log in to invite users.''
     else if currentRoom = ''Lobby'' then messageBox ''Invite'' ''Join a room before inviting.''
     else case answer of
       None \<Rightarrow> returnM ()
     | Some invitee \<Rightarrow>
         let username = qt_trimmed q invitee in
         if username = [] then messageBox ''Invite'' ''Username cannot be empty.''
         else attempt ''Invite'' (client_inviteToRoom currentRoom username)
                (messageBox ''Invite'' (''Invited '' @ username @ '' to '' @ currentRoom @ ''.'')) ())"

definition openKickDialog :: "qt \<Rightarrow> string option \<Rightarrow> (page, unit) mon" where
  "openKickDialog q answer =
     bindM (getsM pg_client) (\<lambda>c.
     let currentRoom = roomNameOf c in
     if \<not> state_isAdmin c then messageBox ''Kick'' ''Admin required to kick users.''
     else if currentRoom = ''Lobby'' then messageBox ''Kick'' ''Join a room before kicking.''
     else case answer of
       None \<Rightarrow> returnM ()
     | Some target \<Rightarrow>
         let username = qt_trimmed q target in
         if username = [] then messageBox ''Kick'' ''Username cannot be empty.''
         else attempt ''Kick'' (client_kickFromRoom currentRoom username)
                (messageBox ''Kick'' (''Kicked '' @ username @ '' from '' @ currentRoom @ ''.'')) ())"

definition openDeleteRoomDialog :: "qt \<Rightarrow> string option \<Rightarrow> (page, unit) mon" where
  "openDeleteRoomDialog q answer =
     bindM (getsM pg_client) (\<lambda>c.
     if \<not> state_isAdmin c then messageBox ''Delete room'' ''Admin required to delete a room.''
     else case answer of
       None \<Rightarrow> returnM ()
     | Some roomField \<Rightarrow>
         let name = qt_trimmed q roomField in
         if name = [] then messageBox ''Delete room'' ''Room name cannot be empty.''
         else if name = ''Lobby'' \<or> name = ''General'' then messageBox ''Delete room'' ''Cannot delete Lobby or General.''
         else attempt ''Delete room'' (client_deleteRoom name) (showRoom q) ())"

definition page_leaveRoom :: "qt \<Rightarrow> (page, unit) mon" where
  "page_leaveRoom q = attempt ''Leave room'' client_leaveRoom (showRoom q) ()"

definition page_sendMessage :: "qt \<Rightarrow> (page, unit) mon" where
  "page_sendMessage q =
     bindM (getsM pg_composer) (\<lambda>composer.
     let text = qt_trimmed q composer in
     if text = [] then returnM ()
     else attempt ''Send message'' (client_sendMessage text)
            (thenM (flushIncomingChat q)
            (thenM scrollTranscriptToBottom (modifyM (\<lambda>p. p\<lparr>pg_composer := []\<rparr>)))) ())"

definition page_logout :: "qt \<Rightarrow> (page, unit) mon" where
  "page_logout q =
     bindM (getsM pg_client) (\<lambda>c.
     if \<not> isLoggedIn c then messageBox ''Logout'' ''Not logged in.''
     else attempt ''Logout'' client_logout (showRoom q) ())"

end
