(* ===== verification/Page_Theorems.thy ===== *)
theory Page_Theorems
  imports Chat_Page Client_Calls Machine
begin

text \<open>
  The dashboard page: the unread badge is right in every reachable state, and entering a room shows the
  history of that room.
\<close>

section \<open>The unread badge\<close>

definition badge_of :: "int \<Rightarrow> string option" where
  "badge_of n = (if n = 0 then None else Some (if n = 1 then ''1 new'' else int_to_string n @ '' new''))"

definition page_ok :: "page \<Rightarrow> bool" where
  "page_ok p \<longleftrightarrow> 0 \<le> unreadCount p \<and> unreadCount p \<le> int (length (pg_transcript p)) \<and>
     (pg_atBottom p \<longrightarrow> unreadCount p = 0) \<and> pg_badge p = badge_of (unreadCount p)"

lemma showUnread_run: "0 \<le> unreadCount p \<Longrightarrow> showUnread p = (Inr (), p\<lparr>pg_badge := badge_of (unreadCount p)\<rparr>)"
  by (simp add: showUnread_def badge_of_def Let_def)

lemma append_run:
  assumes "page_ok p"
  shows "appendMessage q l p = (Inr (), p\<lparr>pg_transcript := pg_transcript p @ [chat_text q l],
     unreadCount := (if pg_atBottom p then 0 else unreadCount p + 1),
     pg_badge := badge_of (if pg_atBottom p then 0 else unreadCount p + 1)\<rparr>)"
  using assms by (simp add: appendMessage_def thenM_run page_ok_def showUnread_run)

lemma ok_append [keeps_intros]: "keeps page_ok (appendMessage q l)"
  by (rule keepsI) (simp add: append_run, simp add: page_ok_def)

lemma ok_onC [keeps_intros]: "keeps page_ok (onC m)"
  by (rule keepsI) (simp add: onC_def zoomM_run page_ok_def split: prod.split)

lemma ok_messageBox [keeps_intros]: "keeps page_ok (messageBox t s)"
  by (rule keepsI) (simp add: messageBox_def page_ok_def)

lemma ok_onScroll [keeps_intros]: "keeps page_ok (onScroll b)"
  by (rule keepsI) (simp add: onScroll_def thenM_run showUnread_run page_ok_def)

lemma ok_toBottom [keeps_intros]: "keeps page_ok scrollTranscriptToBottom"
  by (rule keepsI) (simp add: scrollTranscriptToBottom_def thenM_run showUnread_run page_ok_def)

lemma ok_flush [keeps_intros]: "keeps page_ok (flushIncomingChat q)"
  unfolding flushIncomingChat_def by (intro keeps_intros)

lemma reset_start:
  "thenM (modifyM (\<lambda>p. p\<lparr>pg_transcript := [], pg_atBottom := True, unreadCount := 0\<rparr>)) (thenM showUnread m) p =
     m (p\<lparr>pg_transcript := [], pg_atBottom := True, unreadCount := 0, pg_badge := None\<rparr>)"
  by (simp add: thenM_run showUnread_run badge_of_def)

lemma ok_reset [keeps_intros]: "keeps page_ok (resetTranscriptForCurrentRoom q)"
proof -
  let ?m = "bindM (onC client_loadMessageHistory) (\<lambda>(error, lines).
     if error \<noteq> [] then appendMessage q \<lparr>cl_author = ''system'', cl_text = error, cl_timestamp = 0\<rparr>
     else forM lines (appendMessage q))"
  have "keeps page_ok ?m" by (intro keeps_intros)
  then have "keeps page_ok (\<lambda>p. ?m (p\<lparr>pg_transcript := [], pg_atBottom := True, unreadCount := 0, pg_badge := None\<rparr>))"
    by (auto simp: keeps_def page_ok_def badge_of_def)
  then show ?thesis
    unfolding resetTranscriptForCurrentRoom_def by (intro keeps_thenM [OF ok_onC]) (simp only: reset_start keeps_def)
qed

lemma ok_appearance [keeps_intros]: "keeps page_ok applyAppearance" "keeps page_ok toggleTheme" "keeps page_ok toggleDensity"
  by (rule keepsI; simp add: applyAppearance_def toggleTheme_def toggleDensity_def page_ok_def Let_def split: prod.split)+

lemma ok_refresh [keeps_intros]: "keeps page_ok (refresh q)"
proof -
  have "keeps page_ok (modifyM (\<lambda>p. let c = pg_client p; nextRows = rows_of link c in
       p\<lparr>pg_subtitle := subtitle_of link c, pg_header := (isLoggedIn c, displayName c),
         pg_createVisible := isLoggedIn c, pg_inviteVisible := isLoggedIn c,
         pg_kickVisible := state_isAdmin c, pg_deleteVisible := state_isAdmin c,
         pg_rows := (if pg_rows p = nextRows then pg_rows p else nextRows),
         pg_roomTitle := ''#  '' @ roomNameOf c, pg_leaveEnabled := (roomNameOf c \<noteq> ''Lobby'')\<rparr>))" for link
    by (rule keepsI) (simp add: page_ok_def Let_def)
  then show ?thesis unfolding refresh_def by (intro keeps_intros)
qed

lemma ok_attempt [keeps_intros]: "keeps page_ok s \<Longrightarrow> keeps page_ok (attempt t m s f)"
  unfolding attempt_def by (intro keeps_intros)

lemma ok_showRoom [keeps_intros]: "keeps page_ok (showRoom q)"
  unfolding showRoom_def by (intro keeps_intros)

lemma ok_enterRoom [keeps_intros]: "keeps page_ok (enterRoom q n)"
  unfolding enterRoom_def by (intro keeps_intros)

text \<open>What can happen to a page: the timer, the network, the user.\<close>

datatype pageOp =
    Refresh | ToggleTheme | ToggleDensity | Receive nat | Scroll bool | ToBottom | Type string | Send | DoubleClick string
  | LogInDialog "(string \<times> string) option" | SignUpDialog "(string \<times> string \<times> string) option"
  | UpdateProfileDialog "(string \<times> string) option" | JoinRoomDialog "string option"
  | CreateRoomDialog "(string \<times> string) option" | InviteDialog "string option" | KickDialog "string option"
  | DeleteRoomDialog "string option" | LeaveRoom | LogOut

fun page_exec :: "qt \<Rightarrow> pageOp \<Rightarrow> (page, unit) mon" where
  "page_exec q Refresh = refresh q"
| "page_exec q ToggleTheme = toggleTheme"
| "page_exec q ToggleDensity = toggleDensity"
| "page_exec q (Receive n) = onC (readerTurns n)"
| "page_exec q (Scroll b) = onScroll b"
| "page_exec q ToBottom = scrollTranscriptToBottom"
| "page_exec q (Type s) = modifyM (\<lambda>p. p\<lparr>pg_composer := s\<rparr>)"
| "page_exec q Send = page_sendMessage q"
| "page_exec q (DoubleClick n) = onRoomDoubleClicked q n"
| "page_exec q (LogInDialog a) = openLogInDialog q a"
| "page_exec q (SignUpDialog a) = openSignUpDialog q a"
| "page_exec q (UpdateProfileDialog a) = openUpdateProfileDialog q a"
| "page_exec q (JoinRoomDialog a) = openJoinRoomDialog q a"
| "page_exec q (CreateRoomDialog a) = openCreateRoomDialog q a"
| "page_exec q (InviteDialog a) = openInviteDialog q a"
| "page_exec q (KickDialog a) = openKickDialog q a"
| "page_exec q (DeleteRoomDialog a) = openDeleteRoomDialog q a"
| "page_exec q LeaveRoom = page_leaveRoom q"
| "page_exec q LogOut = page_logout q"

lemma ok_type [keeps_intros]: "keeps page_ok (modifyM (\<lambda>p. p\<lparr>pg_composer := s\<rparr>))"
  by (rule keepsI) (simp add: page_ok_def)

lemma page_exec_keeps: "keeps page_ok (page_exec q e)"
  by (cases e; simp only: page_exec.simps; (unfold page_sendMessage_def onRoomDoubleClicked_def openLogInDialog_def
      openSignUpDialog_def openUpdateProfileDialog_def openJoinRoomDialog_def openCreateRoomDialog_def openInviteDialog_def
      openKickDialog_def openDeleteRoomDialog_def page_leaveRoom_def page_logout_def Let_def)?;
      intro keeps_intros keeps_ignoreM)

interpretation page: machine "\<lambda>_ _. True" "page_exec q" page_ok for q
  using page_exec_keeps by unfold_locales (auto simp: keeps_def)


definition blank_page :: "client \<Rightarrow> page" where
  "blank_page c = \<lparr>pg_client = c, pg_transcript = [], pg_atBottom = True, unreadCount = 0, pg_badge = None, pg_composer = [],
     pg_subtitle = [], pg_header = (False, []), pg_createVisible = False, pg_inviteVisible = False, pg_kickVisible = False,
     pg_deleteVisible = False, pg_rows = [], pg_roomTitle = [], pg_leaveEnabled = False, pg_boxes = [],
     pg_look = (Light, Comfortable), pg_applied = None, pg_lookButtons = ([], []), pg_spacing = [], pg_sheets = []\<rparr>"

definition plain_qt :: qt where
  "plain_qt = \<lparr>qt_trimmed = (\<lambda>s. s), qt_date = int_to_string, qt_now = 0\<rparr>"


section \<open>Entering a room\<close>

text \<open>Pushes that tell nobody who or where they are: chat messages, server directories, plain room lists.\<close>

definition plain_push :: "packet \<Rightarrow> bool" where
  "plain_push p \<longleftrightarrow> isPush p \<and> (p_type p = ROOM_LIST \<longrightarrow> push_user p = None \<and> p_room p = [])"

text \<open>The chat lines they bring to a client in a room.\<close>

definition chat_line :: "u64 \<Rightarrow> packet \<Rightarrow> chatLine" where
  "chat_line now p = \<lparr>cl_author = p_sender p, cl_text = p_message p,
     cl_timestamp = (if p_timestamp p \<noteq> 0 then p_timestamp p else now)\<rparr>"

definition chat_in :: "string \<Rightarrow> packet list \<Rightarrow> packet list" where
  "chat_in name ps = filter (\<lambda>p. p_type p = MESSAGE \<and> (p_room p = [] \<or> p_room p = name)) ps"

lemma plain_push_run:
  assumes "plain_push p" and "st_currentRoom c = Some room"
  shows "\<exists>c'. onPush p c = (Inr (), c') \<and> identity c' = identity c \<and> clk_s c' = clk_s c \<and>
    c_pendingChat c' = c_pendingChat c @ map (chat_line (clk_s c)) (chat_in (ro_name room) [p])"
proof -
  consider "p_type p = MESSAGE" | "p_type p = SERVER_DIRECTORY" | "p_type p = ROOM_LIST" using assms(1) by (auto simp: plain_push_def isPush_def)
  then show ?thesis
  proof cases
    case 3
    then show ?thesis using assms
      by (auto simp: onPush_def applyRoomListPush_def applyRoomDirectory_def bindM_run thenM_run whenM_def Let_def plain_push_def
          identity_def chat_in_def)
  qed (use assms in \<open>auto simp: onPush_def enqueueChatPush_def applyServerDirectoryPush_def rebuildEndpoints_def thenM_run Let_def
    identity_def chat_in_def chat_line_def\<close>)
qed

lemma hear_plain:
  assumes "\<forall>p\<in>set ps. plain_push p" and "st_currentRoom c = Some room"
  shows "identity (hear ps c) = identity c \<and> c_pendingChat (hear ps c) = c_pendingChat c @ map (chat_line (clk_s c)) (chat_in (ro_name room) ps)"
  using assms
proof (induction ps arbitrary: c)
  case (Cons p ps)
  obtain c1 where c1: "onPush p c = (Inr (), c1)" "identity c1 = identity c" "clk_s c1 = clk_s c"
    "c_pendingChat c1 = c_pendingChat c @ map (chat_line (clk_s c)) (chat_in (ro_name room) [p])"
    using plain_push_run [of p c] Cons.prems by auto
  have "st_currentRoom c1 = Some room" using c1(2) Cons.prems(2) by (simp add: identity_def)
  then show ?case using Cons.IH [of c1] Cons.prems(1) c1 by (simp add: hear_def chat_in_def)
qed (simp add: hear_def chat_in_def)

lemma hear_view: "view c = view d \<Longrightarrow> view (hear ps c) = view (hear ps d)"
proof (induction ps arbitrary: c d)
  case (Cons p ps)
  show ?case using Cons.IH [OF onPush_view [OF Cons.prems, of p]] by (simp only: hear_def fold.simps comp_apply)
qed (simp only: hear_def fold.simps id_apply)

text \<open>What is left of a wait whose reply arrives after the pushes \<open>ps\<close>.\<close>

definition answered :: "packet list \<Rightarrow> arrival list \<Rightarrow> client \<Rightarrow> client \<Rightarrow> bool" where
  "answered ps rest c c' \<longleftrightarrow> view c' = view (hear ps c) \<and> link_of c' = link_of (c\<lparr>net_arrivals := rest\<rparr>) \<and>
     steady c' = steady (c\<lparr>net_lastInboundMs := clk_ms c\<rparr>)"

lemma receive_hears:
  assumes "net_connected c" and "net_socket c \<noteq> INVALID_SOCKET" and "net_incoming c = []" and "net_handler c"
    and "net_arrivals c = map Got ps @ Got r # rest" and "\<forall>p\<in>set ps. isPush p" and "p_type r \<noteq> HEARTBEAT" and "\<not> isPush r"
  shows "\<exists>c'. receivePacket timed c = (Inr (Some r), c') \<and> answered ps rest c c'"
  using assms
proof (induction ps arbitrary: c)
  case Nil
  let ?d = "c\<lparr>net_arrivals := rest, net_lastInboundMs := clk_ms c, net_incoming := [r]\<rparr>"
  have "readerTurn onPush c = (Inr (), ?d)" using readerTurn_eq [of c "Got r" rest] Nil by (simp add: Let_def)
  then have "receivePacket timed c = (Inr (Some r), ?d\<lparr>net_incoming := []\<rparr>)"
    using Nil by (subst receivePacket.simps) (simp add: receivePacket.simps [of timed ?d])
  then show ?case using Nil.prems(3) by (simp add: answered_def hear_def view_def link_of_def steady_def)
next
  case (Cons p ps)
  let ?d = "c\<lparr>net_arrivals := map Got ps @ Got r # rest, net_lastInboundMs := clk_ms c\<rparr>"
  obtain c1 where c1: "onPush p ?d = (Inr (), c1)" "link_of c1 = link_of ?d" "steady c1 = steady ?d" using onPush_frame by blast
  have p: "isPush p" "p_type p \<noteq> HEARTBEAT" using Cons.prems(6) by (auto simp: isPush_def)
  have "readerTurn onPush c = (Inr (), c1)"
    using readerTurn_eq [of c "Got p" "map Got ps @ Got r # rest"] Cons.prems(4,5) p c1(1) by (simp add: Let_def)
  then have "receivePacket timed c = receivePacket timed c1" using Cons.prems by (subst receivePacket.simps) simp
  moreover obtain c' where c': "receivePacket timed c1 = (Inr (Some r), c')" "answered ps rest c1 c'"
    using Cons.IH [of c1] Cons.prems c1(2) by (auto simp: link_of_def)
  moreover have "view ?d = view c" by (simp add: view_def)
  then have "view c1 = view (snd (onPush p c))" using onPush_view [of ?d c p] c1(1) by simp
  then have "view (hear ps c1) = view (hear (p # ps) c)" using hear_view [of c1 "snd (onPush p c)" ps] by (simp add: hear_def)
  ultimately show ?case using c1(2,3) by (auto simp: answered_def link_of_def steady_def)
qed

lemma request_hears:
  assumes "linked c" and "build (clk_s c) = Inr q" and "sendable q" and "\<not> net_writesFail c"
    and "net_arrivals c = map Got ps @ Got r # rest" and "\<forall>p\<in>set ps. isPush p" and "p_type r = t" and "t \<noteq> HEARTBEAT" and "\<not> isPush r"
  shows "\<exists>c'. request build t e1 e2 c = (Inr (Inr r), c') \<and> answered ps rest (c\<lparr>net_sent := net_sent c @ [q]\<rparr>) c'"
proof -
  let ?c = "c\<lparr>net_sent := net_sent c @ [q]\<rparr>"
  obtain c' where c': "receivePacket False ?c = (Inr (Some r), c')" "answered ps rest ?c c'"
    using receive_hears [of ?c ps r rest False] assms by (auto simp: linked_def)
  then have "waitFor False t ?c = (Inr (Some r), c')" using assms(7) by (subst waitFor.simps) simp
  moreover have "net_sendPacket q c = (Inr True, ?c)"
    using assms by (simp add: net_sendPacket_def bindM_run thenM_run linked_def serialize_Nil_iff)
  ultimately show ?thesis using assms(2) c'(2) by (simp add: request_def bindM_run)
qed

text \<open>The client is as able to talk as before, and has heard the pushes.\<close>

lemma answered_linked:
  assumes "answered ps rest (c\<lparr>net_sent := sent\<rparr>) c'" and "linked c" and "0 < clk_ms c" and "\<not> net_writesFail c"
  shows "linked c' \<and> 0 < clk_ms c' \<and> \<not> net_writesFail c' \<and> net_arrivals c' = rest \<and> clk_s c' = clk_s c"
proof -
  have v: "view c' = view (hear ps (c\<lparr>net_sent := sent\<rparr>))" using assms(1) by (simp add: answered_def)
  have "clk_s (hear ps d) = clk_s d" for d
  proof (induction ps arbitrary: d)
    case (Cons p ps)
    have "safe (\<lambda>c. clk_s c = t) (onPush p)" for t
      unfolding onPush_def applyRoomListPush_def applyRoomDirectory_def applyServerDirectoryPush_def rebuildEndpoints_def
        enqueueChatPush_def Let_def
      by (intro safe_intros safe_modifyM) (simp_all split: option.split)
    from keepsD [OF safe_keeps [OF this]] have "clk_s (snd (onPush p d)) = clk_s d" by simp
    then show ?case using Cons by (simp add: hear_def)
  qed (simp add: hear_def)
  then have "clk_s c' = clk_s c" using v by (simp add: view_def)
  then show ?thesis
    using assms by (auto simp: answered_def link_of_def steady_def linked_def heartbeatMissed_def HEARTBEAT_TIMEOUT_def)
qed

lemma answered_heard:
  assumes "answered ps rest (c\<lparr>net_sent := sent\<rparr>) c'" and "\<forall>p\<in>set ps. plain_push p" and "st_currentRoom c = Some room"
  shows "identity c' = identity c \<and> c_pendingChat c' = c_pendingChat c @ map (chat_line (clk_s c)) (chat_in (ro_name room) ps)"
  using hear_plain [OF assms(2), of "c\<lparr>net_sent := sent\<rparr>" room] assms(1,3) by (simp add: answered_def view_def identity_def)

lemma appends_run:
  assumes "page_ok p" and "pg_atBottom p"
  shows "forM ls (appendMessage q) p = (Inr (), p\<lparr>pg_transcript := pg_transcript p @ map (chat_text q) ls\<rparr>)"
  using assms
proof (induction ls arbitrary: p)
  case (Cons l ls)
  have u: "unreadCount p = 0" "pg_badge p = None" using Cons.prems by (simp_all add: page_ok_def badge_of_def)
  have "appendMessage q l p = (Inr (), p\<lparr>pg_transcript := pg_transcript p @ [chat_text q l]\<rparr>)"
    using append_run [OF Cons.prems(1)] Cons.prems(2) u by (simp add: badge_of_def)
  moreover have "page_ok (p\<lparr>pg_transcript := pg_transcript p @ [chat_text q l]\<rparr>)" using Cons.prems u by (simp add: page_ok_def)
  ultimately show ?case using Cons.IH [of "p\<lparr>pg_transcript := pg_transcript p @ [chat_text q l]\<rparr>"] Cons.prems(2) by (simp add: thenM_run)
qed simp

lemma room_named_name [simp]: "ro_name (room_named name) = name"
  by (simp add: room_named_def lobby_room_def mkRoom_def)

lemma join_run:
  assumes "linked c" and "\<not> net_writesFail c" and "st_user c = Some u" and "u_username u \<noteq> []" and "name \<noteq> []"
    and "sendable (mkPacket (clk_s c) (u_username u) [] ROOM_JOIN name [] 0)"
    and "net_arrivals c = map Got ps @ Got r # rest" and "\<forall>p\<in>set ps. isPush p" and "p_type r = ROOM_JOIN" and "p_code r = responseCode SUCCESS"
  shows "\<exists>c'. client_joinRoom name c = (Inr [], c'\<lparr>st_currentRoom := Some (room_named (p_room r))\<rparr>) \<and>
    answered ps rest (c\<lparr>net_sent := net_sent c @ [mkPacket (clk_s c) (u_username u) [] ROOM_JOIN name [] 0]\<rparr>) c'"
proof -
  have "\<not> isPush r" using assms(9) by (simp add: isPush_def)
  then obtain c' where "request (\<lambda>now. buildJoinRoom now (client_username c) name) ROOM_JOIN ''Failed to send join request.'' ''Connection lost while joining.'' c =
      (Inr (Inr r), c')" "answered ps rest (c\<lparr>net_sent := net_sent c @ [mkPacket (clk_s c) (u_username u) [] ROOM_JOIN name [] 0]\<rparr>) c'"
    using request_hears [OF assms(1) _ assms(6,2,7,8,9)] assms(3-5) by (fastforce simp: buildJoinRoom_def client_username_def)
  then show ?thesis
    using assms by (intro exI [of _ c']) (simp add: client_joinRoom_def bindM_run thenM_run conclude_def setCurrentRoom_def client_isAlive_def linked_def)
qed

lemma load_run:
  assumes "linked c" and "\<not> net_writesFail c" and "st_user c = Some u" and "u_username u \<noteq> []"
    and "st_currentRoom c = Some room" and "ro_name room \<noteq> []"
    and "sendable (mkPacket (clk_s c) (u_username u) [] LOAD_MESSAGE_HISTORY (ro_name room) [] 0)"
    and "net_arrivals c = map Got ps @ Got r # rest" and "\<forall>p\<in>set ps. isPush p" and "p_type r = LOAD_MESSAGE_HISTORY" and "p_code r = responseCode SUCCESS"
  shows "\<exists>c'. client_loadMessageHistory c = (Inr ([], parseHistoryPayload (p_message r)), c') \<and>
    answered ps rest (c\<lparr>net_sent := net_sent c @ [mkPacket (clk_s c) (u_username u) [] LOAD_MESSAGE_HISTORY (ro_name room) [] 0]\<rparr>) c'"
proof -
  have "\<not> isPush r" using assms(10) by (simp add: isPush_def)
  then obtain c' where "request (\<lambda>now. buildLoadMessageHistory now (client_username c) (client_roomName c)) LOAD_MESSAGE_HISTORY
      ''Failed to request history.'' ''Connection lost while loading history.'' c = (Inr (Inr r), c')"
    "answered ps rest (c\<lparr>net_sent := net_sent c @ [mkPacket (clk_s c) (u_username u) [] LOAD_MESSAGE_HISTORY (ro_name room) [] 0]\<rparr>) c'"
    using request_hears [OF assms(1) _ assms(7,2,8,9,10)] assms(3-6)
    by (fastforce simp: buildLoadMessageHistory_def client_username_def client_roomName_def)
  then show ?thesis
    using assms by (intro exI [of _ c']) (simp add: client_loadMessageHistory_def bindM_run thenM_run conclude_def client_isAlive_def linked_def)
qed

lemma reset_run:
  assumes "client_loadMessageHistory ((pg_client p)\<lparr>c_pendingChat := []\<rparr>) = (Inr ([], ls), c')"
  shows "resetTranscriptForCurrentRoom q p = forM ls (appendMessage q)
    (p\<lparr>pg_transcript := [], pg_atBottom := True, unreadCount := 0, pg_badge := None, pg_client := c'\<rparr>)"
  unfolding resetTranscriptForCurrentRoom_def
  using assms by (simp add: thenM_run bindM_run onC_def zoomM_run clearPendingChatMessages_def showUnread_run badge_of_def)

text \<open>Refreshing a page at its last line: the pending chat is appended.\<close>

lemma refresh_run:
  assumes "page_ok p" and "pg_atBottom p"
  shows "\<exists>p'. refresh q p = (Inr (), p') \<and> pg_transcript p' = pg_transcript p @ map (chat_text q) (c_pendingChat (pg_client p)) \<and>
    pg_badge p' = pg_badge p \<and> pg_client p' = (pg_client p)\<lparr>c_pendingChat := []\<rparr> \<and> pg_roomTitle p' = ''#  '' @ roomNameOf (pg_client p) \<and>
    pg_leaveEnabled p' = (roomNameOf (pg_client p) \<noteq> ''Lobby'')"
proof -
  let ?c = "(pg_client p)\<lparr>c_pendingChat := []\<rparr>"
  let ?ls = "c_pendingChat (pg_client p)"
  obtain st where st: "link_status ?c = (Inr st, ?c)"
    by (cases "c_healthWired (pg_client p)") (simp_all add: link_status_def monitor_check_def clientHealthAdapter_def bindM_run)
  have flush: "flushIncomingChat q p = (Inr (), p\<lparr>pg_client := ?c, pg_transcript := pg_transcript p @ map (chat_text q) ?ls\<rparr>)"
    using appends_run [of "p\<lparr>pg_client := ?c\<rparr>" ?ls q] assms
    by (simp add: flushIncomingChat_def takePendingChatMessages_def onC_def zoomM_run bindM_run thenM_run page_ok_def)
  have same: "roomNameOf ?c = roomNameOf (pg_client p)" by (simp add: roomNameOf_def)
  show ?thesis
    using st flush same
    by (simp add: refresh_def applyAppearance_def onC_def zoomM_run bindM_run thenM_run Let_def split: prod.split)
qed

text \<open>C22: entering a room replaces the transcript by the history of the room as the server sent it: one line
  for every stored message, oldest first, nothing unread, and the title names the room. Before either of
  the two replies (to the join and to the request for the history) any number of pushes may arrive, as
  long as they are chat messages, server directories or plain room lists. The chat lines of the room
  that arrive between the two replies are shown after the history, so one that is already in it is
  shown twice. Both requests fit a packet, and no name in the history has a closing bracket, no name or
  text a line break.\<close>

theorem entering_room_shows_history:
  assumes "linked (pg_client p)" and "0 < clk_ms (pg_client p)" and "\<not> net_writesFail (pg_client p)"
    and "st_user (pg_client p) = Some u" and "u_username u \<noteq> []" and "st_currentRoom (pg_client p) = Some before" and "name \<noteq> []"
    and "sendable (mkPacket (clk_s (pg_client p)) (u_username u) [] ROOM_JOIN name [] 0)"
    and "sendable (mkPacket (clk_s (pg_client p)) (u_username u) [] LOAD_MESSAGE_HISTORY name [] 0)"
    and "net_arrivals (pg_client p) = map Got ps1 @ Got joined # map Got ps2 @ Got history # rest"
    and "\<forall>x\<in>set (ps1 @ ps2). plain_push x"
    and "p_type joined = ROOM_JOIN" and "p_code joined = responseCode SUCCESS" and "p_room joined = name"
    and "p_type history = LOAD_MESSAGE_HISTORY" and "p_code history = responseCode SUCCESS" and "p_message history = encodeHistory ms"
    and "\<forall>m\<in>set ms. printable m"
  shows "\<exists>p'. enterRoom q name p = (Inr True, p') \<and>
    pg_transcript p' = map (chat_text q \<circ> shown) (rev ms) @ map (chat_text q \<circ> chat_line (clk_s (pg_client p))) (chat_in name ps2) \<and>
    pg_badge p' = None \<and> pg_roomTitle p' = ''#  '' @ name \<and> pg_leaveEnabled p' = (name \<noteq> ''Lobby'') \<and>
    c_pendingChat (pg_client p') = [] \<and> net_arrivals (pg_client p') = rest"
proof -
  let ?c = "pg_client p"
  have plain: "\<forall>x\<in>set ps1. plain_push x" "\<forall>x\<in>set ps2. plain_push x" "\<forall>x\<in>set ps1. isPush x" "\<forall>x\<in>set ps2. isPush x"
    using assms(11) by (auto simp: plain_push_def)
  obtain c1 where c1: "client_joinRoom name ?c = (Inr [], c1\<lparr>st_currentRoom := Some (room_named name)\<rparr>)"
    "answered ps1 (map Got ps2 @ Got history # rest) (?c\<lparr>net_sent := net_sent ?c @ [mkPacket (clk_s ?c) (u_username u) [] ROOM_JOIN name [] 0]\<rparr>) c1"
    using join_run [OF assms(1,3,4,5,7,8,10) plain(3) assms(12,13)] assms(14) by auto
  have l1: "linked c1 \<and> 0 < clk_ms c1 \<and> \<not> net_writesFail c1 \<and> net_arrivals c1 = map Got ps2 @ Got history # rest \<and> clk_s c1 = clk_s ?c"
    using answered_linked [OF c1(2) assms(1-3)] .
  have id1: "st_user c1 = Some u" using answered_heard [OF c1(2) plain(1) assms(6)] assms(4) by (simp add: identity_def)
  let ?c1 = "c1\<lparr>st_currentRoom := Some (room_named name), c_pendingChat := []\<rparr>"
  have l1': "linked ?c1" "0 < clk_ms ?c1" "\<not> net_writesFail ?c1" using l1 by (simp_all add: linked_def heartbeatMissed_def)
  obtain c2 where c2: "client_loadMessageHistory ?c1 = (Inr ([], parseHistoryPayload (p_message history)), c2)"
    "answered ps2 rest (?c1\<lparr>net_sent := net_sent ?c1 @ [mkPacket (clk_s ?c1) (u_username u) [] LOAD_MESSAGE_HISTORY name [] 0]\<rparr>) c2"
    using load_run [OF l1'(1,3), of u "room_named name" ps2 history rest] l1 id1 assms plain(4) by auto
  have h2: "identity c2 = identity ?c1 \<and> c_pendingChat c2 = map (chat_line (clk_s ?c)) (chat_in name ps2)"
    using answered_heard [OF c2(2) plain(2), of "room_named name"] l1 by simp
  define ls where "ls = map shown (rev ms)"
  have ls: "parseHistoryPayload (p_message history) = ls" using parse_encoded_history [OF assms(18)] assms(17) by (simp add: ls_def)
  let ?p = "p\<lparr>pg_transcript := [], pg_atBottom := True, unreadCount := 0, pg_badge := None, pg_client := c2\<rparr>"
  have "forM ls (appendMessage q) ?p = (Inr (), ?p\<lparr>pg_transcript := map (chat_text q) ls\<rparr>)"
    using appends_run [of ?p ls q] by (simp add: page_ok_def badge_of_def)
  then have reset: "resetTranscriptForCurrentRoom q (p\<lparr>pg_client := c1\<lparr>st_currentRoom := Some (room_named name)\<rparr>\<rparr>) =
      (Inr (), ?p\<lparr>pg_transcript := map (chat_text q) ls\<rparr>)"
    using reset_run [of "p\<lparr>pg_client := c1\<lparr>st_currentRoom := Some (room_named name)\<rparr>\<rparr>" ls c2 q] c2(1) ls by simp
  have "roomNameOf c2 = name" using h2 by (simp add: roomNameOf_def identity_def)
  then obtain p' where r: "refresh q (?p\<lparr>pg_transcript := map (chat_text q) ls\<rparr>) = (Inr (), p')"
    "pg_transcript p' = map (chat_text q) ls @ map (chat_text q) (c_pendingChat c2)" "pg_badge p' = None"
    "pg_client p' = c2\<lparr>c_pendingChat := []\<rparr>" "pg_roomTitle p' = ''#  '' @ name" "pg_leaveEnabled p' = (name \<noteq> ''Lobby'')"
    using refresh_run [of "?p\<lparr>pg_transcript := map (chat_text q) ls\<rparr>" q] by (auto simp: page_ok_def badge_of_def)
  have "enterRoom q name p = (Inr True, p')"
    using assms(7) c1(1) reset r(1) by (simp add: enterRoom_def attempt_def onC_def zoomM_run bindM_run thenM_run showRoom_def)
  moreover have "net_arrivals c2 = rest" using answered_linked [OF c2(2) l1'] by simp
  ultimately show ?thesis using r h2 by (simp add: ls_def)
qed

definition hall_chat :: packet where
  "hall_chat = mkPacket 8 ''bob'' [] MESSAGE ''Hall'' ''hi'' 0"

definition hall_page :: page where
  "hall_page = blank_page (ada_client\<lparr>net_connected := True, net_socket := 7, net_lastInboundMs := 900,
     net_arrivals := [Got (mkPacket 9 ''server'' ''ada'' ROOM_JOIN ''Hall'' [] 200), Got hall_chat,
       Got (mkPacket 9 ''server'' ''ada'' LOAD_MESSAGE_HISTORY ''Hall'' (encodeHistory [hello_message]) 200)]\<rparr>)"

theorem entering_room_shows_history_witness:
  "\<exists>p'. enterRoom plain_qt ''Hall'' hall_page = (Inr True, p') \<and>
    pg_transcript p' = [chat_text plain_qt (shown hello_message), chat_text plain_qt (chat_line 1 hall_chat)] \<and> pg_roomTitle p' = ''#  Hall''"
proof -
  have "printable hello_message" by (simp add: printable_def hello_message_def)
  moreover have "plain_push hall_chat" "chat_in ''Hall'' [hall_chat] = [hall_chat]"
    by (simp_all add: plain_push_def isPush_def hall_chat_def mkPacket_def chat_in_def)
  moreover have "clk_s (pg_client hall_page) = 1" by (simp add: hall_page_def blank_page_def ada_client_def fresh_client_def)
  ultimately show ?thesis
    using entering_room_shows_history [of hall_page "\<lparr>u_username = ''ada'', u_email = ''ada@x'', u_type = USER\<rparr>" "mkRoom 0 ''General'' OTHER PUBLIC"
        "''Hall''" "[]" "mkPacket 9 ''server'' ''ada'' ROOM_JOIN ''Hall'' [] 200" "[hall_chat]"
        "mkPacket 9 ''server'' ''ada'' LOAD_MESSAGE_HISTORY ''Hall'' (encodeHistory [hello_message]) 200" "[]" "[hello_message]" plain_qt]
    by (auto simp: hall_page_def blank_page_def ada_client_def fresh_client_def linked_def heartbeatMissed_def INVALID_SOCKET_def
        HEARTBEAT_TIMEOUT_def mkPacket_def sendable_def length_serializePayload MAX_PAYLOAD_BYTES_def isValidPacketType_iff)
qed

end
