(* ===== verification/Directory_Theorems.thy ===== *)
theory Directory_Theorems
  imports Client_Theorems Node_Safety
begin

text \<open>
  The server directory on its way from the gossip manager of a node to the failover list of a client.
\<close>

section \<open>The directory text\<close>

definition live_endpoints :: "node \<Rightarrow> clientEndpoint list" where
  "live_endpoints n = map snd (getClientPeers n)"

lemma join_prefix: "join_with c ((a @ c # s) # xs) = a @ c # join_with c (s # xs)"
  by (cases xs) simp_all

lemma directory_text_join:
  "directory_text es out = (let L = map endpoint_serialize (map snd (filter (\<lambda>(_, e). isLiveClientEndpoint e) es))
     in if out = [] then join_with (CHR '';'') L else join_with (CHR '';'') (out # L))"
proof (induction es out rule: directory_text.induct)
  case (2 i e es out)
  have "endpoint_serialize e \<noteq> []" by (simp add: endpoint_serialize_def)
  then show ?case using 2 by (cases "isLiveClientEndpoint e") (auto simp: Let_def join_prefix)
qed (simp add: Let_def)

lemma buildServerDirectory_join:
  "buildServerDirectory n = join_with (CHR '';'') (map endpoint_serialize (live_endpoints n))"
  by (simp add: buildServerDirectory_def directory_text_join live_endpoints_def getClientPeers_def Let_def)

text \<open>Endpoints whose text keeps the two separators of the format.\<close>

definition clean_endpoint :: "clientEndpoint \<Rightarrow> bool" where
  "clean_endpoint e \<longleftrightarrow> bar_free (ce_nodeId e) \<and> bar_free (ce_host e) \<and> CHR '';'' \<notin> set (ce_nodeId e) \<and> CHR '';'' \<notin> set (ce_host e)"

lemma read_endpoints:
  "\<forall>e\<in>set es. clean_endpoint e \<and> isLiveClientEndpoint e \<Longrightarrow>
   concat (map (\<lambda>piece. if piece = [] then [] else case endpoint_deserialize piece of Inl _ \<Rightarrow> [] | Inr e \<Rightarrow> [e]) (map endpoint_serialize es)) =
     map (\<lambda>e. e\<lparr>ce_socket := INVALID_SOCKET\<rparr>) es"
proof (induction es)
  case (Cons e es)
  have "endpoint_serialize e \<noteq> []" by (simp add: endpoint_serialize_def)
  moreover have "endpoint_deserialize (endpoint_serialize e) = Inr (e\<lparr>ce_socket := INVALID_SOCKET\<rparr>)"
    using Cons.prems by (intro endpoint_deserialize_serialize) (auto simp: clean_endpoint_def)
  ultimately show ?case using Cons by simp
qed simp

lemma endpoints_of_directory:
  assumes "\<forall>e\<in>set es. clean_endpoint e \<and> isLiveClientEndpoint e"
  shows "endpoints_of (join_with (CHR '';'') (map endpoint_serialize es)) = map (\<lambda>e. e\<lparr>ce_socket := INVALID_SOCKET\<rparr>) es"
proof (cases "es = []")
  case True
  then show ?thesis by (simp add: endpoints_of_def)
next
  case False
  have "CHR '';'' \<notin> set (endpoint_serialize e)" if "clean_endpoint e" for e
    using that nat_to_string_no_sep [of "CHR '';''" "unat (ce_port e)"] by (auto simp: endpoint_serialize_def clean_endpoint_def is_digit_def)
  then have "split_on (CHR '';'') (join_with (CHR '';'') (map endpoint_serialize es)) = map endpoint_serialize es"
    using False assms by (intro split_on_join) auto
  then show ?thesis unfolding endpoints_of_def using read_endpoints [OF assms] by simp
qed

section \<open>The failover list\<close>

lemma merge_set:
  "set (mergeFailoverList current seed directory) =
     {p \<in> set (current # map (\<lambda>e. \<lparr>sp_host = ce_host e, sp_port = ce_port e\<rparr>) (filter isLiveClientEndpoint directory) @ seed). usable p}"
  using foldl_appendUnique [of "[]" "current # map (\<lambda>e. \<lparr>sp_host = ce_host e, sp_port = ce_port e\<rparr>) (filter isLiveClientEndpoint directory) @ seed"]
  by (simp only: merge_list) auto

text \<open>C21: the server directory reaches the failover list: when a client receives the push a node builds from
  the peers it knows, its ring afterwards holds exactly the server in use, the address of every live
  server of the node and every usable server of its own configuration (the one of --host and --port and
  the neighbours), no address twice, and the cursor stays on the server in use. The node ids and hosts
  of the peers must be free of the separators of the format, a vertical bar and a semicolon.\<close>

theorem directory_reaches_failover_list:
  assumes "\<forall>e\<in>set (live_endpoints n). clean_endpoint e" and "ring_ok (c_ring c)" and "er_points (c_ring c) \<noteq> []"
  shows "\<exists>c'. onPush (mkPacket now ''server'' ''*'' SERVER_DIRECTORY [] (buildServerDirectory n) 0) c = (Inr (), c') \<and>
    st_serverEndpoints c' = map (\<lambda>e. e\<lparr>ce_socket := INVALID_SOCKET\<rparr>) (live_endpoints n) \<and>
    set (er_points (c_ring c')) = {ring_current (c_ring c)} \<union>
      (\<lambda>e. \<lparr>sp_host = ce_host e, sp_port = ce_port e\<rparr>) ` set (live_endpoints n) \<union>
      {s. usable s \<and> (s = \<lparr>sp_host = SERVER_HOST (c_cfg c), sp_port = PORT (c_cfg c)\<rparr> \<or> s \<in> set (NEIGHBOR_SERVERS (c_cfg c)))} \<and>
    distinct (er_points (c_ring c')) \<and> ring_current (c_ring c') = ring_current (c_ring c)"
proof -
  let ?es = "map (\<lambda>e. e\<lparr>ce_socket := INVALID_SOCKET\<rparr>) (live_endpoints n)"
  let ?seed = "\<lparr>sp_host = SERVER_HOST (c_cfg c), sp_port = PORT (c_cfg c)\<rparr> # NEIGHBOR_SERVERS (c_cfg c)"
  let ?m = "mergeFailoverList (ring_current (c_ring c)) ?seed ?es"
  let ?c = "c\<lparr>st_serverEndpoints := ?es, c_ring := ring_replace ?m (c_ring c)\<rparr>"
  have live: "\<forall>e\<in>set (live_endpoints n). isLiveClientEndpoint e" by (auto simp: live_endpoints_def getClientPeers_def)
  then have "endpoints_of (buildServerDirectory n) = ?es"
    unfolding buildServerDirectory_join using assms(1) by (intro endpoints_of_directory) blast
  then have run: "onPush (mkPacket now ''server'' ''*'' SERVER_DIRECTORY [] (buildServerDirectory n) 0) c = (Inr (), ?c)"
    by (simp add: onPush_def applyServerDirectoryPush_def rebuildEndpoints_def mkPacket_def thenM_run Let_def)
  have cur: "usable (ring_current (c_ring c))"
    using assms(2,3) by (simp add: ring_ok_def ring_current_def)
  have pts: "er_points (c_ring ?c) = ?m" by (simp add: ring_replace_def)
  have all: "filter isLiveClientEndpoint ?es = ?es" using live by (simp add: filter_id_conv isLiveClientEndpoint_def)
  have "usable \<lparr>sp_host = ce_host e, sp_port = ce_port e\<rparr>" if "e \<in> set (live_endpoints n)" for e
    using that live by (simp add: usable_def isLiveClientEndpoint_def)
  then have "set ?m = {ring_current (c_ring c)} \<union> (\<lambda>e. \<lparr>sp_host = ce_host e, sp_port = ce_port e\<rparr>) ` set (live_endpoints n) \<union>
      {s. usable s \<and> (s = \<lparr>sp_host = SERVER_HOST (c_cfg c), sp_port = PORT (c_cfg c)\<rparr> \<or> s \<in> set (NEIGHBOR_SERVERS (c_cfg c)))}"
    using cur unfolding merge_set all by (auto simp: image_iff)
  moreover have "ring_current (ring_replace ?m (c_ring c)) = ring_current (c_ring c)"
    using assms(2,3) cur by (intro replace_current) (simp_all add: merge_set)
  moreover have "distinct ?m" by (rule merge_ok(1))
  ultimately show ?thesis using run pts by (intro exI [of _ ?c]) simp
qed

definition peer_node :: node where
  "peer_node = (fresh_node default_config)
     \<lparr>clientPeers := [(''node2'', \<lparr>ce_nodeId = ''node2'', ce_host = ''10.0.0.2'', ce_port = 5555, ce_socket = 4\<rparr>)]\<rparr>"

theorem directory_reaches_failover_list_witness:
  "\<exists>c'. onPush (mkPacket 5 ''server'' ''*'' SERVER_DIRECTORY [] (buildServerDirectory peer_node) 0) fresh_client = (Inr (), c') \<and>
    \<lparr>sp_host = ''10.0.0.2'', sp_port = 5555\<rparr> \<in> set (er_points (c_ring c'))"
proof -
  have l: "live_endpoints peer_node = [\<lparr>ce_nodeId = ''node2'', ce_host = ''10.0.0.2'', ce_port = 5555, ce_socket = 4\<rparr>]"
    by (simp add: live_endpoints_def peer_node_def getClientPeers_def isLiveClientEndpoint_def)
  show ?thesis
    using directory_reaches_failover_list [of peer_node fresh_client 5]
    by (auto simp: l clean_endpoint_def fresh_client_def two_servers_def ring_ok_def usable_def)
qed

end
