(* ===== verification/Socket_Calls.thy ===== *)
theory Socket_Calls
  imports Socket_IO Models
begin

text \<open>
  Creating, connecting, accepting and closing sockets (src/utils/socket_io.cpp) over the results of the
  operating system calls, which are parameters. The state is the list of the sockets closed so far. The
  operations that use these functions take their result as an argument.
\<close>

definition sock_close :: "SOCKET \<Rightarrow> (SOCKET list, unit) mon" where
  "sock_close fd = (if fd = INVALID_SOCKET then returnM () else modifyM (\<lambda>closed. closed @ [fd]))"

text \<open>\<open>created\<close>: what \<open>socket\<close> returned; \<open>bound\<close>, \<open>listens\<close>: whether \<open>bind\<close> and \<open>listen\<close> succeed on the port.\<close>

definition listenTo :: "SOCKET \<Rightarrow> (u16 \<Rightarrow> bool) \<Rightarrow> bool \<Rightarrow> u16 \<Rightarrow> (SOCKET list, SOCKET) mon" where
  "listenTo created bound listens port =
     (if created = INVALID_SOCKET then returnM INVALID_SOCKET
      else if \<not> bound port then thenM (sock_close created) (returnM INVALID_SOCKET)
      else if \<not> listens then thenM (sock_close created) (returnM INVALID_SOCKET)
      else returnM created)"

text \<open>\<open>address\<close>: whether \<open>inet_pton\<close> reads the host as an IPv4 address; \<open>connects\<close>: whether \<open>connect\<close> succeeds.\<close>

definition connectTo :: "SOCKET \<Rightarrow> (string \<Rightarrow> bool) \<Rightarrow> (string \<Rightarrow> u16 \<Rightarrow> bool) \<Rightarrow> string \<Rightarrow> u16 \<Rightarrow> (SOCKET list, SOCKET) mon" where
  "connectTo created address connects host port =
     (if created = INVALID_SOCKET then returnM INVALID_SOCKET
      else if \<not> address host then thenM (sock_close created) (returnM INVALID_SOCKET)
      else if \<not> connects host port then thenM (sock_close created) (returnM INVALID_SOCKET)
      else returnM created)"

definition acceptFrom :: "(SOCKET \<Rightarrow> SOCKET) \<Rightarrow> SOCKET \<Rightarrow> SOCKET" where
  "acceptFrom accepted listeningSocket = (if listeningSocket = INVALID_SOCKET then INVALID_SOCKET else accepted listeningSocket)"

text \<open>A socket that was created is returned or closed, never both and never lost.\<close>

lemma listenTo_no_leak:
  "listenTo created bound listens port closed = (Inr fd, closed') \<Longrightarrow> created \<noteq> INVALID_SOCKET \<Longrightarrow>
   (fd = created \<and> closed' = closed) \<noteq> (fd = INVALID_SOCKET \<and> closed' = closed @ [created])"
  by (auto simp: listenTo_def sock_close_def thenM_run split: if_splits)

lemma connectTo_no_leak:
  "connectTo created address connects host port closed = (Inr fd, closed') \<Longrightarrow> created \<noteq> INVALID_SOCKET \<Longrightarrow>
   (fd = created \<and> closed' = closed) \<noteq> (fd = INVALID_SOCKET \<and> closed' = closed @ [created])"
  by (auto simp: connectTo_def sock_close_def thenM_run split: if_splits)

end
