(* ===== verification/Link_Loss.thy ===== *)
theory Link_Loss
  imports Link_Frame
begin

text \<open>
  A link that is given up: what the supervisor does from dialling a server to dialling the next one,
  when the server answers for a while (pushes, heartbeats, the reply to a resumption) and then falls
  silent.
\<close>

section \<open>What holds while a link is watched\<close>

text \<open>The pushes of the server do not change who the client is.\<close>

definition polite :: "dial \<Rightarrow> bool" where
  "polite d \<longleftrightarrow> (\<forall>p. Got p \<in> set (d_arrivals d) \<longrightarrow> isPush p \<longrightarrow> impersonal p)"

text \<open>No list of servers is among them.\<close>

definition no_directory :: "dial \<Rightarrow> bool" where
  "no_directory d \<longleftrightarrow> (\<forall>p. Got p \<in> set (d_arrivals d) \<longrightarrow> p_type p \<noteq> SERVER_DIRECTORY)"

text \<open>A client on the link of the dial \<open>d\<close>, made by the client \<open>c0\<close>, with nothing received after the time
  \<open>T\<close>: the socket is open, or a failed write closed it.\<close>

definition on_link :: "client \<Rightarrow> dial \<Rightarrow> int \<Rightarrow> client \<Rightarrow> bool" where
  "on_link c0 d T c \<longleftrightarrow> polite d \<and> \<not> c_stopRequested c \<and> c_healthWired c \<and> c_cfg c = c_cfg c0 \<and> c_reconnects c = c_reconnects c0 \<and>
     \<not> c_reconnecting c \<and> \<not> c_resumePending c \<and> net_lastInboundMs c \<le> T \<and>
     net_dialled c = net_dialled c0 @ [address (ring_current (c_ring c0))] \<and> set (net_arrivals c) \<subseteq> set (d_arrivals d) \<and>
     (isLoggedIn c0 \<longrightarrow> identity c = identity c0) \<and> (no_directory d \<longrightarrow> c_ring c = c_ring c0) \<and>
     (net_socket c = d_socket d \<and> net_closed c = net_closed c0 \<or>
      net_socket c = INVALID_SOCKET \<and> net_closed c = net_closed c0 @ [d_socket d] \<and> \<not> net_connected c)"

definition reading :: "client \<Rightarrow> dial \<Rightarrow> int \<Rightarrow> client \<Rightarrow> bool" where
  "reading c0 d T c \<longleftrightarrow> on_link c0 d T c \<and> clk_ms c \<le> T"

lemma reading_send: "reading c0 d T c \<Longrightarrow> \<exists>ok c'. net_sendPacket p c = (Inr ok, c') \<and> reading c0 d T c'"
  by (auto simp: net_sendPacket_def markLinkDown_def bindM_run thenM_run reading_def on_link_def identity_def)

lemma logged_in_identity: "identity c = identity c0 \<Longrightarrow> isLoggedIn c = isLoggedIn c0"
  by (simp add: identity_def isLoggedIn_def)

lemma reading_push:
  assumes "reading c0 d T c" and "Got p \<in> set (d_arrivals d)" and "isPush p"
  shows "reading c0 d T (snd (onPush p c))"
proof -
  obtain c' where c': "onPush p c = (Inr (), c')" "link_of c' = link_of c" "steady c' = steady c" using onPush_frame by blast
  have "impersonal p" using assms by (auto simp: reading_def on_link_def polite_def)
  then have "identity c' = identity c0" if "isLoggedIn c0"
    using onPush_identity [OF _ _ c'(1)] assms(1) that logged_in_identity [of c c0] by (auto simp: reading_def on_link_def)
  moreover have "c_ring c' = c_ring c0" if "no_directory d"
    using onPush_ring [OF _ c'(1)] assms(1,2) that by (auto simp: no_directory_def reading_def on_link_def)
  ultimately show ?thesis
    using assms(1) c' by (auto simp: reading_def on_link_def link_of_def steady_def)
qed

lemma reading_turn:
  assumes "reading c0 d T c"
  shows "reading c0 d T (snd (readerTurn onPush c))"
proof (cases "net_arrivals c")
  case Nil
  then show ?thesis
    using assms by (auto simp: readerTurn_def onRead_def markLinkDown_def bindM_run reading_def on_link_def identity_def)
next
  case (Cons a rest)
  let ?d = "c\<lparr>net_arrivals := rest, net_lastInboundMs := clk_ms c\<rparr>"
  have d: "reading c0 d T ?d" "reading c0 d T (c\<lparr>net_arrivals := rest\<rparr>)" and in_d: "a \<in> set (d_arrivals d)"
    using assms Cons by (auto simp: reading_def on_link_def identity_def)
  have more: "reading c0 d T (?d\<lparr>net_incoming := q\<rparr>)" for q using d(1) by (simp add: reading_def on_link_def identity_def)
  have down: "reading c0 d T (snd (markLinkDown (c\<lparr>net_arrivals := rest\<rparr>)))"
    using d(2) by (auto simp: markLinkDown_def reading_def on_link_def identity_def)
  have pong: "reading c0 d T (snd (net_sendPacket q ?d))" for q using reading_send [OF d(1), of q] by auto
  show ?thesis
  proof (cases a)
    case (Got p)
    have "isPush p \<Longrightarrow> reading c0 d T (snd (onPush p ?d))" using reading_push [OF d(1)] in_d Got by blast
    then show ?thesis using readerTurn_eq [OF Cons] Got d pong more by (simp add: Let_def)
  qed (use readerTurn_eq [OF Cons] d down in \<open>simp_all add: Let_def\<close>)
qed

interpretation watched: link_frame "reading c0 d T" for c0 d T
proof
  show "safe (reading c0 d T) (net_sendPacket p)" for p using reading_send by (fastforce intro!: safeI)
  show "reading c0 d T (snd (readerTurn onPush c))" if "reading c0 d T c" for c using that by (rule reading_turn)
  show "reading c0 d T (c\<lparr>net_incoming := ps\<rparr>)" if "reading c0 d T c" for c ps
    using that by (simp add: reading_def on_link_def identity_def)
qed

section \<open>Resuming and watching\<close>

lemma safe_resumeAttempts: "safe (reading c0 d T) (resumeAttempts True q k again)"
proof (induction k arbitrary: again)
  case (Suc k)
  have "safe (reading c0 d T) (applyRoomDirectory x)" for x
    unfolding applyRoomDirectory_def by (rule safe_modifyM) (simp add: reading_def on_link_def identity_def)
  moreover have "safe (reading c0 d T) (sleepFor True)"
    unfolding sleepFor_def by (intro safe_intros safe_modifyM) simp
  ultimately show ?case
    unfolding resumeAttempts.simps by (intro safe_intros watched.sends watched.safe_waitFor Suc)
qed (simp only: resumeAttempts.simps safe_returnM)

lemma resume_keeps:
  assumes "reading c0 d T (c\<lparr>c_resumePending := False\<rparr>)"
  shows "\<exists>c'. whenM (c_resumePending c) (resumeSession True) c = (Inr (), c') \<and> reading c0 d T c'"
proof (cases "c_resumePending c")
  case True
  let ?c = "c\<lparr>c_resumePending := False\<rparr>"
  have "safe (reading c0 d T) (bindM (getsM (\<lambda>c. c)) (\<lambda>c.
       if \<not> isLoggedIn c \<or> st_user c = None then returnM ()
       else case buildReconnect (clk_s c) (client_username c)
                   (case st_currentRoom c of None \<Rightarrow> ''Lobby'' | Some r \<Rightarrow> ro_name r) of
         Inl _ \<Rightarrow> returnM ()
       | Inr packet \<Rightarrow> resumeAttempts True packet kAttempts False))"
    by (intro safe_intros safe_resumeAttempts)
  then show ?thesis
    using assms True by (auto simp: resumeSession_def thenM_run whenM_def safe_def hoare_def)
next
  case False
  then have "c\<lparr>c_resumePending := False\<rparr> = c" by (cases c) simp
  then have "reading c0 d T c" using assms by (simp only:)
  then show ?thesis using False by (simp add: whenM_def)
qed

lemma linkDown_ends: "\<not> net_connected c \<Longrightarrow> c_healthWired c \<Longrightarrow> watchLink (t # ts) c = (Inr (), c)"
  by (simp add: bindM_run linkHealthy_run client_isAlive_def)

lemma watch_ends:
  assumes "\<forall>t\<in>set busy. t_sleep t \<and> t_read_ms t \<le> T" and "\<forall>t\<in>set (qs @ [late]). quiet t"
    and "t_ms late - T > HEARTBEAT_TIMEOUT" and "on_link c0 d T c"
  shows "\<exists>c'. watchLink (busy @ qs @ late # after # ts) c = (Inr (), c') \<and> on_link c0 d T c'"
  using assms
proof (induction busy arbitrary: c)
  case Nil
  have c: "c_healthWired c" "\<not> c_stopRequested c" "net_lastInboundMs c \<le> T" using Nil.prems(4) by (simp_all add: on_link_def)
  show ?case
  proof (cases "net_connected c")
    case True
    obtain now where "watchLink (qs @ late # after # ts) c = (Inr (), c\<lparr>clk_ms := now\<rparr>)"
      using watch_quiet [OF Nil.prems(2) True c(1,2), of after ts] Nil.prems(3) c(3) by auto
    then show ?thesis using Nil.prems(4) by (simp add: on_link_def identity_def)
  next
    case False
    then show ?thesis using linkDown_ends [OF False c(1)] Nil.prems(4) by (cases qs) simp_all
  qed
next
  case (Cons t busy)
  show ?case
  proof (cases "client_isAlive c")
    case True
    let ?c = "c\<lparr>clk_ms := t_read_ms t\<rparr>"
    have "reading c0 d T ?c" using Cons.prems by (simp add: reading_def on_link_def identity_def)
    then obtain c1 where c1: "readerTurns (t_reads t) ?c = (Inr (), c1)" "reading c0 d T c1"
      using watched.safe_readerTurns by (fastforce simp: safe_def hoare_def)
    have on: "on_link c0 d T (c1\<lparr>clk_ms := t_ms t\<rparr>)" using c1(2) by (simp add: reading_def on_link_def identity_def)
    then have "watchLink ((t # busy) @ qs @ late # after # ts) c = watchLink (busy @ qs @ late # after # ts) (c1\<lparr>clk_ms := t_ms t\<rparr>)"
      using True Cons.prems(1,4) c1(1)
      by (simp add: bindM_run thenM_run linkHealthy_run setClock_def sleepFor_def on_link_def)
    then show ?thesis using Cons.IH [OF _ Cons.prems(2,3) on] Cons.prems(1) by simp
  next
    case False
    then have "watchLink ((t # busy) @ qs @ late # after # ts) c = (Inr (), c)"
      using Cons.prems(4) by (simp add: bindM_run linkHealthy_run on_link_def)
    then show ?thesis using Cons.prems(4) by blast
  qed
qed

section \<open>Giving the link up\<close>

lemma dial_up:
  assumes "d_wsa d" and "d_socket d \<noteq> INVALID_SOCKET" and "\<not> net_connected c"
  shows "net_connect h p (d_wsa d) (d_socket d) (d_arrivals d) c =
    (Inr True, c\<lparr>net_winsock := True, net_dialled := net_dialled c @ [(h, p)], net_socket := d_socket d, net_arrivals := d_arrivals d,
       net_lastInboundMs := clk_ms c, net_connected := True\<rparr>)"
  using assms by (simp add: net_connect_def net_dial_def noteInbound_def bindM_run thenM_run)

lemma give_up:
  assumes on: "on_link c0 d T c" and "d_socket d \<noteq> INVALID_SOCKET" and "d_sleep d" and "\<not> TEST_MODE (c_cfg c0)"
  shows "\<exists>c1 c2 c3. markReconnecting c = (Inr (), c1) \<and> net_disconnect c1 = (Inr (), c2) \<and> failAndWait d 0 c2 = (Inr (True, 1), c3) \<and>
    c_ring c3 = ring_advance (c_ring c) \<and> \<not> net_connected c3 \<and> net_closed c3 = net_closed c0 @ [d_socket d] \<and>
    net_dialled c3 = net_dialled c \<and> connectedEndpoint c3 = [] \<and> c_reconnecting c3 \<and> c_reconnects c3 = c_reconnects c + 1 \<and>
    c_resumePending c3 = isLoggedIn c3 \<and> identity c3 = identity c"
proof -
  let ?c1 = "c\<lparr>c_reconnecting := True, c_reconnects := c_reconnects c + 1, c_resumePending := isLoggedIn c,
    c_connectedHost := [], c_connectedPort := 0\<rparr>"
  let ?c2 = "?c1\<lparr>net_connected := False, net_closed := net_closed c0 @ [d_socket d],
    net_socket := INVALID_SOCKET, net_incoming := [], net_winsock := False, net_lastInboundMs := 0\<rparr>"
  let ?c3 = "?c2\<lparr>c_ring := ring_advance (c_ring c)\<rparr>"
  have "markReconnecting c = (Inr (), ?c1)"
    using on by (simp add: markReconnecting_def forgetConnected_def bindM_run thenM_run on_link_def)
  moreover have "net_disconnect ?c1 = (Inr (), ?c2)"
    using on assms(2) by (auto simp: net_disconnect_def on_link_def)
  moreover have "failAndWait d 0 ?c2 = (Inr (True, 1), ?c3)"
  proof -
    have "\<not> c_stopRequested ?c2" "1 < failover_limit ?c2" using on assms(4) by (simp_all add: on_link_def failover_limit_def)
    then show ?thesis using failAndWait_run [of d ?c2 0] assms(3) by simp
  qed
  moreover have "identity ?c3 = identity c" "connectedEndpoint ?c3 = []" "c_resumePending ?c3 = isLoggedIn ?c3"
    by (simp_all add: identity_def connectedEndpoint_def isLoggedIn_def)
  ultimately show ?thesis by (intro exI [of _ ?c1] exI [of _ ?c2] exI [of _ ?c3]) simp
qed

text \<open>C19: a server that falls silent is given up (outside test mode). A dial connects; a session that is to
  be resumed is resumed, however that ends; then the server may send whatever does not change who the
  client is, until the time \<open>T\<close>. If nothing is received from then on until more than the heartbeat
  time-out after \<open>T\<close> (or the link breaks before), the supervisor closes the socket, moves the cursor of
  the ring to the next server and goes on dialling there. The user and the room of a logged-in client
  are kept and its session is marked for resumption; the ring is the one before, unless the server had
  sent another list of servers.\<close>

theorem silent_server_failed_over:
  assumes "d_wsa d" and "d_socket d \<noteq> INVALID_SOCKET" and "d_sleep d"
    and "d_watch d = busy @ qs @ late # after # ts" and "\<forall>t\<in>set busy. t_sleep t \<and> t_read_ms t \<le> T"
    and "\<forall>t\<in>set (qs @ [late]). quiet t" and "clk_ms c \<le> T" and "t_ms late - T > HEARTBEAT_TIMEOUT"
    and "\<forall>p. Got p \<in> set (d_arrivals d) \<longrightarrow> isPush p \<longrightarrow> impersonal p"
    and "\<not> net_connected c" and "\<not> c_stopRequested c" and "c_healthWired c"
    and "sp_port (ring_current (c_ring c)) \<noteq> 0" and "\<not> TEST_MODE (c_cfg c)"
  shows "\<exists>c'. supervisorLoop (d # ds) attempt hadLink c = supervisorLoop ds 1 True c' \<and>
    net_dialled c' = net_dialled c @ [address (ring_current (c_ring c))] \<and>
    ((\<forall>p. Got p \<in> set (d_arrivals d) \<longrightarrow> p_type p \<noteq> SERVER_DIRECTORY) \<longrightarrow> c_ring c' = ring_advance (c_ring c)) \<and>
    \<not> net_connected c' \<and> net_closed c' = net_closed c @ [d_socket d] \<and>
    connectedEndpoint c' = [] \<and> c_reconnecting c' \<and> c_reconnects c' = c_reconnects c + 1 \<and>
    c_resumePending c' = isLoggedIn c' \<and>
    (isLoggedIn c \<longrightarrow> isLoggedIn c' \<and> st_user c' = st_user c \<and> st_currentRoom c' = st_currentRoom c)"
proof -
  let ?p = "ring_current (c_ring c)"
  let ?c1 = "c\<lparr>net_winsock := True, net_dialled := net_dialled c @ [address ?p], net_socket := d_socket d,
    net_arrivals := d_arrivals d, net_lastInboundMs := clk_ms c, net_connected := True\<rparr>"
  let ?c = "?c1\<lparr>c_connectedHost := sp_host ?p, c_connectedPort := sp_port ?p, c_reconnecting := False\<rparr>"
  have up: "net_connect (sp_host ?p) (sp_port ?p) (d_wsa d) (d_socket d) (d_arrivals d) c = (Inr True, ?c1)"
    using dial_up [OF assms(1,2,10)] .
  have "reading c d T (?c\<lparr>c_resumePending := False\<rparr>)"
    using assms by (simp add: reading_def on_link_def polite_def identity_def)
  then obtain c2 where r: "whenM (c_resumePending ?c) (resumeSession True) ?c = (Inr (), c2)" "reading c d T c2"
    using resume_keeps by blast
  obtain c3 where w: "watchLink (d_watch d) c2 = (Inr (), c3)" "on_link c d T c3"
    using watch_ends [OF assms(5,6,8), of c d c2 after ts] r(2) assms(4) by (auto simp: reading_def)
  obtain c4 c5 c6 where g: "markReconnecting c3 = (Inr (), c4)" "net_disconnect c4 = (Inr (), c5)" "failAndWait d 0 c5 = (Inr (True, 1), c6)"
    "c_ring c6 = ring_advance (c_ring c3)" "\<not> net_connected c6" "net_closed c6 = net_closed c @ [d_socket d]" "net_dialled c6 = net_dialled c3"
    "connectedEndpoint c6 = []" "c_reconnecting c6" "c_reconnects c6 = c_reconnects c3 + 1" "c_resumePending c6 = isLoggedIn c6"
    "identity c6 = identity c3"
    using give_up [OF w(2) assms(2,3,14)] by blast
  have "supervisorLoop (d # ds) attempt hadLink c = supervisorLoop ds 1 True c6"
    using assms(3,11,13) up r(1) w g(1-3)
    by (simp add: bindM_run thenM_run rememberConnected_def Let_def on_link_def)
  moreover have "isLoggedIn c \<longrightarrow> identity c6 = identity c" using g(12) w(2) by (simp add: on_link_def)
  ultimately show ?thesis
    using g w(2) logged_in_identity [of c6 c]
    by (intro exI [of _ c6]) (auto simp: on_link_def no_directory_def identity_def)
qed

text \<open>The witness: a logged-in client with a session to resume; the new server accepts the resumption, sends
  a chat line at 2000 ms and then nothing.\<close>

definition resumed_dial :: dial where
  "resumed_dial = \<lparr>d_wsa = True, d_socket = 7,
     d_arrivals = [Got (mkPacket 3 ''server'' ''ada'' RECONNECT ''Lobby'' [] (responseCode SUCCESS)),
       Got (mkPacket 4 ''bob'' [] MESSAGE ''General'' ''hi'' 0)],
     d_watch = [\<lparr>t_reads = 1, t_read_ms = 2000, t_ms = 2500, t_sleep = True\<rparr>,
       \<lparr>t_reads = 0, t_read_ms = 0, t_ms = 20000, t_sleep = True\<rparr>, \<lparr>t_reads = 0, t_read_ms = 0, t_ms = 21000, t_sleep = True\<rparr>],
     d_sleep = True, d_jitter = (\<lambda>_. 0)\<rparr>"

theorem silent_server_failed_over_witness:
  "\<exists>c'. supervisorLoop [resumed_dial] 1 True (ada_client\<lparr>c_resumePending := True, c_cfg := default_config\<rparr>) = supervisorLoop [] 1 True c' \<and>
    c_ring c' = two_servers\<lparr>er_index := 0\<rparr> \<and> net_closed c' = [7] \<and> c_resumePending c' \<and> st_user c' = st_user ada_client"
proof -
  let ?c = "ada_client\<lparr>c_resumePending := True, c_cfg := default_config\<rparr>"
  have c: "\<not> net_connected ?c" "\<not> c_stopRequested ?c" "c_healthWired ?c" "c_ring ?c = two_servers" "\<not> TEST_MODE (c_cfg ?c)"
    "clk_ms ?c = 1000" "net_closed ?c = []" "isLoggedIn ?c" "st_user ?c = st_user ada_client"
    by (simp_all add: ada_client_def fresh_client_def default_config_def isLoggedIn_def)
  have r: "sp_port (ring_current two_servers) \<noteq> 0" "ring_advance two_servers = two_servers\<lparr>er_index := 0\<rparr>"
    by (simp_all add: two_servers_def ring_current_def ring_advance_def)
  have d: "d_wsa resumed_dial" "d_socket resumed_dial \<noteq> INVALID_SOCKET" "d_sleep resumed_dial" "d_socket resumed_dial = 7"
    "d_watch resumed_dial = [\<lparr>t_reads = 1, t_read_ms = 2000, t_ms = 2500, t_sleep = True\<rparr>] @ [] @
       \<lparr>t_reads = 0, t_read_ms = 0, t_ms = 20000, t_sleep = True\<rparr> # \<lparr>t_reads = 0, t_read_ms = 0, t_ms = 21000, t_sleep = True\<rparr> # []"
    "\<forall>p. Got p \<in> set (d_arrivals resumed_dial) \<longrightarrow> isPush p \<longrightarrow> impersonal p"
    "\<forall>p. Got p \<in> set (d_arrivals resumed_dial) \<longrightarrow> p_type p \<noteq> SERVER_DIRECTORY"
    by (auto simp: resumed_dial_def INVALID_SOCKET_def impersonal_def mkPacket_def)
  show ?thesis
    using silent_server_failed_over [OF d(1-3,5), of 2000 ?c "[]" 1 True] c r d(4,6,7)
    by (auto simp: quiet_def HEARTBEAT_TIMEOUT_def simp del: supervisorLoop.simps)
qed

end
