(* ===== verification/Spec2Isabelle.thy ===== *)
theory Spec2Isabelle
  imports Format_Theorems Event_History Browser_Theorems Failover Main_Loops Page_Theorems Directory_Theorems Socket_Calls Link_Loss
begin

text \<open>
  A verification development of the distributed chat server and its client.

  \<^bold>\<open>The program.\<close> A cluster of server processes (nodes) serves chat clients over TCP and browsers over
  WebSocket. A node keeps its users, rooms, messages and presence in an SQLite file
  (\<open>DatabaseManager\<close>), the open connections in \<open>ConnectionManager\<close>, who is in which room in
  \<open>RoomManager\<close>, and exchanges events with the other nodes through \<open>GossipManager\<close>. Each packet of a
  client is answered by \<open>PacketProcessor\<close>; \<open>Heartbeat\<close> closes silent connections; \<open>WebConnection\<close> gives
  browsers the same service; \<open>Server\<close> starts and stops the parts. A client keeps a connection
  (\<open>Network\<close>) that a supervisor thread dials along a ring of servers, and offers requests, a console and a
  graphical page.

  \<^bold>\<open>How it is modelled.\<close> Every class is a record, every operation one definition of the same name that
  follows the source statement by statement (prefixed with its class, as in \<open>rm_deleteRoom\<close>, \<open>db_deleteRoom\<close>,
  \<open>client_deleteRoom\<close>, where names clash). Operations that change state or throw are computations
  of the type \<open>('s, 'a) mon\<close> of theory \<open>Prelude\<close> (explicit state, exceptions as values, the state kept
  when an exception passes, as in C++). Operations run one after the other: locks and threads are left
  out, a thread is a fold over the packets or timer rounds it sees, and histories are arbitrary
  sequences of operations (theory \<open>Machine\<close>). Integers are words of their width where the program
  computes with them at that width (lengths, ports, time stamps, counters), \<open>int\<close> and \<open>nat\<close> elsewhere.

  \<^bold>\<open>Shared parts.\<close>
  \<^item> \<open>Prelude\<close>: the monad, its Hoare rules and the collections \<open>mon_simps\<close>, \<open>keeps_intros\<close>, \<open>safe_intros\<close>; the
    string and number functions of the C++ library.
  \<^item> \<open>Machine\<close>: the locales \<open>machine\<close> and \<open>total_machine\<close> (operations that keep an invariant, and that do not
    throw), interpreted for the database, the node, the event log and the client's page.
  \<^item> \<open>Codec\<close>: the locale \<open>codec\<close> of binary formats, and \<open>offset_reader\<close> of theory \<open>Serializer\<close> for the readers that
    work with an offset; interpreted for the integers, strings and frames of the protocol.
  \<^item> \<open>Ring_Buffer\<close>: the locale of bounded histories, interpreted for the logger and the gossip event log.
  \<^item> \<open>Event_Log\<close>: the locale \<open>log_frame\<close> of what the operations of a node leave of its event log, interpreted for its
    invariant, for the log itself and for the age of an id in it.
  \<^item> \<open>Link_Frame\<close>: the locale \<open>link_frame\<close> of what sending, reading and taking a packet leave of a client, interpreted
    for what pushes make of a session and for a link that is going to be given up.

  \<^bold>\<open>Wire and data.\<close> \<open>Packets\<close>, \<open>Serializer\<close>, \<open>Socket_IO\<close>, \<open>Socket_Calls\<close>, \<open>Gossip_Payload\<close>
  (src/utils: packet.cpp, serializer.cpp, socket_io.cpp, gossip_payload.cpp); \<open>Models\<close>, \<open>Config\<close>
  (src/utils/models, include/config/config.h). \<open>Format_Theorems\<close>: the frame is a bijection between sendable
  packets and the accepted byte strings, and a stream is read back however it is fragmented.

  \<^bold>\<open>Storage.\<close> \<open>Database\<close>, \<open>Database_Manager\<close>: src/auth, the SQL files of src/database,
  src/server/database_manager.cpp. \<open>Database_Invariant\<close> and \<open>Database_Live\<close> show that every operation keeps
  the constraints of the schema, also when SQLite fails one of its statements (a rename excepted, which the
  failure can leave half done); \<open>Store_Theorems\<close> and \<open>History_Theorems\<close> say what accounts, renames, deletions
  and histories do.

  \<^bold>\<open>The node.\<close> \<open>Node\<close>, \<open>Room_Manager\<close>, \<open>Gossip_Manager\<close>, \<open>Connections\<close>, \<open>Packet_Processor\<close>, \<open>Server_Node\<close>: the
  classes of src/server over one record \<open>node\<close>. \<open>Node_Invariant\<close>, \<open>Room_Safety\<close>, \<open>Event_Safety\<close> and
  \<open>Node_Safety\<close> show that every operation keeps the node consistent and throws nothing while the database
  works. \<open>Node_Theorems\<close>, \<open>Presence_Theorems\<close>, \<open>Access_Theorems\<close>, \<open>Message_Theorems\<close>: rooms and sessions agree,
  login and logout, who may do what, delivery and storage of messages. \<open>Reconnect_Theorems\<close>: when the presence
  of a user can be claimed by another node, and what a RECONNECT then does. \<open>Anti_Entropy\<close>: one round of digest,
  pull and events makes the receiver know every event of the sender. \<open>Event_History\<close>: the event log is the window
  of the latest 256 entries of the history of accepted events, and an event is not applied again among the next 255.

  \<^bold>\<open>Around the node.\<close> \<open>Web_Frames\<close>, \<open>Web_Connection\<close> with \<open>Web_Theorems\<close> and \<open>Browser_Theorems\<close>
  (src/server/web_connection.cpp): SHA-1, base64, the handshake, the frame codec, and that a browser is served
  like a TCP client. \<open>Health\<close>, \<open>Server\<close>, \<open>Dashboard\<close> with \<open>Service_Theorems\<close> (src/utils/health,
  src/server/server.cpp, heartbeat.cpp, main.cpp): heartbeat rounds, starting and stopping, health reports and their display.
  \<open>Server_Window\<close> (src/server/gui): the panels of the server window; the log panel shows the backlog and every
  message logged since. \<open>Main_Loops\<close>: the heartbeat worker and the two \<open>main\<close> functions (src/server/main.cpp, src/client/main.cpp).
  \<open>Logger\<close> (src/utils/logger): the logger refines the history of its messages and sinks.

  \<^bold>\<open>The client.\<close> \<open>Endpoint_Ring\<close>, \<open>Packet_Builder\<close>, \<open>Client_Network\<close>, \<open>Client\<close>, \<open>Supervisor\<close>
  (src/client: endpoint_ring.cpp, packet_builder.cpp, packet_handler.cpp, network.cpp, client.cpp), \<open>Console\<close>
  (console_ui.cpp), \<open>Chat_Page\<close> (gui/pages/dashboard_page.cpp). What the link delivers is a list of arrivals;
  the reader thread runs when somebody waits for it. The waits are functions that end because every turn of
  the reader consumes an arrival or the link; the supervisor takes one \<open>dial\<close> record per round, and the end of
  that list is a request to stop. The end of the arrivals is the end of the link: a wait of the source has no time-out, but the supervisor
  closes a link that stays silent. \<open>Client_Theorems\<close>: dialling ends after having dialled every server. \<open>Link_Loss\<close>: a
  server that falls silent is given up with the session kept. \<open>Client_Calls\<close>: failed requests change nothing but what
  pushes change meanwhile. \<open>Console_Theorems\<close>, \<open>Page_Theorems\<close>: the end of the input, the unread badge, the
  history shown on entering a room. \<open>End_To_End\<close>, \<open>Failover\<close> and \<open>Directory_Theorems\<close> put client and
  node together: a login, a session resumed on another node, and the server directory.

  \<^bold>\<open>Parameters.\<close> Argon2 is the record \<open>argon2\<close> of two functions; Qt the records \<open>qt\<close> and \<open>window_qt\<close> of three
  each; the results of operating system calls (connecting, listening, which writes fail, the clocks, random numbers) are
  arguments or fields of the environment. Which of the next statements SQLite fails, and with which message, is the
  field \<open>db_faults\<close> of the database. The histories of a node (\<open>reach enabled node_exec\<close>) are those in which it fails none
  and in which a new connection does not get the number of a socket whose session is still in the table.

  \<^bold>\<open>Bounds.\<close> The event log holds 256 ids, the logger 1000 messages, a payload 1 MB, as in the source; no fuel is
  used.

  \<^bold>\<open>Not modelled.\<close> Preemption inside an operation; the calls that log; the layout and style sheets of the
  graphical interfaces, which only format; the SQLite library, of which the program's statements are
  modelled; the browser application.
\<close>

end
